(* ===== verification/Tt_Prelude.thy ===== *)
theory Tt_Prelude
  imports Main "HOL-Library.Word"
begin

text \<open>
  Shared vocabulary of the development: the machine types of the C code, undefined
  behaviour as a value, C strings inside fixed-size character arrays, and the parts of the
  C library that several components use (\<open>calloc\<close>, \<open>strlen\<close>, \<open>strncpy\<close>, \<open>snprintf\<close>,
  decimal printing and parsing). A C \<open>char\<close> is an Isabelle \<open>char\<close> (a byte); an
  \<open>unsigned char\<close> holding binary data is an \<open>8 word\<close>. A C string is the list of its
  characters before the terminating NUL.
\<close>

section \<open>Types, undefined behaviour, named theorem collections\<close>

type_synonym u8 = "8 word"
type_synonym u64 = "64 word"

datatype ub = Null_deref | Unterminated | Out_of_bounds | Assert_failed | Dangling

type_synonym 'a outcome = "ub + 'a"

named_theorems c_string \<open>facts about C strings in character arrays\<close>
named_theorems outcome_simps \<open>how outcomes compose\<close>

fun and_then :: "'a outcome \<Rightarrow> ('a \<Rightarrow> 'b outcome) \<Rightarrow> 'b outcome" where
  "and_then (Inl e) f = Inl e"
| "and_then (Inr x) f = f x"

text \<open>Using a pointer that may be \<open>NULL\<close>.\<close>

definition deref :: "'a option \<Rightarrow> 'a outcome" where
  "deref p = (case p of None \<Rightarrow> Inl Null_deref | Some x \<Rightarrow> Inr x)"

lemma deref_simps [simp, outcome_simps]:
  "deref None = Inl Null_deref"
  "deref (Some x) = Inr x"
  by (simp_all add: deref_def)

lemma and_then_Inr_iff [outcome_simps]:
  "and_then m f = Inr y \<longleftrightarrow> (\<exists>x. m = Inr x \<and> f x = Inr y)"
  by (cases m) auto

lemma and_then_assoc: "and_then (and_then m f) g = and_then m (\<lambda>x. and_then (f x) g)"
  by (cases m) auto

lemma and_then_Inr_right: "and_then m Inr = m"
  by (cases m) auto

lemma deref_Inr_iff [outcome_simps]: "deref p = Inr x \<longleftrightarrow> p = Some x"
  by (cases p) auto

section \<open>C strings and character arrays\<close>

abbreviation NUL :: char where
  "NUL \<equiv> CHR 0x00"

definition cstr :: "string \<Rightarrow> bool" where
  "cstr s \<longleftrightarrow> NUL \<notin> set s"

lemma cstr_simps [simp, c_string]:
  "cstr []"
  "cstr (c # s) \<longleftrightarrow> c \<noteq> NUL \<and> cstr s"
  "cstr (s @ t) \<longleftrightarrow> cstr s \<and> cstr t"
  by (auto simp: cstr_def)

lemma cstr_take [intro]: "cstr s \<Longrightarrow> cstr (take n s)"
  unfolding cstr_def by (meson in_set_takeD)

lemma cstr_concat: "cstr (concat ss) \<longleftrightarrow> (\<forall>s \<in> set ss. cstr s)"
  by (induction ss) auto

text \<open>The string a reader finds at the start of a character array; \<open>None\<close> when the
  array holds no terminator and the reader would run past its end.\<close>

definition c_str :: "char list \<Rightarrow> string option" where
  "c_str m = (if NUL \<in> set m then Some (takeWhile (\<lambda>c. c \<noteq> NUL) m) else None)"

definition c_read :: "char list \<Rightarrow> string outcome" where
  "c_read m = (case c_str m of None \<Rightarrow> Inl Unterminated | Some s \<Rightarrow> Inr s)"

lemma takeWhile_nul [simp]: "cstr s \<Longrightarrow> takeWhile (\<lambda>c. c \<noteq> NUL) (s @ NUL # t) = s"
  by (induction s) auto

lemma c_str_terminated [simp, c_string]: "cstr s \<Longrightarrow> c_str (s @ NUL # t) = Some s"
  by (simp add: c_str_def)

lemma c_str_SomeD: 
  assumes "c_str m = Some s" 
  shows "cstr s" "\<exists>t. m = s @ NUL # t" "length s < length m"
proof -
  from assms have n: "NUL \<in> set m" and s: "s = takeWhile (\<lambda>c. c \<noteq> NUL) m"
    by (auto simp: c_str_def split: if_splits)
  show "cstr s" unfolding s cstr_def by (auto dest: set_takeWhileD)
  from n have "dropWhile (\<lambda>c. c \<noteq> NUL) m \<noteq> []"
    by (auto simp: dropWhile_eq_Nil_conv)
  then obtain c t where ct: "dropWhile (\<lambda>c. c \<noteq> NUL) m = c # t"
    by (cases "dropWhile (\<lambda>c. c \<noteq> NUL) m") auto
  then have "c = NUL" using hd_dropWhile [of "\<lambda>c. c \<noteq> NUL" m] by auto
  with ct have m: "m = s @ NUL # t"
    using takeWhile_dropWhile_id [of "\<lambda>c. c \<noteq> NUL" m] s by metis
  then show "\<exists>t. m = s @ NUL # t" by blast
  from m show "length s < length m" by simp
qed

lemma c_str_None_iff [c_string]: "c_str m = None \<longleftrightarrow> NUL \<notin> set m"
  by (simp add: c_str_def)

lemma c_read_simps [simp]:
  "cstr s \<Longrightarrow> c_read (s @ NUL # t) = Inr s"
  "NUL \<notin> set m \<Longrightarrow> c_read m = Inl Unterminated"
  by (simp_all add: c_read_def c_str_def)

text \<open>\<open>calloc (n, 1)\<close> and \<open>strncpy\<close> into the start of an array: exactly \<open>n\<close> bytes are
  written, padded with NULs, with no terminator when the source has \<open>n\<close> bytes or more.\<close>

definition calloc :: "nat \<Rightarrow> char list" where
  "calloc n = replicate n NUL"

definition strncpy :: "char list \<Rightarrow> string \<Rightarrow> nat \<Rightarrow> char list" where
  "strncpy dst src n = take n (src @ replicate n NUL) @ drop n dst"

lemma length_strncpy [simp]: "n \<le> length dst \<Longrightarrow> length (strncpy dst src n) = length dst"
  by (simp add: strncpy_def)

lemma strncpy_short [c_string]:
  assumes "length src < n"
  shows "strncpy dst src n = src @ NUL # replicate (n - Suc (length src)) NUL @ drop n dst"
proof -
  from assms obtain k where "n = length src + Suc k"
    using less_imp_add_positive [of "length src" n] by (metis Suc_pred add.commute)
  then show ?thesis by (simp add: strncpy_def replicate_append_same)
qed

lemma c_read_strncpy_short [simp]:
  "cstr src \<Longrightarrow> length src < n \<Longrightarrow> c_read (strncpy dst src n) = Inr src"
  by (simp add: strncpy_short)

lemma c_read_strncpy_full [simp]:
  assumes "cstr src" "n \<le> length src"
  shows "c_read (strncpy (calloc n) src n) = Inl Unterminated"
proof -
  from assms have "strncpy (calloc n) src n = take n src"
    by (simp add: strncpy_def calloc_def)
  moreover from assms(1) have "NUL \<notin> set (take n src)"
    unfolding cstr_def by (meson in_set_takeD)
  ultimately show ?thesis by simp
qed

text \<open>\<open>snprintf (buf, n, ...)\<close>: the text that the buffer then holds.\<close>

definition snprintf_text :: "nat \<Rightarrow> string \<Rightarrow> string" where
  "snprintf_text n t = take (n - 1) t"

lemma snprintf_text_fits [simp]: "length t < n \<Longrightarrow> snprintf_text n t = t"
  by (simp add: snprintf_text_def)

lemma cstr_snprintf_text [simp]: "cstr t \<Longrightarrow> cstr (snprintf_text n t)"
  by (simp add: snprintf_text_def cstr_take)

section \<open>Decimal numbers\<close>

definition digit_char :: "nat \<Rightarrow> char" where
  "digit_char d = char_of (48 + d)"

definition is_digit :: "char \<Rightarrow> bool" where
  "is_digit c \<longleftrightarrow> 48 \<le> (of_char c :: nat) \<and> (of_char c :: nat) \<le> 57"

definition digit_val :: "char \<Rightarrow> nat" where
  "digit_val c = of_char c - 48"

lemma digit_char_props [simp]:
  assumes "d < 10"
  shows "is_digit (digit_char d)" "digit_val (digit_char d) = d"
  using assms by (simp_all add: digit_char_def is_digit_def digit_val_def)

fun show_nat :: "nat \<Rightarrow> string" where
  "show_nat n = (if n < 10 then [digit_char n] else show_nat (n div 10) @ [digit_char (n mod 10)])"

declare show_nat.simps [simp del]

definition show_int :: "int \<Rightarrow> string" where
  "show_int i = (if i < 0 then ''-'' @ show_nat (nat (- i)) else show_nat (nat i))"

definition read_digits :: "string \<Rightarrow> nat" where
  "read_digits s = foldl (\<lambda>a c. 10 * a + digit_val c) 0 s"

lemma show_nat_digits: "c \<in> set (show_nat n) \<Longrightarrow> is_digit c"
proof (induction n rule: show_nat.induct)
  case (1 n)
  then show ?case by (subst (asm) (2) show_nat.simps) (auto split: if_splits)
qed

lemma show_nat_nonempty [simp]: "show_nat n \<noteq> []"
  by (subst show_nat.simps) simp

lemma read_digits_show_nat [simp]: "read_digits (show_nat n) = n"
proof (induction n rule: show_nat.induct)
  case (1 n)
  show ?case
  proof (cases "n < 10")
    case True
    then show ?thesis by (subst show_nat.simps) (simp add: read_digits_def)
  next
    case False
    with 1 have "read_digits (show_nat (n div 10)) = n div 10" by simp
    with False show ?thesis by (subst show_nat.simps) (simp add: read_digits_def)
  qed
qed

lemma digit_val_less: "is_digit c \<Longrightarrow> digit_val c < 10"
  unfolding is_digit_def digit_val_def by linarith

lemma read_digits_bound: "\<forall>c \<in> set s. is_digit c \<Longrightarrow> read_digits s < 10 ^ length s"
proof (induction s rule: rev_induct)
  case (snoc c s)
  then have "digit_val c < 10" "read_digits s < 10 ^ length s" by (simp_all add: digit_val_less)
  then show ?case by (simp add: read_digits_def)
qed (simp add: read_digits_def)

lemma inj_show_nat [simp]: "show_nat m = show_nat n \<longleftrightarrow> m = n"
  by (metis read_digits_show_nat)

lemma not_digit_nul [simp]: "\<not> is_digit NUL" "\<not> is_digit (CHR ''-'')" "\<not> is_digit (CHR 0x27)"
  by (simp_all add: is_digit_def)

lemma cstr_show_nat [simp]: "cstr (show_nat n)"
  unfolding cstr_def using show_nat_digits not_digit_nul(1) by blast

lemma cstr_show_int [simp]: "cstr (show_int i)"
  by (simp add: show_int_def)

lemma length_show_nat: "n < 10 ^ Suc k \<Longrightarrow> length (show_nat n) \<le> Suc k"
proof (induction k arbitrary: n)
  case 0
  then show ?case by (subst show_nat.simps) simp
next
  case (Suc k)
  then have "n div 10 < 10 ^ Suc k" by simp
  then have "length (show_nat (n div 10)) \<le> Suc k" by (rule Suc.IH)
  then show ?case by (subst show_nat.simps) simp
qed

lemma length_show_nat_ge: "10 ^ k \<le> n \<Longrightarrow> Suc k \<le> length (show_nat n)"
proof (induction k arbitrary: n)
  case 0
  then show ?case by (cases "show_nat n") auto
next
  case (Suc k)
  then have le: "10 ^ k \<le> n div 10" by simp
  then have "Suc k \<le> length (show_nat (n div 10))" by (rule Suc.IH)
  moreover from Suc.prems have "\<not> n < 10" 
    by (metis le div_less not_less one_le_numeral one_le_power le_zero_eq not_one_le_zero)
  ultimately show ?case by (subst show_nat.simps) simp
qed

text \<open>\<open>strtol (s, &end, 10)\<close> in the C locale: leading white space, an optional sign, the
  longest run of digits. The value is saturated to the range of \<open>long\<close>; the flag is
  \<open>ERANGE\<close>; the third part says whether any digit was converted (otherwise
  \<open>end = s\<close>).\<close>

definition is_space :: "char \<Rightarrow> bool" where
  "is_space c \<longleftrightarrow> c = CHR '' '' \<or> (9 \<le> (of_char c :: nat) \<and> (of_char c :: nat) \<le> 13)"

definition long_min :: int where "long_min = - (2 ^ 63)"
definition long_max :: int where "long_max = 2 ^ 63 - 1"

definition strtol :: "string \<Rightarrow> int \<times> bool \<times> bool" where
  "strtol s =
     (let s1 = dropWhile is_space s;
          neg = (s1 \<noteq> [] \<and> hd s1 = CHR ''-'');
          s2 = (if s1 \<noteq> [] \<and> (hd s1 = CHR ''-'' \<or> hd s1 = CHR ''+'') then tl s1 else s1);
          ds = takeWhile is_digit s2;
          v = (if neg then - int (read_digits ds) else int (read_digits ds))
      in if ds = [] then (0, False, False)
         else if v < long_min then (long_min, True, True)
         else if v > long_max then (long_max, True, True)
         else (v, False, True))"

text \<open>\<open>atol\<close> and \<open>atoll\<close> are \<open>strtol\<close> without error report.\<close>

definition atol :: "string \<Rightarrow> int" where
  "atol s = fst (strtol s)"

lemma is_digit_not_space [simp]: "is_digit c \<Longrightarrow> \<not> is_space c"
  by (auto simp: is_digit_def is_space_def)

lemma takeWhile_all_digits: "(\<And>c. c \<in> set s \<Longrightarrow> is_digit c) \<Longrightarrow> takeWhile is_digit s = s"
  by (simp add: takeWhile_eq_all_conv)

lemma strtol_show_int:
  assumes "long_min \<le> i" "i \<le> long_max"
  shows "strtol (show_int i) = (i, False, True)"
proof -
  have digits: "takeWhile is_digit (show_nat n) = show_nat n" for n
    by (rule takeWhile_all_digits) (rule show_nat_digits)
  have first: "is_digit (hd (show_nat n))" for n
    using show_nat_digits [of "hd (show_nat n)" n] by simp
  have nospace: "dropWhile is_space (show_nat n) = show_nat n" for n
    using first [of n] by (cases "show_nat n") auto
  have nosign: "hd (show_nat n) \<noteq> CHR ''-''" "hd (show_nat n) \<noteq> CHR ''+''" for n
    using first [of n] by (auto simp: is_digit_def)
  show ?thesis
  proof (cases "i < 0")
    case True
    then have "\<not> is_space (CHR ''-'')" and "i = - int (nat (- i))" by (simp_all add: is_space_def)
    with True assms show ?thesis
      by (simp add: strtol_def show_int_def Let_def digits)
  next
    case False
    with assms show ?thesis
      by (simp add: strtol_def show_int_def Let_def digits nospace nosign)
  qed
qed

lemma atol_show_int: "long_min \<le> i \<Longrightarrow> i \<le> long_max \<Longrightarrow> atol (show_int i) = i"
  by (simp add: atol_def strtol_show_int)

end
