(* ===== verification/C_Double.thy ===== *)
theory C_Double
  imports Tt_Prelude
begin

text \<open>
  The C type \<open>double\<close> as far as the program uses it: the sign test of a price, its decimal
  rendering by \<open>printf ("%f")\<close> and its parsing by \<open>atof\<close>. A finite double is a sign, an
  integer significand and a binary exponent; rendering and parsing are computed exactly on
  natural numbers and rounded to nearest, ties to even, as the C library does.
\<close>

section \<open>Doubles\<close>

datatype double = Fin bool nat int | Inf bool | NaN bool

definition wf_double :: "double \<Rightarrow> bool" where
  "wf_double x = (case x of Fin s m e \<Rightarrow> m < 2 ^ 53 \<and> - 1074 \<le> e \<and> e \<le> 971 | _ \<Rightarrow> True)"

text \<open>\<open>x < 0\<close>: false on both zeros and on every NaN.\<close>

definition is_negative :: "double \<Rightarrow> bool" where
  "is_negative x = (case x of Fin s m e \<Rightarrow> s \<and> m \<noteq> 0 | Inf s \<Rightarrow> s | NaN s \<Rightarrow> False)"

text \<open>The magnitude of a finite double as a fraction.\<close>

definition numer :: "nat \<Rightarrow> int \<Rightarrow> nat" where
  "numer m e = (if 0 \<le> e then m * 2 ^ nat e else m)"

definition denom :: "int \<Rightarrow> nat" where
  "denom e = (if 0 \<le> e then 1 else 2 ^ nat (- e))"

lemma denom_pos [simp]: "0 < denom e"
  by (simp add: denom_def)

text \<open>Division rounded to nearest, ties to even.\<close>

definition round_div :: "nat \<Rightarrow> nat \<Rightarrow> nat" where
  "round_div n d =
     (let q = n div d; r = n mod d
      in if 2 * r < d then q else if d < 2 * r then q + 1 else q + q mod 2)"

lemma round_div_le: "round_div n d \<le> n div d + 1"
  by (auto simp: round_div_def Let_def)

lemma round_div_ge: "n div d \<le> round_div n d"
  by (auto simp: round_div_def Let_def)

lemma round_div_1 [simp]: "round_div n 1 = n"
  by (simp add: round_div_def)

lemma round_div_error:
  assumes "0 < d"
  shows "2 * \<bar>int (round_div n d) * int d - int n\<bar> \<le> int d"
proof -
  define q r where "q = n div d" and "r = n mod d"
  have n: "int n = int q * int d + int r"
    unfolding q_def r_def by (metis div_mult_mod_eq of_nat_add of_nat_mult)
  have r: "r < d" using assms by (simp add: r_def)
  have rd: "round_div n d = (if 2 * r < d then q else if d < 2 * r then q + 1 else q + q mod 2)"
    by (simp add: round_div_def Let_def q_def r_def)
  have "q mod 2 = 0 \<or> q mod 2 = 1" by presburger
  with rd have "2 * r \<le> d \<and> round_div n d = q \<or> d \<le> 2 * r \<and> round_div n d = q + 1"
    by (cases "2 * r < d"; cases "d < 2 * r") auto
  then show ?thesis
    using n r by (auto simp: algebra_simps)
qed

section \<open>Rendering: \<open>%f\<close>\<close>

definition six_digits :: "nat \<Rightarrow> string" where
  "six_digits k = map (\<lambda>j. digit_char (k div 10 ^ j mod 10)) [5, 4, 3, 2, 1, 0]"

definition sign_text :: "bool \<Rightarrow> string" where
  "sign_text s = (if s then ''-'' else [])"

definition micro :: "nat \<Rightarrow> int \<Rightarrow> nat" where
  "micro m e = round_div (numer m e * 10 ^ 6) (denom e)"

definition fmt_f :: "double \<Rightarrow> string" where
  "fmt_f x = (case x of
       Fin s m e \<Rightarrow> sign_text s @ show_nat (micro m e div 10 ^ 6) @ ''.'' @ six_digits (micro m e mod 10 ^ 6)
     | Inf s \<Rightarrow> sign_text s @ ''inf''
     | NaN s \<Rightarrow> sign_text s @ ''nan'')"

lemma length_six_digits [simp]: "length (six_digits k) = 6"
  by (simp add: six_digits_def)

lemma length_sign_text: "length (sign_text s) \<le> 1"
  by (simp add: sign_text_def)

lemma digit_char_safe [simp]: 
  "d < 10 \<Longrightarrow> digit_char d \<noteq> NUL" "d < 10 \<Longrightarrow> digit_char d \<noteq> CHR 0x27"
  by (metis digit_char_props(1) not_digit_nul(1), metis digit_char_props(1) not_digit_nul(3))

lemma cstr_six_digits [simp]: "cstr (six_digits k)"
  by (simp add: six_digits_def)

lemma cstr_sign_text [simp]: "cstr (sign_text s)"
  by (simp add: sign_text_def)

lemma cstr_fmt_f [simp]: "cstr (fmt_f x)"
  by (cases x) (simp_all add: fmt_f_def)

lemma read_digits_append:
  "read_digits (s @ t) = read_digits s * 10 ^ length t + read_digits t"
proof -
  have *: "foldl (\<lambda>a c. 10 * a + digit_val c) a t =
      a * 10 ^ length t + foldl (\<lambda>a c. 10 * a + digit_val c) 0 t" for a t
  proof (induction t arbitrary: a)
    case Nil
    then show ?case by simp
  next
    case (Cons c t)
    show ?case
      using Cons.IH [of "10 * a + digit_val c"] Cons.IH [of "digit_val c"]
      by (simp add: algebra_simps)
  qed
  show ?thesis unfolding read_digits_def foldl_append by (rule *)
qed

lemma read_digits_six [simp]:
  assumes "k < 10 ^ 6"
  shows "read_digits (six_digits k) = k"
proof -
  define k1 k2 k3 k4 k5 where "k1 = k div 10" "k2 = k1 div 10" "k3 = k2 div 10"
    "k4 = k3 div 10" "k5 = k4 div 10"
  note ks = this
  have "k5 < 10" using assms unfolding ks by (simp add: div_mult2_eq [symmetric] less_mult_imp_div_less)
  then have "k5 mod 10 = k5" by simp
  moreover have "read_digits (six_digits k) =
      10 * (10 * (10 * (10 * (10 * (k5 mod 10) + k4 mod 10) + k3 mod 10)
        + k2 mod 10) + k1 mod 10) + k mod 10"
    unfolding ks by (simp add: read_digits_def six_digits_def div_mult2_eq [symmetric])
  moreover have "10 * k5 + k4 mod 10 = k4" "10 * k4 + k3 mod 10 = k3" "10 * k3 + k2 mod 10 = k2"
    "10 * k2 + k1 mod 10 = k1" "10 * k1 + k mod 10 = k"
    unfolding ks by (rule mult_div_mod_eq)+
  ultimately show ?thesis by (simp only:)
qed

section \<open>Parsing: \<open>atof\<close>\<close>

text \<open>The number of binary digits.\<close>

fun bit_len :: "nat \<Rightarrow> nat" where
  "bit_len n = (if n = 0 then 0 else Suc (bit_len (n div 2)))"

declare bit_len.simps [simp del]

text \<open>The double nearest to \<open>n / d\<close>, for \<open>0 < d\<close>.\<close>

definition round_double :: "bool \<Rightarrow> nat \<Rightarrow> nat \<Rightarrow> double" where
  "round_double s n d =
     (if n = 0 then Fin s 0 (- 1074)
      else
        let e0 = int (bit_len n) - int (bit_len d) - 53;
            q0 = (if 0 \<le> e0 then n div (d * 2 ^ nat e0) else n * 2 ^ nat (- e0) div d);
            e1 = (if q0 \<ge> 2 ^ 53 then e0 + 1 else e0);
            e = max e1 (- 1074);
            m = (if 0 \<le> e then round_div n (d * 2 ^ nat e) else round_div (n * 2 ^ nat (- e)) d)
        in if m = 2 ^ 53
           then (if e + 1 > 971 then Inf s else Fin s (2 ^ 52) (e + 1))
           else (if e > 971 then Inf s else Fin s m e))"

definition lower :: "char \<Rightarrow> char" where
  "lower c = (let k = (of_char c :: nat) in if 65 \<le> k \<and> k \<le> 90 then char_of (k + 32) else c)"

text \<open>Decimal input only: white space, sign, digits with an optional point, an optional
  exponent; \<open>inf\<close> and \<open>nan\<close> in any case. The server never prints hexadecimal floats.\<close>

definition atof :: "string \<Rightarrow> double" where
  "atof t =
     (let s1 = dropWhile is_space t;
          neg = (s1 \<noteq> [] \<and> hd s1 = CHR ''-'');
          s2 = (if s1 \<noteq> [] \<and> (hd s1 = CHR ''-'' \<or> hd s1 = CHR ''+'') then tl s1 else s1);
          ip = takeWhile is_digit s2;
          s3 = dropWhile is_digit s2;
          fp = (if s3 \<noteq> [] \<and> hd s3 = CHR ''.'' then takeWhile is_digit (tl s3) else []);
          s4 = (if s3 \<noteq> [] \<and> hd s3 = CHR ''.'' then dropWhile is_digit (tl s3) else s3)
      in if ip @ fp = [] then
           (if map lower (take 3 s2) = ''inf'' then Inf neg
            else if map lower (take 3 s2) = ''nan'' then NaN neg
            else Fin False 0 (- 1074))
         else
           let x = (if s4 \<noteq> [] \<and> lower (hd s4) = CHR ''e'' then fst (strtol (tl s4)) else 0);
               k = x - int (length fp);
               n = read_digits (ip @ fp)
           in if 0 \<le> k then round_double neg (n * 10 ^ nat k) 1
              else round_double neg n (10 ^ nat (- k)))"

end
