(* ===== verification/Wire.thy ===== *)
theory Wire
  imports C_Double
begin

text \<open>
  The messages of the protocol, after the FlatBuffers schema that the generated headers
  under \<open>src/backend/api-schema\<close> come from: one record per request table, the union of the
  requests as a datatype, the response tables, and the root table of a response. A string
  field is the C string that the reader returns (the bytes before its NUL); an optional
  field is an \<open>option\<close>. The FlatBuffers runtime (verifier, reader, builder) is a library:
  its operations are the fields of \<open>codec\<close>.
\<close>

section \<open>Requests\<close>

record login_req =
  lg_username :: string
  lg_password :: string

record register_req =
  rg_username :: string
  rg_password :: string
  rg_firstName :: string
  rg_lastName :: string

record get_me_req =
  gm_token :: string

record edit_me_req =
  em_username :: "string option"
  em_password :: "string option"
  em_firstName :: "string option"
  em_lastName :: "string option"
  em_admin :: bool
  em_token :: string

record request_contract_req =
  rc_token :: string
  rc_name :: string
  rc_description :: "string option"
  rc_price :: double
  rc_attachment :: "u8 list option"

record list_contracts_req =
  lc_token :: string

record check_contract_req =
  ck_token :: string
  ck_id :: u64 \<comment> \<open>\<open>int64_t\<close>: read with \<open>sint\<close>\<close>

text \<open>The union of the root table; any other type code has no accessible value.\<close>

datatype request =
    Req_Login login_req
  | Req_Register register_req
  | Req_GetMe get_me_req
  | Req_EditMe edit_me_req
  | Req_RequestContract request_contract_req
  | Req_ListContracts list_contracts_req
  | Req_CheckContract check_contract_req
  | Req_Other u8

fun union_type :: "request \<Rightarrow> u8" where
  "union_type (Req_Login _) = 1"
| "union_type (Req_Register _) = 2"
| "union_type (Req_GetMe _) = 3"
| "union_type (Req_EditMe _) = 4"
| "union_type (Req_RequestContract _) = 5"
| "union_type (Req_ListContracts _) = 6"
| "union_type (Req_CheckContract _) = 7"
| "union_type (Req_Other t) = t"

section \<open>Responses\<close>

record user_info =
  ui_username :: string
  ui_firstName :: string
  ui_lastName :: string

record contract_info =
  ci_id :: u64
  ci_name :: string
  ci_description :: "string option"
  ci_price :: double
  ci_attachment :: "u8 list option"
  ci_status :: u8
  ci_created_at :: u64
  ci_by_user :: user_info

record me_info =
  mi_username :: string
  mi_password :: string
  mi_firstName :: string
  mi_lastName :: string
  mi_admin :: bool

datatype response_body =
    Res_Login string
  | Res_Register string
  | Res_GetMe me_info
  | Res_EditMe string
  | Res_RequestContract contract_info
  | Res_ListContracts "contract_info list"
  | Res_CheckContract contract_info

definition status_Processing :: u8 where
  "status_Processing = 1"

record response =
  r_error :: bool
  r_errorDescription :: "string option"
  r_msg :: "response_body option"

definition error_response :: "string \<Rightarrow> response" where
  "error_response d = \<lparr>r_error = True, r_errorDescription = Some d, r_msg = None\<rparr>"

definition ok_response :: "response_body \<Rightarrow> response" where
  "ok_response m = \<lparr>r_error = False, r_errorDescription = None, r_msg = Some m\<rparr>"

lemma response_simps [simp]:
  "r_error (error_response d)" "r_errorDescription (error_response d) = Some d"
  "r_msg (error_response d) = None"
  "\<not> r_error (ok_response m)" "r_errorDescription (ok_response m) = None"
  "r_msg (ok_response m) = Some m"
  by (simp_all add: error_response_def ok_response_def)

lemma response_inject [simp]:
  "error_response d \<noteq> ok_response m" "ok_response m \<noteq> error_response d"
  "error_response d = error_response d' \<longleftrightarrow> d = d'" "ok_response m = ok_response m' \<longleftrightarrow> m = m'"
  by (simp_all add: error_response_def ok_response_def)

section \<open>The FlatBuffers runtime\<close>

text \<open>
  \<open>fb_verify\<close> is \<open>TomTomBackend_Request_Message_verify_as_root\<close> (0 is success),
  \<open>fb_as_root\<close> whether \<open>Message_as_root\<close> is not \<open>NULL\<close>, \<open>fb_message\<close> the request read
  from the root, or how reading it fails, and \<open>fb_finalize\<close> the buffer that the builder yields for a response (\<open>None\<close> for
  a \<open>NULL\<close> buffer).
\<close>

record codec =
  fb_verify :: "u8 list \<Rightarrow> int"
  fb_as_root :: "u8 list \<Rightarrow> bool"
  fb_message :: "u8 list \<Rightarrow> request outcome"
  fb_finalize :: "response \<Rightarrow> u8 list option"

end
