(* ===== verification/Base64.thy ===== *)
theory Base64
  imports Tt_Prelude
begin

unbundle bit_operations_syntax

text \<open>
  \<open>b64_encode\<close> and \<open>b64_decode\<close> of \<open>src/backend/src/utils.c\<close>. The input of the encoder is
  the byte list \<open>src\<close> of length \<open>len\<close>; its result is \<open>None\<close> for a \<open>NULL\<close> return and
  otherwise the text before the terminating NUL, so \<open>*out_len\<close> is its length. \<open>malloc\<close>
  is taken to succeed. Lengths are \<open>size_t\<close>, a 64-bit word, so that the overflow check
  of the encoder is the one of the code.
\<close>

section \<open>The code\<close>

definition base64_table :: string where
  "base64_table = ''ABCDEFGHIJKLMNOPQRSTUVWXYZabcdefghijklmnopqrstuvwxyz0123456789+/''"

definition table_at :: "u8 \<Rightarrow> char" where
  "table_at x = base64_table ! unat x"

text \<open>The three-byte loop and the tail after it.\<close>

fun b64_loop :: "u8 list \<Rightarrow> string" where
  "b64_loop (a # b # c # rest) =
     [table_at (drop_bit 2 a),
      table_at (push_bit 4 (a AND 0x03) OR drop_bit 4 b),
      table_at (push_bit 2 (b AND 0x0f) OR drop_bit 6 c),
      table_at (c AND 0x3f)] @ b64_loop rest"
| "b64_loop [a] =
     [table_at (drop_bit 2 a), table_at (push_bit 4 (a AND 0x03)), CHR ''='', CHR ''='']"
| "b64_loop [a, b] =
     [table_at (drop_bit 2 a),
      table_at (push_bit 4 (a AND 0x03) OR drop_bit 4 b),
      table_at (push_bit 2 (b AND 0x0f)), CHR ''='']"
| "b64_loop [] = []"

text \<open>The size of the output buffer, with the wrap-around of \<open>size_t\<close>.\<close>

definition b64_olen :: "u64 \<Rightarrow> u64" where
  "b64_olen len =
     (let olen = len * 4 div 3 + 4;
          olen = olen + olen div 72
      in olen + 1)"

definition b64_encode :: "u8 list \<Rightarrow> string option" where
  "b64_encode src =
     (let len = of_nat (length src) in
      if b64_olen len < len then None else Some (b64_loop src))"

text \<open>The decoding table: \<open>0x80\<close> everywhere, then the 64 symbols, then \<open>'='\<close> as zero.\<close>

definition dtable :: "u8 list" where
  "dtable =
     (fold (\<lambda>i t. t[of_char (base64_table ! i) := of_nat i]) [0..<64] (replicate 256 0x80))
       [of_char (CHR ''='') := 0]"

definition dlookup :: "char \<Rightarrow> u8" where
  "dlookup c = dtable ! of_char c"

text \<open>The decoding loop; its state is the position in \<open>src\<close> (the rest of the list), the
  \<open>count\<close> symbols in \<open>block\<close>, \<open>pad\<close>, and the bytes written from \<open>out\<close> to \<open>pos\<close>. The buffer has
  \<open>olen\<close> bytes, and \<open>*pos++\<close> with \<open>pos\<close> at its end is a write outside it. A full block that contains
  padding ends the loop.\<close>

definition push_byte :: "nat \<Rightarrow> u8 list \<Rightarrow> u8 \<Rightarrow> u8 list outcome" where
  "push_byte olen out v = (if length out < olen then Inr (out @ [v]) else Inl Out_of_bounds)"

fun push_bytes :: "nat \<Rightarrow> u8 list \<Rightarrow> u8 list \<Rightarrow> u8 list outcome" where
  "push_bytes olen out [] = Inr out"
| "push_bytes olen out (v # vs) = and_then (push_byte olen out v) (\<lambda>out. push_bytes olen out vs)"

definition block_bytes :: "u8 list \<Rightarrow> u8 list" where
  "block_bytes block =
     [push_bit 2 (block ! 0) OR drop_bit 4 (block ! 1),
      push_bit 4 (block ! 1) OR drop_bit 2 (block ! 2),
      push_bit 6 (block ! 2) OR block ! 3]"

fun dec_loop :: "nat \<Rightarrow> string \<Rightarrow> u8 list \<Rightarrow> nat \<Rightarrow> u8 list \<Rightarrow> u8 list option outcome" where
  "dec_loop olen [] block pad out = Inr (Some out)"
| "dec_loop olen (c # cs) block pad out =
     (let tmp = dlookup c in
      if tmp = 0x80 then dec_loop olen cs block pad out
      else
        let pad = (if c = CHR ''='' then pad + 1 else pad);
            block = block @ [tmp]
        in if length block = 4 then
             and_then (push_bytes olen out (block_bytes block)) (\<lambda>out.
               if pad = 0 then dec_loop olen cs [] pad out
               else if pad = 1 then Inr (Some (take (length out - 1) out))
               else if pad = 2 then Inr (Some (take (length out - 2) out))
               else Inr None)
           else dec_loop olen cs block pad out)"

definition sym_count :: "string \<Rightarrow> nat" where
  "sym_count src = length (filter (\<lambda>c. dlookup c \<noteq> 0x80) src)"

definition b64_decode :: "string \<Rightarrow> u8 list option outcome" where
  "b64_decode src =
     (let count = sym_count src in
      if count = 0 \<or> count mod 4 \<noteq> 0 then Inr None
      else let olen = count div 4 * 3 in dec_loop olen src [] 0 [])"

section \<open>The tables are inverse to each other\<close>

lemma length_base64_table: "length base64_table = 64"
  by (simp add: base64_table_def)

lemma fold_update_nth:
  "distinct (map f is) \<Longrightarrow> \<forall>i \<in> set is. f i < length t \<Longrightarrow>
   length (fold (\<lambda>i t. t[f i := g i]) is t) = length t \<and>
   (\<forall>i \<in> set is. fold (\<lambda>i t. t[f i := g i]) is t ! f i = g i) \<and>
   (\<forall>k. k \<notin> f ` set is \<longrightarrow> fold (\<lambda>i t. t[f i := g i]) is t ! k = t ! k)"
proof (induction "is" arbitrary: t)
  case Nil
  then show ?case by simp
next
  case (Cons j "is")
  let ?t = "t[f j := g j]"
  from Cons have IH: "length (fold (\<lambda>i t. t[f i := g i]) is ?t) = length ?t \<and>
   (\<forall>i \<in> set is. fold (\<lambda>i t. t[f i := g i]) is ?t ! f i = g i) \<and>
   (\<forall>k. k \<notin> f ` set is \<longrightarrow> fold (\<lambda>i t. t[f i := g i]) is ?t ! k = ?t ! k)"
    by simp
  with Cons.prems show ?case by auto
qed

lemma distinct_base64_table: "distinct base64_table"
  by (simp add: base64_table_def)

lemma set_base64_table:
  "CHR ''='' \<notin> set base64_table" "CHR 0x27 \<notin> set base64_table"
  "NUL \<notin> set base64_table" "CHR 0x5C \<notin> set base64_table"
  by (simp_all add: base64_table_def)

definition sym_index :: "nat \<Rightarrow> nat" where
  "sym_index i = of_char (base64_table ! i)"

lemma dtable_fold:
  "dtable = (fold (\<lambda>i t. t[sym_index i := of_nat i]) [0..<64] (replicate 256 0x80))
     [of_char (CHR ''='') := 0]"
  by (simp add: dtable_def sym_index_def)

lemma sym_index_less: "sym_index i < 256"
  by (simp add: sym_index_def)

lemma distinct_sym_index: "distinct (map sym_index [0..<64])"
proof -
  have "map sym_index [0..<64] = map of_char (map ((!) base64_table) [0..<length base64_table])"
    by (simp add: length_base64_table sym_index_def)
  also have "\<dots> = map of_char base64_table" by (simp only: map_nth)
  also have "distinct \<dots>"
    by (auto simp: distinct_map distinct_base64_table inj_on_def)
  finally show ?thesis .
qed

lemma dlookup_pad [simp]: "dlookup (CHR ''='') = 0"
  using fold_update_nth [OF distinct_sym_index, of "replicate 256 0x80" "of_nat :: nat \<Rightarrow> u8"]
  by (simp add: dlookup_def dtable_fold sym_index_less)

lemma table_nth_mem: "i < 64 \<Longrightarrow> base64_table ! i \<in> set base64_table"
  by (simp add: length_base64_table)

lemma sym_index_not_pad: "i < 64 \<Longrightarrow> sym_index i \<noteq> of_char (CHR ''='')"
  using table_nth_mem [of i] set_base64_table(1) unfolding sym_index_def by (metis of_char_eq_iff)

lemma dlookup_nth: "i < 64 \<Longrightarrow> dlookup (base64_table ! i) = of_nat i"
  using fold_update_nth [OF distinct_sym_index, of "replicate 256 0x80" "of_nat :: nat \<Rightarrow> u8"]
    sym_index_not_pad [of i]
  by (simp add: dlookup_def dtable_fold sym_index_less sym_index_def [symmetric])

lemma dlookup_other:
  assumes "c \<notin> set base64_table" "c \<noteq> CHR ''=''"
  shows "dlookup c = 0x80"
proof -
  have "of_char c \<notin> sym_index ` set [0..<64]"
    using assms(1) table_nth_mem by (auto simp: sym_index_def)
  moreover have "(of_char c :: nat) \<noteq> of_char (CHR ''='')"
    using assms(2) by (simp del: of_char_Char)
  ultimately show ?thesis
    using fold_update_nth [OF distinct_sym_index, of "replicate 256 0x80" "of_nat :: nat \<Rightarrow> u8"]
    by (simp add: dlookup_def dtable_fold sym_index_less del: of_char_Char)
qed

lemma dlookup_table_at [simp]:
  assumes "unat x < 64"
  shows "dlookup (table_at x) = x" "table_at x \<noteq> CHR ''=''" "table_at x \<in> set base64_table"
  using dlookup_nth [OF assms] table_nth_mem [OF assms] set_base64_table(1)
  by (auto simp: table_at_def)

section \<open>Sextets\<close>

lemma byte_eqI:
  fixes x y :: u8
  assumes "bit x 0 = bit y 0" "bit x 1 = bit y 1" "bit x 2 = bit y 2" "bit x 3 = bit y 3"
    "bit x 4 = bit y 4" "bit x 5 = bit y 5" "bit x 6 = bit y 6" "bit x 7 = bit y 7"
  shows "x = y"
proof (rule bit_word_eqI)
  fix n assume "n < LENGTH(8)"
  then have "n \<in> {0, 1, 2, 3, 4, 5, 6, 7}" by auto
  with assms show "bit x n = bit y n" by auto
qed

lemma sextet_less: 
  fixes x :: u8
  assumes "\<not> bit x 6" "\<not> bit x 7"
  shows "unat x < 64"
proof -
  have "x = take_bit 6 x"
    by (rule byte_eqI) (use assms in \<open>simp_all add: bit_take_bit_iff\<close>)
  then have "unat x = take_bit 6 (unat x)"
    by (metis unsigned_take_bit_eq)
  then show ?thesis using take_bit_nat_less_exp [of 6 "unat x"] by simp
qed

lemma byte_high_bit: "8 \<le> n \<Longrightarrow> \<not> bit (x :: u8) n"
  using bit_imp_le_length [of x n] by auto

lemmas sextet_bits = bit_or_iff bit_and_iff bit_push_bit_iff bit_drop_bit_eq byte_high_bit

lemma sextet_bounds [simp]:
  fixes a b c :: u8
  shows "unat (drop_bit 2 a) < 64"
    "unat (push_bit 4 (a AND 3) OR drop_bit 4 b) < 64"
    "unat (push_bit 2 (b AND 15) OR drop_bit 6 c) < 64"
    "unat (c AND 63) < 64"
    "unat (push_bit 4 (a AND 3)) < 64"
    "unat (push_bit 2 (b AND 15)) < 64"
  by (rule sextet_less; simp add: sextet_bits)+

lemma block_bytes_group:
  fixes a b c :: u8
  shows "block_bytes [drop_bit 2 a, push_bit 4 (a AND 3) OR drop_bit 4 b,
     push_bit 2 (b AND 15) OR drop_bit 6 c, c AND 63] = [a, b, c]"
proof -
  have "push_bit 2 (drop_bit 2 a) OR drop_bit 4 (push_bit 4 (a AND 3) OR drop_bit 4 b) = a"
    "push_bit 4 (push_bit 4 (a AND 3) OR drop_bit 4 b) OR
       drop_bit 2 (push_bit 2 (b AND 15) OR drop_bit 6 c) = b"
    "push_bit 6 (push_bit 2 (b AND 15) OR drop_bit 6 c) OR (c AND 63) = c"
    by (rule byte_eqI; simp add: sextet_bits)+
  then show ?thesis by (simp add: block_bytes_def)
qed

lemma block_bytes_tails:
  fixes a b :: u8
  shows "take (Suc 0) (block_bytes [drop_bit 2 a, push_bit 4 (a AND 3), 0, 0]) = [a]"
    "take (Suc 0) (block_bytes [drop_bit 2 a, push_bit 4 (a AND 3) OR drop_bit 4 b, x, y]) = [a]"
    "take 2 (block_bytes [drop_bit 2 a, push_bit 4 (a AND 3) OR drop_bit 4 b,
       push_bit 2 (b AND 15), 0]) = [a, b]"
proof -
  have "push_bit 2 (drop_bit 2 a) OR drop_bit 4 (push_bit 4 (a AND 3)) = a"
    "push_bit 2 (drop_bit 2 a) OR drop_bit 4 (push_bit 4 (a AND 3) OR drop_bit 4 b) = a"
    "push_bit 4 (push_bit 4 (a AND 3) OR drop_bit 4 b) OR
       drop_bit 2 (push_bit 2 (b AND 15)) = b"
    by (rule byte_eqI; simp add: sextet_bits)+
  then show "take (Suc 0) (block_bytes [drop_bit 2 a, push_bit 4 (a AND 3), 0, 0]) = [a]"
    "take (Suc 0) (block_bytes [drop_bit 2 a, push_bit 4 (a AND 3) OR drop_bit 4 b, x, y]) = [a]"
    "take 2 (block_bytes [drop_bit 2 a, push_bit 4 (a AND 3) OR drop_bit 4 b,
       push_bit 2 (b AND 15), 0]) = [a, b]"
    by (simp_all add: block_bytes_def)
qed

text \<open>The four sextets of a group, kept opaque so that the simplifier does not rearrange
  the bit operations.\<close>

definition sext2 :: "u8 \<Rightarrow> u8 \<Rightarrow> u8" where "sext2 a b = push_bit 4 (a AND 0x03) OR drop_bit 4 b"
definition sext3 :: "u8 \<Rightarrow> u8 \<Rightarrow> u8" where "sext3 b c = push_bit 2 (b AND 0x0f) OR drop_bit 6 c"
definition sext4 :: "u8 \<Rightarrow> u8" where "sext4 c = c AND 0x3f"

lemma sext_zero:
  "push_bit 4 (a AND 0x03) = sext2 a 0" "push_bit 2 (a AND 0x0f) = sext3 a 0"
  by (simp_all only: sext2_def sext3_def drop_bit_of_0 or.right_neutral)

lemma b64_loop_sextets:
  "b64_loop (a # b # c # rest) =
     [table_at (drop_bit 2 a), table_at (sext2 a b), table_at (sext3 b c), table_at (sext4 c)]
     @ b64_loop rest"
  "b64_loop [a] = [table_at (drop_bit 2 a), table_at (sext2 a 0), CHR ''='', CHR ''='']"
  "b64_loop [a, b] =
     [table_at (drop_bit 2 a), table_at (sext2 a b), table_at (sext3 b 0), CHR ''='']"
  by (simp_all only: b64_loop.simps sext2_def sext3_def sext4_def drop_bit_of_0 or.right_neutral)

declare b64_loop.simps(1-3) [simp del]
declare b64_loop_sextets [simp]

lemma sext_bounds [simp]: "unat (sext2 a b) < 64" "unat (sext3 a b) < 64" "unat (sext4 a) < 64"
  unfolding sext2_def sext3_def sext4_def by (rule sextet_bounds)+

lemma block_bytes_sextets:
  "block_bytes [drop_bit 2 a, sext2 a b, sext3 b c, sext4 c] = [a, b, c]"
  "block_bytes [drop_bit 2 a, sext2 a 0, 0, 0] = [a, 0, 0]"
  "take 2 (block_bytes [drop_bit 2 a, sext2 a b, sext3 b 0, 0]) = [a, b]"
proof -
  show "block_bytes [drop_bit 2 a, sext2 a b, sext3 b c, sext4 c] = [a, b, c]" for a b c
    unfolding sext2_def sext3_def sext4_def by (rule block_bytes_group)
  from this [of a 0 0]  show "block_bytes [drop_bit 2 a, sext2 a 0, 0, 0] = [a, 0, 0]"
    by (simp add: sext3_def sext4_def)
  from \<open>\<And>a b c. block_bytes [drop_bit 2 a, sext2 a b, sext3 b c, sext4 c] = [a, b, c]\<close> [of a b 0]
  show "take 2 (block_bytes [drop_bit 2 a, sext2 a b, sext3 b 0, 0]) = [a, b]"
    by (simp add: sext4_def)
qed

section \<open>Encoder: length, alphabet, buffer bound\<close>

lemma length_b64_loop: "length (b64_loop xs) = 4 * ((length xs + 2) div 3)"
proof (induction xs rule: b64_loop.induct)
  case (1 a b c rest)
  have "(length (a # b # c # rest) + 2) div 3 = (length rest + 2) div 3 + 1" by simp
  with 1 show ?case by simp
qed auto

lemma set_b64_loop: "set (b64_loop xs) \<subseteq> insert (CHR ''='') (set base64_table)"
  by (induction xs rule: b64_loop.induct) auto

lemma b64_loop_safe:
  "CHR 0x27 \<notin> set (b64_loop xs)" "CHR 0x5C \<notin> set (b64_loop xs)" "cstr (b64_loop xs)"
  using set_b64_loop [of xs] set_base64_table by (auto simp: cstr_def)

text \<open>The \<open>size_t\<close> arithmetic of the buffer size, as natural numbers.\<close>

lemma unat_add_small:
  "unat x + unat y < 2 ^ 64 \<Longrightarrow> unat (x + y :: u64) = unat x + unat y"
  by (simp add: unat_word_ariths)

lemma unat_b64_olen:
  fixes len :: u64
  defines "m \<equiv> (4 * unat len) mod 2 ^ 64"
  shows "unat (b64_olen len) = m div 3 + 4 + (m div 3 + 4) div 72 + 1"
proof -
  define x where "x = len * 4"
  have m: "unat x = m"
    unfolding m_def x_def by (simp only: unat_word_ariths mult.commute) simp
  have bm: "m < 2 ^ 64" unfolding m_def by (rule mod_less_divisor) simp
  then have b3: "m div 3 + 4 + (m div 3 + 4) div 72 + 1 < 2 ^ 64" by simp
  have d3: "unat (x div 3) = m div 3"
    using m by (simp add: unat_div)
  then have o: "unat (x div 3 + 4) = m div 3 + 4"
    using b3 by (subst unat_add_small) simp_all
  then have o72: "unat ((x div 3 + 4) div 72) = (m div 3 + 4) div 72"
    by (simp add: unat_div)
  have s: "unat (x div 3 + 4 + (x div 3 + 4) div 72) = m div 3 + 4 + (m div 3 + 4) div 72"
    using o o72 b3 by (subst unat_add_small) simp_all
  have "unat (x div 3 + 4 + (x div 3 + 4) div 72 + 1) = m div 3 + 4 + (m div 3 + 4) div 72 + 1"
    using s b3 by (subst unat_add_small) simp_all
  then show ?thesis
    by (simp only: b64_olen_def Let_def x_def)
qed

lemma b64_olen_overflow_iff: "b64_olen len < len \<longleftrightarrow> 2 ^ 62 \<le> unat len"
proof -
  define n where "n = unat len"
  define k where "k = (4 * n) mod 2 ^ 64"
  have n: "n < 2 ^ 64" unfolding n_def using unsigned_less [of len] by simp
  have less: "b64_olen len < len \<longleftrightarrow> k div 3 + 4 + (k div 3 + 4) div 72 + 1 < n"
    by (simp only: word_less_nat_alt unat_b64_olen k_def n_def)
  show ?thesis
  proof (cases "n < 2 ^ 62")
    case True
    then have "k = 4 * n" unfolding k_def by simp
    then have "\<not> k div 3 + 4 + (k div 3 + 4) div 72 + 1 < n" by linarith
    then show ?thesis using True less by (simp add: n_def)
  next
    case False
    have k: "k < 2 ^ 64" unfolding k_def by (rule mod_less_divisor) simp
    have q: "4 * n = 2 ^ 64 * ((4 * n) div 2 ^ 64) + k"
      unfolding k_def by (rule mult_div_mod_eq [symmetric])
    have "(2 :: nat) ^ 64 \<le> 4 * n" using False by simp
    then have "1 \<le> (4 * n) div 2 ^ 64" by (simp add: div_greater_zero_iff Suc_le_eq)
    then have "2 ^ 64 * 1 \<le> (2 :: nat) ^ 64 * ((4 * n) div 2 ^ 64)" by (rule mult_left_mono) simp
    with q have "2 ^ 64 + k \<le> 4 * n" by linarith
    with k have "k div 3 + 4 + (k div 3 + 4) div 72 + 1 < n" by simp
    with False show ?thesis by (simp add: less n_def)
  qed
qed

lemma b64_buffer_fits:
  assumes "length xs < 2 ^ 62"
  shows "length (b64_loop xs) + 1 \<le> unat (b64_olen (of_nat (length xs)))"
proof -
  from assms have n: "unat (of_nat (length xs) :: u64) = length xs"
    by (simp add: unat_of_nat)
  from assms have m: "(4 * length xs) mod 2 ^ 64 = 4 * length xs" by simp
  show ?thesis unfolding unat_b64_olen n m length_b64_loop by linarith
qed

lemma b64_encode_small: "length xs < 2 ^ 62 \<Longrightarrow> b64_encode xs = Some (b64_loop xs)"
  using b64_olen_overflow_iff [of "of_nat (length xs)"]
  by (simp add: b64_encode_def Let_def unat_of_nat)

lemma b64_encode_None_iff:
  "length xs < 2 ^ 64 \<Longrightarrow> b64_encode xs = None \<longleftrightarrow> 2 ^ 62 \<le> length xs"
  using b64_olen_overflow_iff [of "of_nat (length xs)"]
  by (simp add: b64_encode_def Let_def unat_of_nat)

section \<open>Decoder\<close>

text \<open>What the loop computes, apart from its buffer.\<close>

fun dec_list :: "string \<Rightarrow> u8 list \<Rightarrow> nat \<Rightarrow> u8 list \<Rightarrow> u8 list option" where
  "dec_list [] block pad out = Some out"
| "dec_list (c # cs) block pad out =
     (let tmp = dlookup c in
      if tmp = 0x80 then dec_list cs block pad out
      else
        let pad = (if c = CHR ''='' then pad + 1 else pad);
            block = block @ [tmp]
        in if length block = 4 then
             (let out = out @ block_bytes block in
              if pad = 0 then dec_list cs [] pad out
              else if pad = 1 then Some (take (length out - 1) out)
              else if pad = 2 then Some (take (length out - 2) out)
              else None)
           else dec_list cs block pad out)"

lemma push_bytes_fit: "length out + length vs \<le> olen \<Longrightarrow> push_bytes olen out vs = Inr (out @ vs)"
  by (induction vs arbitrary: out) (simp_all add: push_byte_def)

lemma length_block_bytes [simp]: "length (block_bytes b) = 3"
  by (simp add: block_bytes_def)

text \<open>The number of symbols decides how many blocks are written.\<close>

lemma dec_loop_fits:
  "length block < 4 \<Longrightarrow> length out + 3 * ((length block + sym_count cs) div 4) \<le> olen \<Longrightarrow>
    dec_loop olen cs block pad out = Inr (dec_list cs block pad out)"
proof (induction cs arbitrary: block pad out)
  case (Cons c cs)
  consider (skip) "dlookup c = 0x80" | (part) "dlookup c \<noteq> 0x80" "length block < 3"
    | (full) "dlookup c \<noteq> 0x80" "length block = 3"
    using Cons.prems(1) by linarith
  then show ?case
  proof cases
    case full
    then have "length block + sym_count (c # cs) = 4 + sym_count cs" by (simp add: sym_count_def)
    then have "(length block + sym_count (c # cs)) div 4 = 1 + sym_count cs div 4" by presburger
    with Cons.prems(2) have "length out + 3 + 3 * (sym_count cs div 4) \<le> olen" by simp
    with full Cons.IH [of "[]"] show ?thesis by (simp add: Let_def push_bytes_fit)
  qed (use Cons in \<open>simp_all add: Let_def sym_count_def\<close>)
qed simp

lemma b64_decode_eq:
  "b64_decode src =
     Inr (if sym_count src = 0 \<or> sym_count src mod 4 \<noteq> 0 then None else dec_list src [] 0 [])"
  by (simp add: b64_decode_def Let_def dec_loop_fits)

lemma sextet_not_hole [simp]: "unat x < 64 \<Longrightarrow> x \<noteq> (0x80 :: u8)"
  by auto

lemma sextet_bounds_top [simp]: "unat (drop_bit 2 a :: u8) < 64"
  by (rule sextet_bounds)

lemma dec_list_b64_loop: "dec_list (b64_loop xs) [] 0 out = Some (out @ xs)"
proof (induction xs arbitrary: out rule: b64_loop.induct)
  case (1 a b c rest)
  then show ?case by (simp add: Let_def block_bytes_sextets)
next
  case (2 a)
  show ?case by (simp add: Let_def block_bytes_sextets)
next
  case (3 a b)
  have "take 2 (block_bytes [drop_bit 2 a, sext2 a b, sext3 b 0, 0]) = [a, b]"
    by (rule block_bytes_sextets)
  moreover have "length (block_bytes [drop_bit 2 a, sext2 a b, sext3 b 0, 0]) = 3"
    by (simp add: block_bytes_def)
  ultimately show ?case by (simp add: Let_def)
next
  case 4
  then show ?case by simp
qed

lemma sym_count_b64_loop: "sym_count (b64_loop xs) = length (b64_loop xs)"
  unfolding sym_count_def
  by (induction xs rule: b64_loop.induct) simp_all

lemma b64_decode_loop: "xs \<noteq> [] \<Longrightarrow> b64_decode (b64_loop xs) = Inr (Some xs)"
  by (cases xs) (auto simp: b64_decode_eq Let_def sym_count_b64_loop length_b64_loop dec_list_b64_loop)

lemma b64_loop_inject [simp]: "b64_loop xs = b64_loop ys \<longleftrightarrow> xs = ys"
  by (metis append_Nil dec_list_b64_loop option.inject)

text \<open>Bytes outside the alphabet (line feeds, for instance) are skipped.\<close>

lemma dec_list_skips:
  "dec_list (filter (\<lambda>c. dlookup c \<noteq> 0x80) cs) block pad out = dec_list cs block pad out"
  by (induction cs arbitrary: block pad out) (simp_all add: Let_def)

lemma b64_decode_skips: "b64_decode (filter (\<lambda>c. dlookup c \<noteq> 0x80) cs) = b64_decode cs"
  by (simp add: b64_decode_eq sym_count_def dec_list_skips)

text \<open>What is returned is not longer than what the symbols can hold.\<close>

lemma dec_list_bound:
  "dec_list cs block pad out = Some ys \<Longrightarrow> length block < 4 \<Longrightarrow>
   length ys \<le> length out + 3 * ((length block + sym_count cs) div 4)"
proof (induction cs arbitrary: block pad out)
  case Nil
  then show ?case by simp
next
  case (Cons c cs)
  define pad' where "pad' = (if c = CHR ''='' then pad + 1 else pad)"
  consider (skip) "dlookup c = 0x80"
    | (part) "dlookup c \<noteq> 0x80" "length block < 3"
    | (full) "dlookup c \<noteq> 0x80" "length block = 3"
    using Cons.prems(2) by linarith
  then show ?case
  proof cases
    case skip
    with Cons show ?thesis by (simp add: sym_count_def)
  next
    case part
    then have "dec_list cs (block @ [dlookup c]) pad' out = Some ys"
      using Cons.prems(1) by (simp add: Let_def pad'_def)
    from Cons.IH [OF this] part show ?thesis by (simp add: sym_count_def)
  next
    case full
    let ?out = "out @ block_bytes (block @ [dlookup c])"
    from full Cons.prems(1) have
      "dec_list cs [] pad' ?out = Some ys \<or> length ys \<le> length out + 3"
      by (auto simp: Let_def pad'_def split: if_splits)
    moreover have blk: "(length block + sym_count (c # cs)) div 4 = 1 + sym_count cs div 4"
    proof -
      have "length block + sym_count (c # cs) = 4 + sym_count cs"
        using full by (simp add: sym_count_def)
      then show ?thesis by presburger
    qed
    ultimately consider "dec_list cs [] pad' ?out = Some ys" | "length ys \<le> length out + 3" by blast
    then show ?thesis
    proof cases
      case 1
      with Cons.IH [OF 1] blk show ?thesis by simp
    next
      case 2
      with blk show ?thesis by simp
    qed
  qed
qed

section \<open>Properties\<close>

text \<open>C17: decoding an encoded buffer gives the buffer back, for every non-empty buffer that the
  encoder accepts.\<close>

theorem b64_round_trip:
  assumes "b64_encode xs = Some s" "xs \<noteq> []"
  shows "b64_decode s = Inr (Some xs)"
  using assms b64_decode_loop [of xs] by (simp add: b64_encode_def Let_def split: if_splits)

theorem b64_round_trip_witness:
  "b64_encode [0x4d, 0xff, 0, 7] = Some ''Tf8ABw=='' \<and> b64_decode ''Tf8ABw=='' = Inr (Some [0x4d, 0xff, 0, 7])"
proof -
  have e: "b64_encode [0x4d, 0xff, 0, 7] = Some ''Tf8ABw==''" by code_simp
  from b64_round_trip [OF e] e show ?thesis by simp
qed

text \<open>C18: for a length that fits \<open>size_t\<close>, the encoder fails exactly when its size computation
  wraps around, which is from \<open>2 ^ 62\<close> bytes on; otherwise the text and its terminator fit
  the buffer, and the text has four symbols for every three bytes, the last group padded. It is
  free of NULs, quotes and backslashes, so it can stand in an SQL constant.\<close>

theorem b64_encode_bounds:
  assumes "length xs < 2 ^ 64"
  shows "case b64_encode xs of
      None \<Rightarrow> 2 ^ 62 \<le> length xs
    | Some s \<Rightarrow> length xs < 2 ^ 62 \<and> length s = 4 * ((length xs + 2) div 3) \<and>
        length s + 1 \<le> unat (b64_olen (of_nat (length xs))) \<and>
        NUL \<notin> set s \<and> CHR 0x27 \<notin> set s \<and> CHR 0x5C \<notin> set s"
proof (cases "length xs < 2 ^ 62")
  case True
  then have "b64_encode xs = Some (b64_loop xs)" by (rule b64_encode_small)
  with True b64_buffer_fits [OF True] b64_loop_safe [of xs] length_b64_loop [of xs] show ?thesis
    by (simp add: cstr_def)
next
  case False
  with b64_encode_None_iff [OF assms] have "b64_encode xs = None" by simp
  with False show ?thesis by simp
qed

theorem b64_encode_bounds_witness:
  "length [1, 2, 3, 4 :: u8] < 2 ^ 64 \<and> (case b64_encode [1, 2, 3, 4] of
      None \<Rightarrow> False | Some s \<Rightarrow> length s = 8 \<and> length s + 1 \<le> unat (b64_olen 4))"
  using b64_encode_bounds [of "[1, 2, 3, 4]"] by (simp split: option.splits)

text \<open>C19: whatever the input, the decoder writes only inside the buffer of \<open>count / 4 * 3\<close> bytes that it allocates,
  where \<open>count\<close> is the number of its symbols, also when it removes padding or gives up in the end; a result
  means that the symbols form whole blocks and is at most as long as the buffer.\<close>

theorem b64_decode_in_bounds:
  "case b64_decode src of
     Inl e \<Rightarrow> False
   | Inr None \<Rightarrow> True
   | Inr (Some out) \<Rightarrow> 0 < sym_count src \<and> sym_count src mod 4 = 0 \<and> length out \<le> sym_count src div 4 * 3"
  using dec_list_bound [of src "[]" 0 "[]"] by (auto simp: b64_decode_eq split: option.splits)

end
