(* ===== verification/Strcat.thy ===== *)
theory Strcat
  imports Tt_Prelude
begin

text \<open>
  \<open>strlcat\<close> of \<open>src/backend/src/utils.c\<close>, and the query buffers that the handlers fill with
  it. \<open>strlcat\<close> works on the memory of the destination array; \<open>size\<close> is a \<open>size_t\<close>, so
  the subtraction that computes the room left wraps around. The handlers are written over
  the string that the buffer holds (\<open>strlcat_text\<close>); the refinement lemma says that this
  is what the memory operation does to a terminated buffer of the given size.
\<close>

section \<open>The code\<close>

text \<open>The result is the new memory of \<open>dst\<close> and the returned length.\<close>

definition strlcat :: "char list \<Rightarrow> string \<Rightarrow> u64 \<Rightarrow> (char list \<times> u64) outcome" where
  "strlcat dst src siz =
     and_then (c_read dst) (\<lambda>d.
       let dstlen = length d;
           siz = siz - (of_nat dstlen + 1)
       in if siz = 0 then Inr (dst, of_nat dstlen)
          else
            let srclen = length src;
                srclen = (if of_nat srclen > siz then unat siz else srclen)
            in if dstlen + srclen < length dst then
                 Inr (take dstlen dst @ take srclen src @ [NUL] @ drop (dstlen + srclen + 1) dst,
                      of_nat (dstlen + srclen))
               else Inl Out_of_bounds)"

text \<open>What the buffer then holds, as a string.\<close>

definition strlcat_text :: "nat \<Rightarrow> string \<Rightarrow> string \<Rightarrow> string" where
  "strlcat_text siz d s = d @ take (siz - Suc (length d)) s"

text \<open>A source pointer that may be null: without room for a byte it is not read.\<close>

definition strlcat_ptr :: "nat \<Rightarrow> string \<Rightarrow> string option \<Rightarrow> string outcome" where
  "strlcat_ptr siz d s =
     (if Suc (length d) = siz then Inr d else and_then (deref s) (\<lambda>s. Inr (strlcat_text siz d s)))"

definition text_or_empty :: "string option \<Rightarrow> string" where
  "text_or_empty s = (case s of None \<Rightarrow> [] | Some s \<Rightarrow> s)"

lemma text_or_empty_simps [simp]: "text_or_empty None = []" "text_or_empty (Some s) = s"
  by (simp_all add: text_or_empty_def)

lemma strlcat_ptr_eq:
  "strlcat_ptr siz d s =
     (if s = None \<and> Suc (length d) \<noteq> siz then Inl Null_deref else Inr (strlcat_text siz d (text_or_empty s)))"
  by (cases s) (auto simp: strlcat_ptr_def strlcat_text_def)

lemma strlcat_ptr_Some [simp]: "strlcat_ptr siz d (Some s) = Inr (strlcat_text siz d s)"
  by (simp add: strlcat_ptr_eq)

section \<open>Refinement\<close>

text \<open>C20: on a terminated buffer of the stated size, \<open>strlcat\<close> never leaves the buffer, keeps it
  terminated, and appends as much of the source as fits; the returned length is that of the
  new text.\<close>

theorem strlcat_refines:
  assumes siz: "length dst = unat siz" and d: "c_str dst = Some d"
    and src: "cstr src" "length src < 2 ^ 64"
  shows "\<exists>dst' n. strlcat dst src siz = Inr (dst', n) \<and>
    length dst' = length dst \<and>
    c_str dst' = Some (strlcat_text (unat siz) d src) \<and>
    unat n = length (strlcat_text (unat siz) d src)"
proof -
  obtain t where dst: "dst = d @ NUL # t" and "cstr d" and len: "length d < unat siz"
    using c_str_SomeD [OF d] siz by auto
  have bound: "unat siz < 2 ^ 64" using unsigned_less [of siz] by simp
  define k where "k = unat siz - Suc (length d)"
  have room: "unat (siz - (of_nat (length d) + 1)) = k"
  proof -
    have "unat (of_nat (length d) + 1 :: u64) = Suc (length d)"
      using len bound by (simp add: unat_of_nat unat_word_ariths)
    moreover have "(of_nat (length d) + 1 :: u64) \<le> siz"
      using calculation len by (simp add: word_le_nat_alt)
    ultimately show ?thesis by (simp add: unat_sub k_def)
  qed
  then have zero: "siz - (of_nat (length d) + 1) = 0 \<longleftrightarrow> k = 0"
    by (metis unat_0 unat_eq_zero)
  have gt: "of_nat (length src) > siz - (of_nat (length d) + 1) \<longleftrightarrow> length src > k"
    using src(2) room by (simp add: word_less_nat_alt unat_of_nat)
  show ?thesis
  proof (cases "k = 0")
    case True
    then show ?thesis
      using d len bound zero
      by (simp add: strlcat_def c_read_def strlcat_text_def k_def unat_of_nat)
  next
    case False
    define m where "m = min (length src) k"
    have m: "(if of_nat (length src) > siz - (of_nat (length d) + 1)
        then unat (siz - (of_nat (length d) + 1)) else length src) = m"
      unfolding gt room m_def by auto
    have fits: "length d + m < length dst"
      using len False by (simp add: m_def k_def siz)
    have held: "strlcat_text (unat siz) d src = d @ take m src"
      by (simp add: strlcat_text_def m_def k_def min_def)
    have "strlcat dst src siz =
        Inr (d @ take m src @ [NUL] @ drop (length d + m + 1) dst, of_nat (length d + m))"
      using d zero False m fits dst by (simp add: strlcat_def c_read_def Let_def)
    moreover have "cstr (d @ take m src)"
      using \<open>cstr d\<close> src by auto
    moreover have "unat (of_nat (length d + m) :: u64) = length d + m"
      using fits siz bound by (subst unat_of_nat) simp
    ultimately show ?thesis
      using held fits
      by (auto simp: m_def simp flip: append_assoc simp del: of_nat_add)
  qed
qed

theorem strlcat_refines_witness:
  "\<exists>dst' n. strlcat (''ab'' @ [NUL] @ ''xx'') ''cdef'' 5 = Inr (dst', n) \<and>
     length dst' = length ''abxxx'' \<and> c_str dst' = Some ''abcd'' \<and> unat n = length ''abcd''"
proof -
  have d: "c_str (''ab'' @ [NUL] @ ''xx'') = Some ''ab''" by (simp add: c_str_def)
  have hyps: "length (''ab'' @ [NUL] @ ''xx'') = unat (5 :: u64)" "cstr ''cdef''" "length ''cdef'' < 2 ^ 64"
    by simp_all
  have "strlcat_text (unat (5 :: u64)) ''ab'' ''cdef'' = ''abcd''" by (simp add: strlcat_text_def)
  with strlcat_refines [OF hyps(1) d hyps(2,3)] show ?thesis by simp
qed

section \<open>Query buffers\<close>

text \<open>
  The contract a bounded string buffer offers to the code that fills it piece by piece:
  an append keeps a prefix of the concatenation, cut at one byte below the capacity. The
  handlers of \<open>edit_me\<close> and \<open>request_contract\<close> are the clients.
\<close>

locale query_buffer =
  fixes app :: "string \<Rightarrow> string \<Rightarrow> string" and cap :: nat
  assumes cap_pos: "0 < cap"
    and app_prefix: "length q < cap \<Longrightarrow> app q s = take (cap - 1) (q @ s)"
begin

lemma app_bounded: "length q < cap \<Longrightarrow> length (app q s) < cap"
  using cap_pos by (simp add: app_prefix)

lemma app_fits: "length q + length s < cap \<Longrightarrow> app q s = q @ s"
  by (simp add: app_prefix)

lemma fill_prefix:
  "length q < cap \<Longrightarrow> foldl app q ss = take (cap - 1) (q @ concat ss)"
proof (induction ss arbitrary: q)
  case Nil
  then show ?case by simp
next
  case (Cons s ss)
  from Cons.prems have "length (app q s) < cap" by (rule app_bounded)
  then have "foldl app q (s # ss) = take (cap - 1) (app q s @ concat ss)"
    using Cons.IH by (simp only: foldl_Cons)
  also have "\<dots> = take (cap - 1) (take (cap - 1) (q @ s) @ concat ss)"
    using Cons.prems by (simp add: app_prefix)
  also have "\<dots> = take (cap - 1) (q @ s @ concat ss)"
    using Cons.prems by (cases "length (q @ s) \<le> cap - 1") (auto simp: min_def)
  finally show ?case by simp
qed

lemma fill_bounded: "length q < cap \<Longrightarrow> length (foldl app q ss) < cap"
  using cap_pos by (simp add: fill_prefix)

lemma fill_exact:
  "length q + length (concat ss) < cap \<Longrightarrow> foldl app q ss = q @ concat ss"
  by (simp add: fill_prefix)

lemma fill_cstr: "length q < cap \<Longrightarrow> cstr (q @ concat ss) \<Longrightarrow> cstr (foldl app q ss)"
  by (simp only: fill_prefix cstr_take)

end

lemma strlcat_text_prefix:
  "length d < n \<Longrightarrow> strlcat_text n d s = take (n - 1) (d @ s)"
  by (simp add: strlcat_text_def)

text \<open>The two buffer sizes of the program: 16384 in \<open>edit_me\<close>, 2097152 in
  \<open>request_contract\<close>.\<close>

interpretation edit_buf: query_buffer "strlcat_text 16384" 16384
  by unfold_locales (simp_all add: strlcat_text_prefix)

interpretation contract_buf: query_buffer "strlcat_text 2097152" 2097152
  by unfold_locales (simp_all add: strlcat_text_prefix)

end
