(* ===== verification/Backend_Env.thy ===== *)
theory Backend_Env
  imports Wire Base64 Strcat
begin

text \<open>
  What the handlers use from outside the repository, as parameters: the PostgreSQL client
  library, the password hash and the random generator of OpenSSL, and the clock. All
  external state (the server, the generator, the clock) is one value of type \<open>'w\<close>. A
  result of a query is a status, the cells in text form (\<open>None\<close> is SQL NULL), an error
  message and the name of a violated constraint. The helpers at the end are the call
  sequences that several handlers share.
\<close>

section \<open>Query results\<close>

datatype exec_status =
    PGRES_EMPTY_QUERY
  | PGRES_COMMAND_OK
  | PGRES_TUPLES_OK
  | PGRES_COPY_OUT
  | PGRES_COPY_IN
  | PGRES_BAD_RESPONSE
  | PGRES_NONFATAL_ERROR
  | PGRES_FATAL_ERROR

record pgresult =
  PQresultStatus :: exec_status
  PQtuples :: "string option list list"
  PQresultErrorMessage :: string
  PQconstraintName :: "string option"

definition PQntuples :: "pgresult \<Rightarrow> nat" where
  "PQntuples res = length (PQtuples res)"

text \<open>\<open>PQgetvalue\<close>: a null pointer outside the result, the empty string for SQL NULL.\<close>

definition PQgetvalue :: "pgresult \<Rightarrow> nat \<Rightarrow> nat \<Rightarrow> string option" where
  "PQgetvalue res i j =
     (if i < length (PQtuples res) \<and> j < length (PQtuples res ! i)
      then Some (case PQtuples res ! i ! j of None \<Rightarrow> [] | Some v \<Rightarrow> v) else None)"

definition PQgetisnull :: "pgresult \<Rightarrow> nat \<Rightarrow> nat \<Rightarrow> bool" where
  "PQgetisnull res i j =
     (if i < length (PQtuples res) \<and> j < length (PQtuples res ! i)
      then PQtuples res ! i ! j = None else True)"

section \<open>The environment\<close>

record 'w env =
  e_exec :: "'w \<Rightarrow> string \<Rightarrow> 'w \<times> pgresult"
  e_execParams :: "'w \<Rightarrow> string \<Rightarrow> string list \<Rightarrow> 'w \<times> pgresult"
  e_escapeLiteral :: "'w \<Rightarrow> string \<Rightarrow> nat \<Rightarrow> string option"
  e_escapeBytea :: "'w \<Rightarrow> u8 list \<Rightarrow> string option"
  e_unescapeBytea :: "string \<Rightarrow> u8 list option"
  e_pbkdf2 :: "string \<Rightarrow> string \<Rightarrow> nat \<Rightarrow> nat \<Rightarrow> u8 list option"
  e_rand :: "'w \<Rightarrow> nat \<Rightarrow> 'w \<times> u8 list option"
  e_time :: "'w \<Rightarrow> u64"

text \<open>Documented sizes: the hash and the random bytes have the length asked for.\<close>

definition crypto_sizes :: "'w env \<Rightarrow> bool" where
  "crypto_sizes E \<longleftrightarrow>
     (\<forall>p s c n h. e_pbkdf2 E p s c n = Some h \<longrightarrow> length h = n) \<and>
     (\<forall>w n w' h. e_rand E w n = (w', Some h) \<longrightarrow> length h = n)"

section \<open>Shared call sequences\<close>

text \<open>The password hash buffer is \<open>calloc\<close>ed and the return value of
  \<open>PKCS5_PBKDF2_HMAC_SHA1\<close> is not looked at; the same holds for \<open>RAND_bytes\<close>.\<close>

definition password_hash :: "'w env \<Rightarrow> string \<Rightarrow> string \<Rightarrow> u8 list" where
  "password_hash E salt password =
     (case e_pbkdf2 E password salt 1024 64 of Some h \<Rightarrow> h | None \<Rightarrow> replicate 64 0)"

definition access_token :: "'w env \<Rightarrow> 'w \<Rightarrow> 'w \<times> u8 list" where
  "access_token E w =
     (case e_rand E w 32 of (w', Some b) \<Rightarrow> (w', b) | (w', None) \<Rightarrow> (w', replicate 32 0))"

lemma length_password_hash [simp]: "crypto_sizes E \<Longrightarrow> length (password_hash E salt p) = 64"
  by (auto simp: password_hash_def crypto_sizes_def split: option.splits)

lemma length_access_token [simp]:
  "crypto_sizes E \<Longrightarrow> length (snd (access_token E w)) = 32"
  by (auto simp: access_token_def crypto_sizes_def split: option.splits prod.splits)

text \<open>The encoded forms; the encoder cannot fail on buffers of these sizes.\<close>

definition encoded :: "u8 list \<Rightarrow> string outcome" where
  "encoded b = deref (b64_encode b)"

lemma encoded_small [simp]: "length b < 2 ^ 62 \<Longrightarrow> encoded b = Inr (b64_loop b)"
  by (simp add: encoded_def b64_encode_small)

lemma length_encoded_hash: "crypto_sizes E \<Longrightarrow> length (b64_loop (password_hash E salt p)) = 88"
  by (simp add: length_b64_loop)

lemma length_encoded_token:
  "crypto_sizes E \<Longrightarrow> length (b64_loop (snd (access_token E w))) = 44"
  by (simp add: length_b64_loop)

end
