(* ===== verification/Accounts.thy ===== *)
theory Accounts
  imports Backend_Env
begin

text \<open>
  The four account handlers: \<open>login.c\<close>, \<open>register.c\<close>, \<open>get_me.c\<close> and \<open>edit_me.c\<close> under
  \<open>src/backend/src/api\<close>. A handler takes the environment, the salt, the external state and
  the request, and returns the new external state and the response that it hands to the
  builder, or the undefined behaviour it runs into. Its heap blocks are the subject of
  \<open>Memory\<close>.
\<close>

abbreviation nl :: string where "nl \<equiv> [CHR 0x0A]"
abbreviation tab :: string where "tab \<equiv> [CHR 0x09]"
abbreviation sq :: string where "sq \<equiv> [CHR 0x27]"

section \<open>login\<close>

definition login_statement :: "string \<Rightarrow> string \<Rightarrow> string" where
  "login_statement username pwd_hash_encoded =
     ''SELECT token FROM users WHERE (username='' @ sq @ username @ sq @
     '' AND password='' @ sq @ pwd_hash_encoded @ sq @ '')''"

text \<open>The 8192-byte buffer.\<close>

definition login_query :: "string \<Rightarrow> string \<Rightarrow> string" where
  "login_query username pwd_hash_encoded = snprintf_text 8192 (login_statement username pwd_hash_encoded)"

definition login :: "'w env \<Rightarrow> string \<Rightarrow> 'w \<Rightarrow> login_req \<Rightarrow> ('w \<times> response) outcome" where
  "login E salt w r =
     and_then (encoded (password_hash E salt (lg_password r))) (\<lambda>pwd_hash_encoded.
       let query = login_query (lg_username r) pwd_hash_encoded
       in case e_exec E w query of (w, res) \<Rightarrow>
         if PQresultStatus res \<noteq> PGRES_TUPLES_OK then Inr (w, error_response ''Failed'')
         else if PQntuples res \<le> 0 then Inr (w, error_response ''Wrong username or password'')
         else and_then (deref (PQgetvalue res 0 0)) (\<lambda>token.
           Inr (w, ok_response (Res_Login token))))"

section \<open>register\<close>

definition SQL_register :: string where
  "SQL_register =
     ''INSERT INTO users (username, password, firstname, lastname, token)'' @ nl @
     ''VALUES ($1, $2, $3, $4, $5)''"

definition register :: "'w env \<Rightarrow> string \<Rightarrow> 'w \<Rightarrow> register_req \<Rightarrow> ('w \<times> response) outcome" where
  "register E salt w r =
     (case access_token E w of (w, tok) \<Rightarrow>
      and_then (encoded tok) (\<lambda>token_encoded.
      and_then (encoded (password_hash E salt (rg_password r))) (\<lambda>pwd_hash_encoded.
      let params = [rg_username r, pwd_hash_encoded, rg_firstName r, rg_lastName r, token_encoded]
      in case e_execParams E w SQL_register params of (w, res) \<Rightarrow>
         if PQresultStatus res \<noteq> PGRES_COMMAND_OK then
           Inr (w, error_response (if PQconstraintName res \<noteq> None then ''User already exists''
                                   else PQresultErrorMessage res))
         else Inr (w, ok_response (Res_Register token_encoded)))))"

section \<open>get_me\<close>

definition SQL_get_me :: string where
  "SQL_get_me = ''SELECT username, password, firstname, lastname, admin FROM users WHERE (token=$1)''"

text \<open>The first character of a C string.\<close>

definition first_char :: "string \<Rightarrow> char" where
  "first_char s = (case s of [] \<Rightarrow> NUL | c # _ \<Rightarrow> c)"

definition get_me :: "'w env \<Rightarrow> 'w \<Rightarrow> get_me_req \<Rightarrow> ('w \<times> response) outcome" where
  "get_me E w r =
     (case e_execParams E w SQL_get_me [gm_token r] of (w, res) \<Rightarrow>
        if PQresultStatus res \<noteq> PGRES_TUPLES_OK then
          Inr (w, error_response (PQresultErrorMessage res))
        else if PQntuples res \<le> 0 then Inr (w, error_response ''Invalid token'')
        else
          and_then (deref (PQgetvalue res 0 0)) (\<lambda>username.
          and_then (deref (PQgetvalue res 0 1)) (\<lambda>password.
          and_then (deref (PQgetvalue res 0 2)) (\<lambda>firstname.
          and_then (deref (PQgetvalue res 0 3)) (\<lambda>lastname.
          and_then (deref (PQgetvalue res 0 4)) (\<lambda>admin.
            Inr (w, ok_response (Res_GetMe
              \<lparr>mi_username = username, mi_password = password, mi_firstName = firstname,
               mi_lastName = lastname, mi_admin = (first_char admin \<noteq> CHR ''f'')\<rparr>))))))))"

section \<open>edit_me\<close>

text \<open>One optional column: an escaped literal appended after its prefix.\<close>

definition edit_field ::
  "'w env \<Rightarrow> 'w \<Rightarrow> string \<Rightarrow> nat \<Rightarrow> string option \<Rightarrow> string \<Rightarrow> string outcome" where
  "edit_field E w prefix n field query =
     (case field of
        None \<Rightarrow> Inr query
      | Some v \<Rightarrow> and_then (deref (e_escapeLiteral E w v n)) (\<lambda>lit.
          Inr (strlcat_text 16384 (strlcat_text 16384 query prefix) lit)))"

text \<open>The password column holds the encoded hash.\<close>

definition edit_password ::
  "'w env \<Rightarrow> string \<Rightarrow> 'w \<Rightarrow> string option \<Rightarrow> string \<Rightarrow> string outcome" where
  "edit_password E salt w password query =
     (case password of
        None \<Rightarrow> Inr query
      | Some p \<Rightarrow> and_then (encoded (password_hash E salt p)) (\<lambda>h.
          edit_field E w '', password = '' 128 (Some h) query))"

text \<open>The new token: a fresh one, also written to the row, or a copy of the old one in a
  32-byte array. The third component is the memory of \<open>new_token\<close>.\<close>

definition edit_token ::
  "'w env \<Rightarrow> bool \<Rightarrow> string \<Rightarrow> 'w \<Rightarrow> string \<Rightarrow> ('w \<times> string \<times> char list) outcome" where
  "edit_token E regenerate_token token w query =
     (if regenerate_token then
        (case access_token E w of (w, tok) \<Rightarrow>
         and_then (encoded tok) (\<lambda>new_token.
         and_then (edit_field E w '', token = '' 128 (Some new_token) query) (\<lambda>query.
           Inr (w, query, new_token @ [NUL]))))
      else Inr (w, query, strncpy (calloc 32) token 32))"

definition edit_me :: "'w env \<Rightarrow> string \<Rightarrow> 'w \<Rightarrow> edit_me_req \<Rightarrow> ('w \<times> response) outcome" where
  "edit_me E salt w r =
     (let query = strlcat_text 16384 ''UPDATE users SET admin = ''
                    (if em_admin r then ''TRUE'' else ''FALSE'');
          regenerate_token = (em_username r \<noteq> None \<or> em_password r \<noteq> None)
      in and_then (edit_field E w '', username = '' 64 (em_username r) query) (\<lambda>query.
         and_then (edit_password E salt w (em_password r) query) (\<lambda>query.
         and_then (edit_field E w '', firstname = '' 32 (em_firstName r) query) (\<lambda>query.
         and_then (edit_field E w '', lastname = '' 32 (em_lastName r) query) (\<lambda>query.
         and_then (edit_token E regenerate_token (em_token r) w query) (\<lambda>(w, query, new_token).
         and_then (edit_field E w '' WHERE token = '' 128 (Some (em_token r)) query) (\<lambda>query.
         case e_exec E w query of (w, res) \<Rightarrow>
           if PQresultStatus res \<noteq> PGRES_COMMAND_OK then
             Inr (w, error_response
               (if PQconstraintName res \<noteq> None then ''User with that username already exists''
                else PQresultErrorMessage res))
           else and_then (c_read new_token) (\<lambda>token.
             Inr (w, ok_response (Res_EditMe token))))))))))"

end
