(* ===== verification/Contracts.thy ===== *)
theory Contracts
  imports Accounts
begin

text \<open>
  The three contract handlers: \<open>request_contract.c\<close>, \<open>list_contracts.c\<close> and
  \<open>check_contract.c\<close> under \<open>src/backend/src/api\<close>, in the same style as the account
  handlers.
\<close>

section \<open>Reading one contract row\<close>

text \<open>The ten columns that \<open>list_contracts\<close> and \<open>check_contract\<close> select, read into a
  \<open>CheckContract\<close> table. A failing \<open>PQunescapeBytea\<close> leaves a null pointer and length 0.\<close>

definition contract_of_row :: "'w env \<Rightarrow> pgresult \<Rightarrow> nat \<Rightarrow> contract_info outcome" where
  "contract_of_row E res i =
     and_then (deref (PQgetvalue res i 0)) (\<lambda>name.
     and_then (if PQgetisnull res i 1 then Inr None
               else and_then (deref (PQgetvalue res i 1)) (\<lambda>d. Inr (Some d))) (\<lambda>description.
     and_then (deref (PQgetvalue res i 2)) (\<lambda>price.
     and_then (if PQgetisnull res i 3 then Inr None
               else and_then (deref (PQgetvalue res i 3)) (\<lambda>attach.
                 Inr (Some (case e_unescapeBytea E attach of None \<Rightarrow> [] | Some b \<Rightarrow> b)))) (\<lambda>attachment.
     and_then (deref (PQgetvalue res i 4)) (\<lambda>status.
     and_then (deref (PQgetvalue res i 5)) (\<lambda>created_at.
     and_then (deref (PQgetvalue res i 6)) (\<lambda>contract_id.
     and_then (deref (PQgetvalue res i 7)) (\<lambda>username.
     and_then (deref (PQgetvalue res i 8)) (\<lambda>first_name.
     and_then (deref (PQgetvalue res i 9)) (\<lambda>last_name.
       Inr \<lparr>ci_id = word_of_int (atol contract_id), ci_name = name,
            ci_description = description, ci_price = atof price, ci_attachment = attachment,
            ci_status = word_of_int (atol status), ci_created_at = word_of_int (atol created_at),
            ci_by_user = \<lparr>ui_username = username, ui_firstName = first_name,
                          ui_lastName = last_name\<rparr>\<rparr>))))))))))"

section \<open>check_contract\<close>

definition contract_columns :: string where
  "contract_columns =
     ''SELECT name,'' @ nl @ tab @ ''   description,'' @ nl @ tab @ ''   price,'' @ nl @
     tab @ ''   attachment,'' @ nl @ tab @ ''   status,'' @ nl @ tab @ ''   created_at,'' @ nl @
     tab @ ''   contracts.id,'' @ nl @ tab @ ''   u.username,'' @ nl @ tab @ ''   u.firstname,'' @ nl @
     tab @ ''   u.lastname'' @ nl @
     ''FROM contracts'' @ nl @
     tab @ tab @ '' INNER JOIN users u on contracts.\"user\" = u.id'' @ nl"

definition SQL_check_contract :: string where
  "SQL_check_contract = contract_columns @ ''WHERE (contracts.id = $1)''"

definition check_contract ::
  "'w env \<Rightarrow> 'w \<Rightarrow> check_contract_req \<Rightarrow> ('w \<times> response) outcome" where
  "check_contract E w r =
     (let id_str = snprintf_text 32 (show_int (sint (ck_id r)))
      in case e_execParams E w SQL_check_contract [id_str] of (w, res) \<Rightarrow>
        if PQresultStatus res \<noteq> PGRES_TUPLES_OK then
          Inr (w, error_response (PQresultErrorMessage res))
        else if PQntuples res \<le> 0 then Inr (w, error_response ''Invalid id'')
        else and_then (contract_of_row E res 0) (\<lambda>c.
          Inr (w, ok_response (Res_CheckContract c))))"

section \<open>list_contracts\<close>

definition SQL_user_admin :: string where
  "SQL_user_admin = ''SELECT id, admin FROM users WHERE (token=$1)''"

definition SQL_list_all :: string where
  "SQL_list_all = contract_columns @ ''ORDER BY -created_at'' @ nl @ ''LIMIT 50''"

definition SQL_list_own :: string where
  "SQL_list_own =
     contract_columns @ ''WHERE (\"user\" = $1)'' @ nl @ ''ORDER BY -created_at'' @ nl @ ''LIMIT 50''"

text \<open>The loop over the rows.\<close>

fun contracts_of_rows :: "'w env \<Rightarrow> pgresult \<Rightarrow> nat list \<Rightarrow> contract_info list outcome" where
  "contracts_of_rows E res [] = Inr []"
| "contracts_of_rows E res (i # is) =
     and_then (contract_of_row E res i) (\<lambda>c.
     and_then (contracts_of_rows E res is) (\<lambda>cs. Inr (c # cs)))"

text \<open>What follows the first query: the second one depends on the row it found.\<close>

definition list_answer :: "'w env \<Rightarrow> 'w \<times> pgresult \<Rightarrow> ('w \<times> response) outcome" where
  "list_answer E wr =
     (case wr of (w, res) \<Rightarrow>
        if PQresultStatus res \<noteq> PGRES_TUPLES_OK then
          Inr (w, error_response (PQresultErrorMessage res))
        else if PQntuples res \<le> 0 then Inr (w, error_response ''Invalid token'')
        else
          and_then (deref (PQgetvalue res 0 0)) (\<lambda>id0.
          and_then (deref (PQgetvalue res 0 1)) (\<lambda>is_admin.
          and_then
            (if first_char is_admin = CHR ''t'' then Inr (e_exec E w SQL_list_all)
             else and_then (c_read (strncpy (calloc 128) id0 128)) (\<lambda>user_id.
               Inr (e_execParams E w SQL_list_own [user_id]))) (\<lambda>(w, res).
          if PQresultStatus res \<noteq> PGRES_TUPLES_OK then
            Inr (w, error_response (PQresultErrorMessage res))
          else and_then (contracts_of_rows E res [0..<PQntuples res]) (\<lambda>cs.
            Inr (w, ok_response (Res_ListContracts cs)))))))"

definition list_contracts ::
  "'w env \<Rightarrow> 'w \<Rightarrow> list_contracts_req \<Rightarrow> ('w \<times> response) outcome" where
  "list_contracts E w r = list_answer E (e_execParams E w SQL_user_admin [lc_token r])"

section \<open>request_contract\<close>

definition SQL_user_by_token :: string where
  "SQL_user_by_token = ''SELECT id, username, firstname, lastname FROM users WHERE (token=$1)''"

definition SQL_insert_prefix :: string where
  "SQL_insert_prefix =
     ''INSERT INTO contracts (name, description, price, attachment, \"user\", created_at)'' @ nl @
     ''VALUES (''"

abbreviation contract_cat :: "string \<Rightarrow> string \<Rightarrow> string" where
  "contract_cat \<equiv> strlcat_text 2097152"

definition contract_description ::
  "'w env \<Rightarrow> 'w \<Rightarrow> string option \<Rightarrow> string \<Rightarrow> string outcome" where
  "contract_description E w description query =
     (case description of
        Some d \<Rightarrow> strlcat_ptr 2097152 (contract_cat query '', '') (e_escapeLiteral E w d 16384)
      | None \<Rightarrow> Inr (contract_cat query '', NULL''))"

text \<open>The attachment that is really used: absent, empty and oversized vectors all end at the
  label \<open>no_vec\<close>.\<close>

definition used_attachment :: "u8 list option \<Rightarrow> u8 list option" where
  "used_attachment a =
     (case a of None \<Rightarrow> None
      | Some v \<Rightarrow> if length v = 0 then None else if length v > 131072 then None else Some v)"

definition contract_attachment ::
  "'w env \<Rightarrow> 'w \<Rightarrow> u8 list option \<Rightarrow> string \<Rightarrow> string outcome" where
  "contract_attachment E w attachment query =
     (case used_attachment attachment of
        Some v \<Rightarrow> and_then (strlcat_ptr 2097152 (contract_cat query ('', '' @ sq)) (e_escapeBytea E w v)) (\<lambda>query.
          Inr (contract_cat query sq))
      | None \<Rightarrow> Inr (contract_cat query '', NULL''))"

definition price_text :: "double \<Rightarrow> string" where
  "price_text price = snprintf_text 128 (fmt_f price)"

definition time_text :: "u64 \<Rightarrow> string" where
  "time_text t = snprintf_text 64 (show_nat (unat t))"

definition contract_query ::
  "'w env \<Rightarrow> 'w \<Rightarrow> request_contract_req \<Rightarrow> string \<Rightarrow> u64 \<Rightarrow> string outcome" where
  "contract_query E w r user_id created_time =
     (let query = contract_cat (contract_cat (contract_cat SQL_insert_prefix sq) (rc_name r)) sq
      in and_then (contract_description E w (rc_description r) query) (\<lambda>query.
         let query = contract_cat (contract_cat query '', '') (price_text (rc_price r)) in
         and_then (contract_attachment E w (rc_attachment r) query) (\<lambda>query.
         let query = contract_cat (contract_cat query '', '') user_id;
             query = contract_cat (contract_cat query '', '') (time_text created_time)
         in Inr (contract_cat query '') RETURNING id''))))"

text \<open>The answer to the result of the \<open>INSERT\<close>; the three arrays hold the names of the user.\<close>

definition contract_reply ::
  "request_contract_req \<Rightarrow> char list \<Rightarrow> char list \<Rightarrow> char list \<Rightarrow> u64 \<Rightarrow> 'w \<times> pgresult \<Rightarrow>
   ('w \<times> response) outcome" where
  "contract_reply r username first_name last_name created_time wr =
     (case wr of (w, res) \<Rightarrow>
        if PQresultStatus res \<noteq> PGRES_TUPLES_OK then
          Inr (w, error_response (PQresultErrorMessage res))
        else
          and_then (deref (PQgetvalue res 0 0)) (\<lambda>new_id.
          and_then (c_read username) (\<lambda>u.
          and_then (c_read first_name) (\<lambda>f.
          and_then (c_read last_name) (\<lambda>l.
          Inr (w, ok_response (Res_RequestContract
            \<lparr>ci_id = word_of_int (atol new_id), ci_name = rc_name r,
             ci_description = rc_description r, ci_price = rc_price r,
             ci_attachment = used_attachment (rc_attachment r),
             ci_status = status_Processing, ci_created_at = created_time,
             ci_by_user = \<lparr>ui_username = u, ui_firstName = f, ui_lastName = l\<rparr>\<rparr>)))))))"

text \<open>What follows the first query.\<close>

definition contract_insert ::
  "'w env \<Rightarrow> request_contract_req \<Rightarrow> 'w \<times> pgresult \<Rightarrow> ('w \<times> response) outcome" where
  "contract_insert E r wr =
     (case wr of (w, res) \<Rightarrow>
        if PQresultStatus res \<noteq> PGRES_TUPLES_OK then
          Inr (w, error_response (PQresultErrorMessage res))
        else if PQntuples res \<le> 0 then Inr (w, error_response ''Invalid token'')
        else
          and_then (deref (PQgetvalue res 0 0)) (\<lambda>user_id.
          and_then (deref (PQgetvalue res 0 1)) (\<lambda>col1.
          and_then (deref (PQgetvalue res 0 2)) (\<lambda>col2.
          and_then (deref (PQgetvalue res 0 3)) (\<lambda>col3.
          let username = strncpy (calloc 64) col1 64;
              first_name = strncpy (calloc 32) col2 32;
              last_name = strncpy (calloc 32) col3 32
          in if is_negative (rc_price r) then
               Inr (w, error_response ''Price should not be negative'')
             else
               let created_time = e_time E w in
               and_then (contract_query E w r user_id created_time) (\<lambda>query.
               contract_reply r username first_name last_name created_time (e_exec E w query))
          )))))"

definition request_contract ::
  "'w env \<Rightarrow> 'w \<Rightarrow> request_contract_req \<Rightarrow> ('w \<times> response) outcome" where
  "request_contract E w r = contract_insert E r (e_execParams E w SQL_user_by_token [rc_token r])"

end
