(* ===== verification/Database.thy ===== *)
theory Database
  imports Contracts "HOL-Library.Multiset"
begin

text \<open>
  The database of the program: the two tables that \<open>main\<close> creates
  (\<open>src/backend/src/main.c\<close>), their constraints, and the meaning of the SQL statements that
  the handlers send, as functions on the tables. The lemmas show that these functions keep
  the constraints.
\<close>

section \<open>Tables and constraints\<close>

record user_row =
  ur_id :: nat
  ur_username :: string
  ur_password :: string
  ur_firstname :: string
  ur_lastname :: string
  ur_admin :: bool
  ur_token :: string

record contract_row =
  cr_id :: nat
  cr_name :: string
  cr_description :: "string option"
  cr_price :: string \<comment> \<open>in the server's text form\<close>
  cr_attachment :: "u8 list option"
  cr_status :: nat
  cr_user :: nat
  cr_created_at :: nat

record tables =
  users :: "user_row list"
  contracts :: "contract_row list"

text \<open>\<open>VARCHAR (n)\<close> counts characters of the UTF-8 text. An assignment of a longer value
  fails, unless all excess characters are spaces, which are cut off.\<close>

definition continuation_byte :: "char \<Rightarrow> bool" where
  "continuation_byte c \<longleftrightarrow> 128 \<le> (of_char c :: nat) \<and> (of_char c :: nat) < 192"

definition char_count :: "string \<Rightarrow> nat" where
  "char_count s = length (filter (\<lambda>c. \<not> continuation_byte c) s)"

definition varchar :: "nat \<Rightarrow> string \<Rightarrow> string option" where
  "varchar n s =
     (if char_count s \<le> n then Some s
      else let k = char_count s - n
           in if drop (length s - k) s = replicate k (CHR '' '') then Some (take (length s - k) s)
              else None)"

text \<open>A stored text has no NUL; a \<open>SERIAL\<close> value is a positive 32-bit integer, a
  \<open>BIGINT\<close> a 64-bit one.\<close>

definition user_row_ok :: "user_row \<Rightarrow> bool" where
  "user_row_ok u \<longleftrightarrow> ur_id u < 2 ^ 31 \<and>
     char_count (ur_username u) \<le> 64 \<and> char_count (ur_password u) \<le> 128 \<and>
     char_count (ur_firstname u) \<le> 32 \<and> char_count (ur_lastname u) \<le> 32 \<and>
     char_count (ur_token u) \<le> 128 \<and>
     cstr (ur_username u) \<and> cstr (ur_password u) \<and> cstr (ur_firstname u) \<and>
     cstr (ur_lastname u) \<and> cstr (ur_token u)"

definition contract_row_ok :: "contract_row \<Rightarrow> bool" where
  "contract_row_ok c \<longleftrightarrow> cr_id c < 2 ^ 31 \<and> cr_status c < 2 ^ 15 \<and> cr_created_at c < 2 ^ 63 \<and>
     char_count (cr_name c) \<le> 64"

definition db_ok :: "tables \<Rightarrow> bool" where
  "db_ok t \<longleftrightarrow>
     distinct (map ur_id (users t)) \<and> distinct (map ur_username (users t)) \<and>
     (\<forall>u \<in> set (users t). user_row_ok u) \<and>
     distinct (map cr_id (contracts t)) \<and>
     (\<forall>c \<in> set (contracts t). contract_row_ok c \<and> cr_user c \<in> ur_id ` set (users t))"

definition empty_tables :: tables where
  "empty_tables = \<lparr>users = [], contracts = []\<rparr>"

section \<open>Queries\<close>

definition bool_text :: "bool \<Rightarrow> string" where
  "bool_text b = (if b then ''t'' else ''f'')"

definition with_token :: "tables \<Rightarrow> string \<Rightarrow> user_row list" where
  "with_token t token = filter (\<lambda>u. ur_token u = token) (users t)"

definition rows_login :: "string \<Rightarrow> string \<Rightarrow> tables \<Rightarrow> string option list list" where
  "rows_login username password t =
     map (\<lambda>u. [Some (ur_token u)])
       (filter (\<lambda>u. ur_username u = username \<and> ur_password u = password) (users t))"

definition rows_get_me :: "string \<Rightarrow> tables \<Rightarrow> string option list list" where
  "rows_get_me token t =
     map (\<lambda>u. [Some (ur_username u), Some (ur_password u), Some (ur_firstname u),
               Some (ur_lastname u), Some (bool_text (ur_admin u))]) (with_token t token)"

definition rows_user_admin :: "string \<Rightarrow> tables \<Rightarrow> string option list list" where
  "rows_user_admin token t =
     map (\<lambda>u. [Some (show_nat (ur_id u)), Some (bool_text (ur_admin u))]) (with_token t token)"

definition rows_user_by_token :: "string \<Rightarrow> tables \<Rightarrow> string option list list" where
  "rows_user_by_token token t =
     map (\<lambda>u. [Some (show_nat (ur_id u)), Some (ur_username u), Some (ur_firstname u),
               Some (ur_lastname u)]) (with_token t token)"

text \<open>\<open>contracts INNER JOIN users u ON contracts."user" = u.id\<close>.\<close>

definition joined :: "tables \<Rightarrow> (contract_row \<times> user_row) list" where
  "joined t = [(c, u). c \<leftarrow> contracts t, u \<leftarrow> users t, cr_user c = ur_id u]"

fun row_contract :: "(u8 list \<Rightarrow> string) \<Rightarrow> contract_row \<times> user_row \<Rightarrow> string option list" where
  "row_contract bytea_text (c, u) =
     [Some (cr_name c), cr_description c, Some (cr_price c), map_option bytea_text (cr_attachment c),
      Some (show_nat (cr_status c)), Some (show_nat (cr_created_at c)), Some (show_nat (cr_id c)),
      Some (ur_username u), Some (ur_firstname u), Some (ur_lastname u)]"

definition joined_by_id :: "int \<Rightarrow> tables \<Rightarrow> (contract_row \<times> user_row) list" where
  "joined_by_id i t = filter (\<lambda>(c, u). int (cr_id c) = i) (joined t)"

definition joined_of_user :: "nat \<Rightarrow> tables \<Rightarrow> (contract_row \<times> user_row) list" where
  "joined_of_user i t = filter (\<lambda>(c, u). cr_user c = i) (joined t)"

text \<open>\<open>ORDER BY -created_at LIMIT 50\<close>: some arrangement of the rows with the newest first,
  cut after 50.\<close>

definition newest_first :: "(contract_row \<times> user_row) list \<Rightarrow> bool" where
  "newest_first ps \<longleftrightarrow> sorted_wrt (\<lambda>p q. cr_created_at (fst p) \<ge> cr_created_at (fst q)) ps"

definition newest_50 ::
  "(contract_row \<times> user_row) list \<Rightarrow> (contract_row \<times> user_row) list \<Rightarrow> bool" where
  "newest_50 ps qs \<longleftrightarrow> (\<exists>rs. mset rs = mset ps \<and> newest_first rs \<and> qs = take 50 rs)"

section \<open>Updates\<close>

definition insert_user ::
  "nat \<Rightarrow> string \<Rightarrow> string \<Rightarrow> string \<Rightarrow> string \<Rightarrow> string \<Rightarrow> tables \<Rightarrow> tables" where
  "insert_user i username password firstname lastname token t =
     t\<lparr>users := users t @ [\<lparr>ur_id = i, ur_username = username, ur_password = password,
        ur_firstname = firstname, ur_lastname = lastname, ur_admin = False, ur_token = token\<rparr>]\<rparr>"

text \<open>One \<open>column = value\<close> of the \<open>UPDATE\<close> that \<open>edit_me\<close> builds.\<close>

definition set_column :: "string \<times> string \<Rightarrow> user_row \<Rightarrow> user_row" where
  "set_column cv u =
     (let v = snd cv in
      if fst cv = ''username'' then u\<lparr>ur_username := v\<rparr>
      else if fst cv = ''password'' then u\<lparr>ur_password := v\<rparr>
      else if fst cv = ''firstname'' then u\<lparr>ur_firstname := v\<rparr>
      else if fst cv = ''lastname'' then u\<lparr>ur_lastname := v\<rparr>
      else if fst cv = ''token'' then u\<lparr>ur_token := v\<rparr>
      else u)"

definition update_user :: "bool \<Rightarrow> (string \<times> string) list \<Rightarrow> user_row \<Rightarrow> user_row" where
  "update_user admin cols u = fold set_column cols (u\<lparr>ur_admin := admin\<rparr>)"

definition update_users ::
  "bool \<Rightarrow> (string \<times> string) list \<Rightarrow> string \<Rightarrow> tables \<Rightarrow> tables" where
  "update_users admin cols token t =
     t\<lparr>users := map (\<lambda>u. if ur_token u = token then update_user admin cols u else u) (users t)\<rparr>"

definition insert_contract ::
  "nat \<Rightarrow> string \<Rightarrow> string option \<Rightarrow> string \<Rightarrow> u8 list option \<Rightarrow> nat \<Rightarrow> nat \<Rightarrow> tables \<Rightarrow> tables" where
  "insert_contract i name description price attachment user created_at t =
     t\<lparr>contracts := contracts t @ [\<lparr>cr_id = i, cr_name = name, cr_description = description,
        cr_price = price, cr_attachment = attachment, cr_status = 1, cr_user = user,
        cr_created_at = created_at\<rparr>]\<rparr>"

section \<open>Preservation of the constraints\<close>

lemma db_ok_empty: "db_ok empty_tables"
  by (simp add: db_ok_def empty_tables_def)

lemma db_ok_insert_user:
  assumes "db_ok t" "i \<notin> ur_id ` set (users t)" "u \<notin> ur_username ` set (users t)"
    "i < 2 ^ 31" "char_count u \<le> 64" "char_count p \<le> 128" "char_count f \<le> 32"
    "char_count l \<le> 32" "char_count tok \<le> 128" "cstr u" "cstr p" "cstr f" "cstr l" "cstr tok"
  shows "db_ok (insert_user i u p f l tok t)"
  using assms by (auto simp: db_ok_def insert_user_def user_row_ok_def)

lemma set_column_id [simp]: "ur_id (set_column cv u) = ur_id u"
  by (simp add: set_column_def Let_def)

lemma update_user_id [simp]: "ur_id (update_user a cols u) = ur_id u"
proof -
  have "ur_id (fold set_column cols u) = ur_id u" for u
    by (induction cols arbitrary: u) auto
  then show ?thesis by (simp add: update_user_def)
qed

lemma update_users_ids: "map ur_id (users (update_users a cols tok t)) = map ur_id (users t)"
  by (simp add: update_users_def)

lemma db_ok_update_users:
  assumes "db_ok t"
    "distinct (map ur_username (users (update_users a cols tok t)))"
    "\<forall>u \<in> set (users (update_users a cols tok t)). user_row_ok u"
  shows "db_ok (update_users a cols tok t)"
proof -
  have "set (map ur_id (users (update_users a cols tok t))) = set (map ur_id (users t))"
    by (simp only: update_users_ids)
  then have "ur_id ` set (users (update_users a cols tok t)) = ur_id ` set (users t)"
    by (simp only: set_map)
  with assms show ?thesis
    by (simp add: db_ok_def update_users_ids) (simp add: update_users_def)
qed

lemma db_ok_insert_contract:
  assumes "db_ok t" "i \<notin> cr_id ` set (contracts t)" "char_count n \<le> 64"
    "user \<in> ur_id ` set (users t)" "i < 2 ^ 31" "ca < 2 ^ 63"
  shows "db_ok (insert_contract i n d p a user ca t)"
  using assms by (auto simp: db_ok_def insert_contract_def contract_row_ok_def)

lemma char_count_append: "char_count (s @ t) = char_count s + char_count t"
  by (simp add: char_count_def)

lemma char_count_spaces: "char_count (replicate k (CHR '' '')) = k"
  by (simp add: char_count_def continuation_byte_def)

lemma varchar_long:
  assumes "varchar n s = Some s'" "\<not> char_count s \<le> n"
  shows "s' @ replicate (char_count s - n) (CHR '' '') = s"
proof -
  define k where "k = char_count s - n"
  have "drop (length s - k) s = replicate k (CHR '' '') \<and> take (length s - k) s = s'"
    using assms unfolding varchar_def Let_def k_def [symmetric] by (simp split: if_splits)
  then show ?thesis unfolding k_def [symmetric] by (metis append_take_drop_id)
qed

lemma char_count_varchar:
  assumes "varchar n s = Some s'"
  shows "char_count s' \<le> n"
proof (cases "char_count s \<le> n")
  case True
  with assms show ?thesis by (simp add: varchar_def)
next
  case False
  have "char_count s = char_count s' + (char_count s - n)"
    using varchar_long [OF assms False] by (metis char_count_append char_count_spaces)
  with False show ?thesis by simp
qed

lemma varchar_short: "char_count s \<le> n \<Longrightarrow> varchar n s = Some s"
  by (simp add: varchar_def)

lemma char_count_le: "char_count s \<le> length s"
  by (simp add: char_count_def)

end
