(* ===== verification/Queries.thy ===== *)
theory Queries
  imports Contracts
begin

text \<open>
  The statements that the handlers are meant to send, as texts without a size limit, and the
  refinement lemmas: the buffers of \<open>edit_me\<close>, \<open>request_contract\<close> and \<open>login\<close> hold exactly
  these texts, or a prefix of them where the buffer is too small. The last section is the
  syntax of an SQL string constant, which separates escaped values from raw ones.
\<close>

section \<open>What the client library promises\<close>

text \<open>Sizes of the hash and of the random bytes; escaped forms are terminated strings of
  bounded length; drawing random bytes does not touch the connection.\<close>

definition client_library :: "'w env \<Rightarrow> bool" where
  "client_library E \<longleftrightarrow> crypto_sizes E \<and>
     (\<forall>w s n l. e_escapeLiteral E w s n = Some l \<longrightarrow> length l \<le> 2 * n + 4) \<and>
     (\<forall>w b l. e_escapeBytea E w b = Some l \<longrightarrow> length l \<le> 5 * length b + 3) \<and>
     (\<forall>w n. e_escapeLiteral E (fst (e_rand E w n)) = e_escapeLiteral E w)"

lemma client_library_facts:
  assumes "client_library E"
  shows "crypto_sizes E"
    "e_escapeLiteral E w s n = Some l \<Longrightarrow> length l \<le> 2 * n + 4"
    "e_escapeBytea E w b = Some l \<Longrightarrow> length l \<le> 5 * length b + 3"
    "e_escapeLiteral E (fst (access_token E w)) = e_escapeLiteral E w"
  using assms unfolding client_library_def access_token_def
  by (auto split: prod.splits option.splits) (metis fst_conv)+

section \<open>The \<open>UPDATE\<close> of edit_me\<close>

definition column_text :: "string \<times> string \<Rightarrow> string" where
  "column_text cl = '', '' @ fst cl @ '' = '' @ snd cl"

definition update_text :: "bool \<Rightarrow> (string \<times> string) list \<Rightarrow> string \<Rightarrow> string" where
  "update_text admin cols token_lit =
     ''UPDATE users SET admin = '' @ (if admin then ''TRUE'' else ''FALSE'') @
     concat (map column_text cols) @ '' WHERE token = '' @ token_lit"

definition opt_column :: "string \<Rightarrow> nat \<Rightarrow> string option \<Rightarrow> (string \<times> string \<times> nat) list" where
  "opt_column c n v = (case v of None \<Rightarrow> [] | Some x \<Rightarrow> [(c, x, n)])"

text \<open>The columns that a request changes besides \<open>admin\<close>: name, value, escape limit.\<close>

definition edit_columns ::
  "'w env \<Rightarrow> string \<Rightarrow> edit_me_req \<Rightarrow> string option \<Rightarrow> (string \<times> string \<times> nat) list" where
  "edit_columns E salt r new_token =
     opt_column ''username'' 64 (em_username r) @
     opt_column ''password'' 128
       (map_option (\<lambda>p. b64_loop (password_hash E salt p)) (em_password r)) @
     opt_column ''firstname'' 32 (em_firstName r) @
     opt_column ''lastname'' 32 (em_lastName r) @
     opt_column ''token'' 128 new_token"

fun literals :: "'w env \<Rightarrow> 'w \<Rightarrow> (string \<times> string \<times> nat) list \<Rightarrow> (string \<times> string) list option" where
  "literals E w [] = Some []"
| "literals E w ((c, v, n) # cs) =
     (case e_escapeLiteral E w v n of
        None \<Rightarrow> None
      | Some l \<Rightarrow> map_option ((#) (c, l)) (literals E w cs))"

lemma literals_append:
  "literals E w (as @ bs) =
     (case literals E w as of
        None \<Rightarrow> None
      | Some x \<Rightarrow> map_option ((@) x) (literals E w bs))"
proof (induction "as")
  case Nil
  show ?case by (cases "literals E w bs") simp_all
next
  case (Cons a "as")
  then show ?case
    by (cases a; cases "literals E w bs") (auto split: option.splits)
qed

definition regenerates :: "edit_me_req \<Rightarrow> bool" where
  "regenerates r \<longleftrightarrow> em_username r \<noteq> None \<or> em_password r \<noteq> None"

definition edit_world :: "'w env \<Rightarrow> 'w \<Rightarrow> edit_me_req \<Rightarrow> 'w" where
  "edit_world E w r = (if regenerates r then fst (access_token E w) else w)"

definition edit_new_token :: "'w env \<Rightarrow> 'w \<Rightarrow> edit_me_req \<Rightarrow> string option" where
  "edit_new_token E w r =
     (if regenerates r then Some (b64_loop (snd (access_token E w))) else None)"

text \<open>The reply to the result of the statement.\<close>

definition edit_reply :: "string option \<Rightarrow> string \<Rightarrow> 'w \<times> pgresult \<Rightarrow> ('w \<times> response) outcome" where
  "edit_reply new_token old_token wr =
     (if PQresultStatus (snd wr) \<noteq> PGRES_COMMAND_OK then
        Inr (fst wr, error_response
          (if PQconstraintName (snd wr) \<noteq> None then ''User with that username already exists''
           else PQresultErrorMessage (snd wr)))
      else and_then
        (case new_token of Some t \<Rightarrow> c_read (t @ [NUL])
         | None \<Rightarrow> c_read (strncpy (calloc 32) old_token 32)) (\<lambda>token.
        Inr (fst wr, ok_response (Res_EditMe token))))"

definition pieces :: "(string \<times> string) list \<Rightarrow> string list" where
  "pieces cols = concat (map (\<lambda>(c, l). ['', '' @ c @ '' = '', l]) cols)"

lemma pieces_append [simp]: "pieces (as @ bs) = pieces as @ pieces bs"
  by (simp add: pieces_def)

lemma concat_pieces: "concat (pieces cols) = concat (map column_text cols)"
  by (induction cols) (auto simp: pieces_def column_text_def)

lemma edit_field_literals:
  "edit_field E w ('', '' @ c @ '' = '') n v q =
     (case literals E w (opt_column c n v) of
        None \<Rightarrow> Inl Null_deref
      | Some ls \<Rightarrow> Inr (foldl (strlcat_text 16384) q (pieces ls)))"
  by (auto simp: edit_field_def opt_column_def pieces_def split: option.splits)

lemmas edit_field_username = edit_field_literals [where c = "''username''", simplified append_Cons append_Nil]
lemmas edit_field_password = edit_field_literals [where c = "''password''", simplified append_Cons append_Nil]
lemmas edit_field_firstname = edit_field_literals [where c = "''firstname''", simplified append_Cons append_Nil]
lemmas edit_field_lastname = edit_field_literals [where c = "''lastname''", simplified append_Cons append_Nil]
lemmas edit_field_token = edit_field_literals [where c = "''token''", simplified append_Cons append_Nil]

lemma edit_field_where:
  "edit_field E w '' WHERE token = '' n (Some v) q =
     and_then (deref (e_escapeLiteral E w v n)) (\<lambda>lit.
       Inr (strlcat_text 16384 (strlcat_text 16384 q '' WHERE token = '') lit))"
  by (simp add: edit_field_def)

lemma edit_password_literals:
  assumes "client_library E"
  shows "edit_password E salt w p q =
     (case literals E w (opt_column ''password'' 128
             (map_option (\<lambda>p. b64_loop (password_hash E salt p)) p)) of
        None \<Rightarrow> Inl Null_deref
      | Some ls \<Rightarrow> Inr (foldl (strlcat_text 16384) q (pieces ls)))"
proof (cases p)
  case None
  then show ?thesis by (simp add: edit_password_def opt_column_def pieces_def)
next
  case (Some a)
  then show ?thesis
    using client_library_facts(1) [OF assms]
    by (simp add: edit_password_def edit_field_password)
qed

lemma edit_token_literals:
  assumes lib: "client_library E"
  shows "edit_token E (regenerates r) (em_token r) w q =
     (case literals E w (opt_column ''token'' 128 (edit_new_token E w r)) of
        None \<Rightarrow> Inl Null_deref
      | Some ls \<Rightarrow> Inr (edit_world E w r, foldl (strlcat_text 16384) q (pieces ls),
          (case edit_new_token E w r of Some t \<Rightarrow> t @ [NUL]
           | None \<Rightarrow> strncpy (calloc 32) (em_token r) 32)))"
proof (cases "regenerates r")
  case False
  then show ?thesis
    by (simp add: edit_token_def edit_new_token_def edit_world_def opt_column_def pieces_def)
next
  case True
  obtain w1 tok where a: "access_token E w = (w1, tok)" by fastforce
  then have l: "length tok = 32"
    using length_access_token [OF client_library_facts(1) [OF lib], of w] by simp
  have "e_escapeLiteral E w1 = e_escapeLiteral E w"
    using client_library_facts(4) [OF lib, of w] a by simp
  then have "literals E w1 cs = literals E w cs" for cs
    by (induction cs) (auto split: option.splits)
  with True a l show ?thesis
    by (auto simp: edit_token_def edit_new_token_def edit_world_def edit_field_token
        split: option.splits)
qed

text \<open>A bound on the statement, well below the buffer.\<close>

lemma literals_length:
  assumes "client_library E" "literals E w cs = Some ls"
  shows "length (concat (map column_text ls)) \<le> sum_list (map (\<lambda>(c, v, n). length c + 2 * n + 9) cs)"
  using assms(2)
proof (induction cs arbitrary: ls)
  case Nil
  then show ?case by simp
next
  case (Cons a cs)
  obtain c v n where a: "a = (c, v, n)" by (cases a) auto
  from Cons.prems obtain l ls' where l: "e_escapeLiteral E w v n = Some l"
    and ls': "literals E w cs = Some ls'" and ls: "ls = (c, l) # ls'"
    by (auto simp: a split: option.splits)
  have "length l \<le> 2 * n + 4" using client_library_facts(2) [OF assms(1) l] .
  with Cons.IH [OF ls'] show ?case
    by (simp add: a ls column_text_def)
qed

lemma edit_columns_bound:
  "sum_list (map (\<lambda>(c, v, n). length c + 2 * n + 9) (edit_columns E salt r t)) \<le> 851"
  by (auto simp: edit_columns_def opt_column_def split: option.splits)

lemma update_text_pieces:
  "update_text a ls wl =
     ''UPDATE users SET admin = '' @
     concat ([if a then ''TRUE'' else ''FALSE''] @ pieces ls @ ['' WHERE token = '', wl])"
  by (simp add: update_text_def concat_pieces)

lemma edit_me_refines:
  assumes lib: "client_library E"
    and ls: "literals E w (edit_columns E salt r (edit_new_token E w r)) = Some ls"
    and wl: "e_escapeLiteral E w (em_token r) 128 = Some wl"
  shows "edit_me E salt w r =
    edit_reply (edit_new_token E w r) (em_token r)
      (e_exec E (edit_world E w r) (update_text (em_admin r) ls wl))"
proof -
  let ?app = "strlcat_text 16384"
  let ?q = "''UPDATE users SET admin = ''"
  let ?b = "if em_admin r then ''TRUE'' else ''FALSE''"
  obtain l1 l2 l3 l4 l5 where
    l1: "literals E w (opt_column ''username'' 64 (em_username r)) = Some l1" and
    l2: "literals E w (opt_column ''password'' 128
           (map_option (\<lambda>p. b64_loop (password_hash E salt p)) (em_password r))) = Some l2" and
    l3: "literals E w (opt_column ''firstname'' 32 (em_firstName r)) = Some l3" and
    l4: "literals E w (opt_column ''lastname'' 32 (em_lastName r)) = Some l4" and
    l5: "literals E w (opt_column ''token'' 128 (edit_new_token E w r)) = Some l5" and
    lss: "ls = l1 @ l2 @ l3 @ l4 @ l5"
    using ls unfolding edit_columns_def literals_append by (auto split: option.splits)
  have esc: "e_escapeLiteral E (edit_world E w r) = e_escapeLiteral E w"
    using client_library_facts(4) [OF lib, of w] by (simp add: edit_world_def)
  let ?ps = "[?b] @ pieces ls @ ['' WHERE token = '', wl]"
  have "length wl \<le> 260" using client_library_facts(2) [OF lib wl] by simp
  then have "length ?q + length (concat ?ps) < 16384"
    using literals_length [OF lib ls] edit_columns_bound [of E salt r "edit_new_token E w r"]
    by (simp add: concat_pieces)
  then have "foldl ?app ?q ?ps = ?q @ concat ?ps"
    by (rule edit_buf.fill_exact)
  then have q: "foldl ?app ?q ?ps = update_text (em_admin r) ls wl"
    by (simp only: update_text_pieces)
  have chain: "?app (?app (foldl ?app (foldl ?app (foldl ?app (foldl ?app (foldl ?app
      (?app ?q ?b) (pieces l1)) (pieces l2)) (pieces l3)) (pieces l4)) (pieces l5))
      '' WHERE token = '') wl = update_text (em_admin r) ls wl"
    using q by (simp only: lss pieces_append foldl_append foldl_Cons foldl_Nil append_Cons append_Nil)
  obtain w2 res where ex: "e_exec E (edit_world E w r) (update_text (em_admin r) ls wl) = (w2, res)"
    by fastforce
  show ?thesis
    unfolding edit_me_def Let_def edit_field_username edit_field_firstname edit_field_lastname
      edit_password_literals [OF lib] edit_token_literals [OF lib]
      regenerates_def [symmetric] l1 l2 l3 l4 l5 option.case and_then.simps prod.case
      edit_field_where esc wl deref_simps chain ex
    by (simp add: edit_reply_def split: option.splits)
qed

lemma edit_me_escape_fails:
  assumes lib: "client_library E"
    and fails: "literals E w (edit_columns E salt r (edit_new_token E w r)) = None \<or>
      e_escapeLiteral E w (em_token r) 128 = None"
  shows "edit_me E salt w r = Inl Null_deref"
proof -
  have esc: "e_escapeLiteral E (edit_world E w r) = e_escapeLiteral E w"
    using client_library_facts(4) [OF lib, of w] by (simp add: edit_world_def)
  show ?thesis
    using fails
    unfolding edit_me_def Let_def edit_field_username edit_field_firstname edit_field_lastname
      edit_password_literals [OF lib] edit_token_literals [OF lib]
      regenerates_def [symmetric] edit_columns_def literals_append
    by (auto simp: edit_field_where esc split: option.splits)
qed

section \<open>The \<open>INSERT\<close> of request_contract\<close>

definition contract_text ::
  "string \<Rightarrow> string option \<Rightarrow> string \<Rightarrow> string option \<Rightarrow> string \<Rightarrow> string \<Rightarrow> string" where
  "contract_text name desc_lit price_lit bytea user_lit time_lit =
     SQL_insert_prefix @ sq @ name @ sq @
     (case desc_lit of None \<Rightarrow> '', NULL'' | Some l \<Rightarrow> '', '' @ l) @
     '', '' @ price_lit @
     (case bytea of None \<Rightarrow> '', NULL'' | Some b \<Rightarrow> '', '' @ sq @ b @ sq) @
     '', '' @ user_lit @ '', '' @ time_lit @ '') RETURNING id''"

lemma contract_cat_simp: "length q < 2097152 \<Longrightarrow> contract_cat q s = take 2097151 (q @ s)"
  by (simp add: contract_buf.app_prefix)

definition desc_pieces :: "string option \<Rightarrow> string list" where
  "desc_pieces dl = (case dl of None \<Rightarrow> ['', NULL''] | Some l \<Rightarrow> ['', '', l])"

definition bytea_pieces :: "string option \<Rightarrow> string list" where
  "bytea_pieces al = (case al of None \<Rightarrow> ['', NULL''] | Some b \<Rightarrow> ['', '' @ sq, b, sq])"

text \<open>The literal of an optional value: none needed, or the escaped form.\<close>

definition opt_literal :: "('a \<Rightarrow> string option) \<Rightarrow> 'a option \<Rightarrow> string option \<Rightarrow> bool" where
  "opt_literal f v l \<longleftrightarrow> (case v of None \<Rightarrow> l = None | Some x \<Rightarrow> l \<noteq> None \<and> f x = l)"

lemma contract_query_refines:
  assumes dl: "opt_literal (\<lambda>d. e_escapeLiteral E w d 16384) (rc_description r) dl"
    and al: "opt_literal (e_escapeBytea E w) (used_attachment (rc_attachment r)) al"
  shows "contract_query E w r uid t =
    Inr (take 2097151 (contract_text (rc_name r) dl (price_text (rc_price r)) al uid (time_text t)))"
proof -
  let ?ps = "[sq, rc_name r, sq] @ desc_pieces dl @ ['', '', price_text (rc_price r)] @
    bytea_pieces al @ ['', '', uid, '', '', time_text t, '') RETURNING id'']"
  have d: "contract_description E w (rc_description r) q = Inr (foldl contract_cat q (desc_pieces dl))" for q
    using dl by (auto simp: contract_description_def opt_literal_def desc_pieces_def split: option.splits)
  have a: "contract_attachment E w (rc_attachment r) q = Inr (foldl contract_cat q (bytea_pieces al))" for q
    using al by (auto simp: contract_attachment_def opt_literal_def bytea_pieces_def split: option.splits)
  have "contract_query E w r uid t = Inr (foldl contract_cat SQL_insert_prefix ?ps)"
    unfolding contract_query_def d a Let_def and_then.simps by simp
  also have "foldl contract_cat SQL_insert_prefix ?ps = take 2097151 (SQL_insert_prefix @ concat ?ps)"
    using contract_buf.fill_prefix [of SQL_insert_prefix ?ps] by (simp add: SQL_insert_prefix_def)
  also have "SQL_insert_prefix @ concat ?ps =
      contract_text (rc_name r) dl (price_text (rc_price r)) al uid (time_text t)"
    by (simp add: contract_text_def desc_pieces_def bytea_pieces_def split: option.splits)
  finally show ?thesis .
qed

lemma length_price_text: "length (price_text p) \<le> 127"
  by (simp add: price_text_def snprintf_text_def)

lemma length_time_text: "length (time_text t) \<le> 63"
  by (simp add: time_text_def snprintf_text_def)

lemma used_attachment_Some:
  "used_attachment a = Some v \<longleftrightarrow> a = Some v \<and> v \<noteq> [] \<and> length v \<le> 131072"
  by (auto simp: used_attachment_def split: option.splits if_splits)

lemma contract_text_length:
  assumes lib: "client_library E"
    and dl: "opt_literal (\<lambda>d. e_escapeLiteral E w d 16384) d dl"
    and al: "opt_literal (e_escapeBytea E w) (used_attachment a) al"
    and small: "length name + length uid \<le> 1400000"
  shows "length (contract_text name dl (price_text p) al uid (time_text t)) < 2097152"
proof -
  have 1: "length (case dl of None \<Rightarrow> '', NULL'' | Some l \<Rightarrow> '', '' @ l) \<le> 32774"
  proof (cases dl)
    case (Some l)
    with dl obtain x where "e_escapeLiteral E w x 16384 = Some l"
      by (auto simp: opt_literal_def split: option.splits)
    from client_library_facts(2) [OF lib this] Some show ?thesis by simp
  qed simp
  have 2: "length (case al of None \<Rightarrow> '', NULL'' | Some b \<Rightarrow> '', '' @ sq @ b @ sq) \<le> 655367"
  proof (cases al)
    case (Some l)
    with al obtain x where "e_escapeBytea E w x = Some l" "length x \<le> 131072"
      by (auto simp: opt_literal_def used_attachment_Some split: option.splits)
    with client_library_facts(3) [OF lib, of w x l] Some show ?thesis by simp
  qed simp
  have "length (contract_text name dl (price_text p) al uid (time_text t)) \<le>
      length SQL_insert_prefix + 2 + length name + 32774 + 2 + 127 + 655367 + 2 + length uid + 2 + 63 + 14"
    unfolding contract_text_def length_append
    using 1 2 length_price_text [of p] length_time_text [of t] by simp
  also have "\<dots> < 2097152" using small by (simp add: SQL_insert_prefix_def)
  finally show ?thesis .
qed

section \<open>SQL string constants\<close>

text \<open>The scanner of a string constant, started after the opening quote: a doubled quote is a
  quote, a single one ends the constant. The result is the value and the text that
  follows.\<close>

fun scan_string :: "string \<Rightarrow> (string \<times> string) option" where
  "scan_string [] = None"
| "scan_string (c # cs) =
     (if c \<noteq> CHR 0x27 then map_option (\<lambda>(v, rest). (c # v, rest)) (scan_string cs)
      else (case cs of
          [] \<Rightarrow> Some ([], [])
        | d # ds \<Rightarrow> if d = CHR 0x27 then map_option (\<lambda>(v, rest). (CHR 0x27 # v, rest)) (scan_string ds)
                    else Some ([], cs)))"

text \<open>The inverse: every quote doubled.\<close>

definition double_quotes :: "string \<Rightarrow> string" where
  "double_quotes s = concat (map (\<lambda>c. if c = CHR 0x27 then [c, c] else [c]) s)"

lemma double_quotes_simps [simp]:
  "double_quotes [] = []"
  "double_quotes (c # s) = (if c = CHR 0x27 then [c, c] else [c]) @ double_quotes s"
  by (simp_all add: double_quotes_def)

lemma double_quotes_plain: "CHR 0x27 \<notin> set s \<Longrightarrow> double_quotes s = s"
  by (induction s) auto

lemma length_double_quotes: "length (double_quotes s) \<le> 2 * length s"
  by (induction s) auto

lemma double_quotes_id_iff: "double_quotes s = s \<longleftrightarrow> CHR 0x27 \<notin> set s"
proof
  assume eq: "double_quotes s = s"
  have ge: "length (double_quotes s) \<ge> length s + length (filter (\<lambda>c. c = CHR 0x27) s)"
    by (induction s) auto
  with eq have "filter (\<lambda>c. c = CHR 0x27) s = []" by simp
  then show "CHR 0x27 \<notin> set s" by (auto simp: filter_empty_conv)
qed (rule double_quotes_plain)

lemma scan_double_quotes:
  "rest = [] \<or> hd rest \<noteq> CHR 0x27 \<Longrightarrow>
   scan_string (double_quotes s @ CHR 0x27 # rest) = Some (s, rest)"
proof (induction s)
  case Nil
  then show ?case by (cases rest) auto
next
  case (Cons c s)
  then show ?case by simp
qed

lemma scan_string_value:
  "scan_string t = Some (v, rest) \<Longrightarrow> t = double_quotes v @ CHR 0x27 # rest"
proof (induction t arbitrary: v rest rule: scan_string.induct)
  case 1
  then show ?case by simp
next
  case (2 c cs)
  show ?case
  proof (cases "c = CHR 0x27")
    case False
    with 2 show ?thesis by auto
  next
    case True
    with 2 show ?thesis by (auto split: list.splits if_splits)
  qed
qed

text \<open>A raw value between quotes is read back exactly when it contains no quote.\<close>

lemma scan_raw_iff:
  assumes "rest = [] \<or> hd rest \<noteq> CHR 0x27"
  shows "scan_string (s @ CHR 0x27 # rest) = Some (s, rest) \<longleftrightarrow> CHR 0x27 \<notin> set s"
proof
  assume "scan_string (s @ CHR 0x27 # rest) = Some (s, rest)"
  then have "s @ CHR 0x27 # rest = double_quotes s @ CHR 0x27 # rest" by (rule scan_string_value)
  then show "CHR 0x27 \<notin> set s" by (simp add: double_quotes_id_iff [symmetric])
next
  assume "CHR 0x27 \<notin> set s"
  with scan_double_quotes [OF assms, of s] show "scan_string (s @ CHR 0x27 # rest) = Some (s, rest)"
    by (simp add: double_quotes_plain)
qed

section \<open>The \<open>SELECT\<close> of login\<close>

lemma login_statement_constant:
  "drop 41 (login_statement u h) = u @ CHR 0x27 # '' AND password='' @ sq @ h @ sq @ '')''"
  "length (login_statement u h) = length u + length h + 59"
  by (simp_all add: login_statement_def)

lemma login_query_constant:
  "drop 41 (login_query u h) = take 8150 (u @ CHR 0x27 # '' AND password='' @ sq @ h @ sq @ '')'')"
  by (simp only: login_query_def snprintf_text_def drop_take login_statement_constant) simp

lemma login_query_fits: "length u + length h \<le> 8132 \<Longrightarrow> login_query u h = login_statement u h"
  by (simp add: login_query_def login_statement_constant)

definition login_reply :: "'w \<times> pgresult \<Rightarrow> ('w \<times> response) outcome" where
  "login_reply wr =
     (if PQresultStatus (snd wr) \<noteq> PGRES_TUPLES_OK then Inr (fst wr, error_response ''Failed'')
      else if PQntuples (snd wr) \<le> 0 then Inr (fst wr, error_response ''Wrong username or password'')
      else and_then (deref (PQgetvalue (snd wr) 0 0)) (\<lambda>token.
        Inr (fst wr, ok_response (Res_Login token))))"

lemma login_sends:
  "crypto_sizes E \<Longrightarrow> login E salt w r =
    login_reply (e_exec E w (login_query (lg_username r) (b64_loop (password_hash E salt (lg_password r)))))"
  by (simp add: login_def login_reply_def Let_def split: prod.splits)

text \<open>The constant of the user name: it is read as the whole name exactly when the name has no quote, and the
  password test follows whole exactly when it fits.\<close>

lemma login_constant_iff:
  assumes "length h = 88"
  shows "scan_string (drop 41 (login_query u h)) = Some (u, '' AND password='' @ sq @ h @ sq @ '')'') \<longleftrightarrow>
    CHR 0x27 \<notin> set u \<and> length u \<le> 8044"
proof (cases "length u \<le> 8044")
  case True
  with assms have "drop 41 (login_query u h) = u @ CHR 0x27 # '' AND password='' @ sq @ h @ sq @ '')''"
    by (simp only: login_query_fits login_statement_constant)
  with True show ?thesis by (simp only:) (simp add: scan_raw_iff)
next
  case False
  have "scan_string (drop 41 (login_query u h)) \<noteq> Some (u, '' AND password='' @ sq @ h @ sq @ '')'')"
  proof
    assume "scan_string (drop 41 (login_query u h)) = Some (u, '' AND password='' @ sq @ h @ sq @ '')'')"
    from scan_string_value [OF this]
    have "length (drop 41 (login_query u h)) = length (double_quotes u) + 106" using assms by simp
    moreover have "length u \<le> length (double_quotes u)" by (induction u) auto
    moreover have "length (drop 41 (login_query u h)) \<le> 8150" by (simp only: login_query_constant) simp
    ultimately show False using False by simp
  qed
  with False show ?thesis by simp
qed

lemma login_refines:
  assumes "client_library E" "length (lg_username r) \<le> 8000"
  shows "login E salt w r =
    login_reply (e_exec E w (login_statement (lg_username r)
      (b64_loop (password_hash E salt (lg_password r)))))"
proof -
  note sizes = client_library_facts(1) [OF assms(1)]
  show ?thesis
    using assms(2) length_encoded_hash [OF sizes, of salt "lg_password r"]
    by (simp add: login_sends [OF sizes] login_query_fits)
qed

text \<open>What a scanner reads when the name has a quote.\<close>

lemma login_injected:
  assumes "CHR 0x27 \<notin> set name" "hd (sql @ sq) \<noteq> CHR 0x27" "length name < 8150"
  shows "scan_string (drop 41 (login_query (name @ sq @ sql) h)) =
    Some (name, take (8149 - length name) (sql @ sq @ '' AND password='' @ sq @ h @ sq @ '')''))"
proof -
  let ?rest = "sql @ sq @ '' AND password='' @ sq @ h @ sq @ '')''"
  have "take 8150 (name @ CHR 0x27 # ?rest) = name @ CHR 0x27 # take (8149 - length name) ?rest"
    using assms(3) by (simp add: take_Cons' del: take_append) (simp add: take_Cons')
  then have "drop 41 (login_query (name @ sq @ sql) h) = name @ CHR 0x27 # take (8149 - length name) ?rest"
    by (simp add: login_query_constant)
  moreover have "take (8149 - length name) ?rest = [] \<or> hd (take (8149 - length name) ?rest) \<noteq> CHR 0x27"
    using assms(2) by (cases sql) auto
  ultimately show ?thesis using assms(1) by (simp only:) (rule iffD2 [OF scan_raw_iff], simp_all)
qed

section \<open>The \<open>INSERT\<close> with values that cannot be escaped\<close>

text \<open>What is in the buffer, if there is room, when the two escaped values are appended.\<close>

definition before_description :: "string \<Rightarrow> string" where
  "before_description name = SQL_insert_prefix @ sq @ name @ sq @ '', ''"

definition before_attachment :: "string \<Rightarrow> string option \<Rightarrow> string \<Rightarrow> string" where
  "before_attachment name desc_lit price_lit =
     SQL_insert_prefix @ sq @ name @ sq @ concat (desc_pieces desc_lit) @ '', '' @ price_lit @ '', '' @ sq"

lemma contract_description_eq:
  "contract_description E w d q =
     (if (\<exists>x. d = Some x \<and> e_escapeLiteral E w x 16384 = None) \<and> Suc (length (contract_cat q '', '')) \<noteq> 2097152
      then Inl Null_deref
      else Inr (foldl contract_cat q (desc_pieces (map_option (\<lambda>x. text_or_empty (e_escapeLiteral E w x 16384)) d))))"
  by (auto simp: contract_description_def strlcat_ptr_eq desc_pieces_def split: option.splits)

lemma contract_attachment_eq:
  "contract_attachment E w a q =
     (if (\<exists>v. used_attachment a = Some v \<and> e_escapeBytea E w v = None) \<and>
        Suc (length (contract_cat q ('', '' @ sq))) \<noteq> 2097152
      then Inl Null_deref
      else Inr (foldl contract_cat q (bytea_pieces (map_option (\<lambda>v. text_or_empty (e_escapeBytea E w v)) (used_attachment a)))))"
  by (auto simp: contract_attachment_def strlcat_ptr_eq bytea_pieces_def split: option.splits)

lemma contract_fill: "foldl contract_cat SQL_insert_prefix ps = take 2097151 (SQL_insert_prefix @ concat ps)"
  using contract_buf.fill_prefix [of SQL_insert_prefix ps] by (simp add: SQL_insert_prefix_def)

lemma contract_full: "Suc (length (take 2097151 x)) \<noteq> 2097152 \<longleftrightarrow> length x < 2097151"
  by (auto simp: min_def)

lemma contract_query_eq:
  fixes E :: "'w env"
  defines "dl \<equiv> \<lambda>w r. map_option (\<lambda>d. text_or_empty (e_escapeLiteral E w d 16384)) (rc_description r)"
    and "al \<equiv> \<lambda>w r. map_option (\<lambda>v. text_or_empty (e_escapeBytea E w v)) (used_attachment (rc_attachment r))"
  shows "contract_query E w r uid t =
     (if (\<exists>d. rc_description r = Some d \<and> e_escapeLiteral E w d 16384 = None \<and>
            length (before_description (rc_name r)) < 2097151) \<or>
         (\<exists>v. used_attachment (rc_attachment r) = Some v \<and> e_escapeBytea E w v = None \<and>
            length (before_attachment (rc_name r) (dl w r) (price_text (rc_price r))) < 2097151)
      then Inl Null_deref
      else Inr (take 2097151 (contract_text (rc_name r) (dl w r) (price_text (rc_price r)) (al w r) uid (time_text t))))"
proof -
  let ?ps = "[sq, rc_name r, sq]"
  let ?qs = "?ps @ desc_pieces (dl w r) @ ['', '', price_text (rc_price r)]"
  let ?rs = "?qs @ bytea_pieces (al w r) @ ['', '', uid, '', '', time_text t, '') RETURNING id'']"
  let ?f = "foldl contract_cat SQL_insert_prefix"
  have d: "contract_description E w (rc_description r) (?f ?ps) =
     (if (\<exists>d. rc_description r = Some d \<and> e_escapeLiteral E w d 16384 = None) \<and>
        length (before_description (rc_name r)) < 2097151
      then Inl Null_deref else Inr (?f (?ps @ desc_pieces (dl w r))))"
  proof -
    have "contract_cat (?f ?ps) '', '' = take 2097151 (before_description (rc_name r))"
      using contract_fill [of "?ps @ ['', '']"] by (simp add: before_description_def)
    then show ?thesis unfolding contract_description_eq by (simp add: contract_full dl_def)
  qed
  have a: "contract_attachment E w (rc_attachment r) (?f ?qs) =
     (if (\<exists>v. used_attachment (rc_attachment r) = Some v \<and> e_escapeBytea E w v = None) \<and>
        length (before_attachment (rc_name r) (dl w r) (price_text (rc_price r))) < 2097151
      then Inl Null_deref else Inr (?f (?qs @ bytea_pieces (al w r))))"
  proof -
    have "contract_cat (?f ?qs) ('', '' @ sq) =
        take 2097151 (before_attachment (rc_name r) (dl w r) (price_text (rc_price r)))"
      using contract_fill [of "?qs @ ['', '' @ sq]"] by (simp add: before_attachment_def)
    then show ?thesis unfolding contract_attachment_eq by (simp add: contract_full al_def)
  qed
  have cut: "?f ?rs = take 2097151 (contract_text (rc_name r) (dl w r) (price_text (rc_price r)) (al w r) uid (time_text t))"
    unfolding contract_fill by (simp add: contract_text_def desc_pieces_def bytea_pieces_def split: option.splits)
  define bd where "bd \<longleftrightarrow> (\<exists>d. rc_description r = Some d \<and> e_escapeLiteral E w d 16384 = None) \<and>
      length (before_description (rc_name r)) < 2097151"
  define ba where "ba \<longleftrightarrow> (\<exists>v. used_attachment (rc_attachment r) = Some v \<and> e_escapeBytea E w v = None) \<and>
      length (before_attachment (rc_name r) (dl w r) (price_text (rc_price r))) < 2097151"
  have "contract_query E w r uid t =
      and_then (contract_description E w (rc_description r) (?f ?ps)) (\<lambda>q.
      and_then (contract_attachment E w (rc_attachment r) (foldl contract_cat q ['', '', price_text (rc_price r)]))
        (\<lambda>q. Inr (foldl contract_cat q ['', '', uid, '', '', time_text t, '') RETURNING id''])))"
    by (simp add: contract_query_def Let_def)
  also have "\<dots> = (if bd then Inl Null_deref
      else and_then (contract_attachment E w (rc_attachment r) (?f ?qs))
        (\<lambda>q. Inr (foldl contract_cat q ['', '', uid, '', '', time_text t, '') RETURNING id''])))"
    unfolding d bd_def [symmetric] by simp
  also have "\<dots> = (if bd then Inl Null_deref else if ba then Inl Null_deref else Inr (?f ?rs))"
    unfolding a ba_def [symmetric] by simp
  also have "\<dots> = (if bd \<or> ba then Inl Null_deref else Inr (?f ?rs))" by simp
  finally show ?thesis unfolding cut bd_def ba_def conj_assoc [symmetric] ex_simps .
qed

section \<open>Properties\<close>

lemma show_nat_split:
  "show_nat n = s @ t \<Longrightarrow> s \<noteq> [] \<Longrightarrow> read_digits s = n div 10 ^ length t"
proof -
  assume a: "show_nat n = s @ t" "s \<noteq> []"
  have "\<forall>c \<in> set t. is_digit c" using show_nat_digits [of _ n] a by auto
  then have "read_digits t < 10 ^ length t" by (rule read_digits_bound)
  moreover have "n = read_digits s * 10 ^ length t + read_digits t"
    using read_digits_append [of s t] a(1) by (metis read_digits_show_nat)
  ultimately show ?thesis by simp
qed

text \<open>C34: the price written into the statement. Below \<open>10 ^ 119\<close> it is the whole rendering: the
  integer part, a point and six digits, and the number they denote is within half a millionth
  of the price. From \<open>10 ^ 127\<close> on, the 128-byte buffer cuts the rendering: what is sent
  is the first 127 digits of the integer part, a price that is too low by a factor of ten for
  every digit cut.\<close>

theorem price_text_value:
  "let k = micro m e in
   (k < 10 ^ 125 \<longrightarrow>
      price_text (Fin False m e) = show_nat (k div 10 ^ 6) @ ''.'' @ six_digits (k mod 10 ^ 6) \<and>
      read_digits (show_nat (k div 10 ^ 6) @ six_digits (k mod 10 ^ 6)) = k \<and>
      2 * \<bar>int k * int (denom e) - int (numer m e * 10 ^ 6)\<bar> \<le> int (denom e)) \<and>
   (10 ^ 133 \<le> k \<longrightarrow>
      (\<exists>cut. length (show_nat (k div 10 ^ 6)) = 127 + cut \<and>
        read_digits (price_text (Fin False m e)) = k div 10 ^ 6 div 10 ^ cut \<and>
        CHR ''.'' \<notin> set (price_text (Fin False m e))))"
proof -
  define k where "k = micro m e"
  define i where "i = show_nat (k div 10 ^ 6)"
  have f: "fmt_f (Fin False m e) = i @ ''.'' @ six_digits (k mod 10 ^ 6)"
    by (simp add: fmt_f_def k_def i_def sign_text_def)
  have small: "price_text (Fin False m e) = i @ ''.'' @ six_digits (k mod 10 ^ 6) \<and>
      read_digits (i @ six_digits (k mod 10 ^ 6)) = k" if "k < 10 ^ 125"
  proof
    from that have "k div 10 ^ 6 < 10 ^ Suc 118" by (simp add: less_mult_imp_div_less)
    then have "length i \<le> 119" unfolding i_def using length_show_nat by fastforce
    then show "price_text (Fin False m e) = i @ ''.'' @ six_digits (k mod 10 ^ 6)"
      unfolding price_text_def f by simp
    show "read_digits (i @ six_digits (k mod 10 ^ 6)) = k"
      by (simp add: read_digits_append i_def)
  qed
  have acc: "2 * \<bar>int k * int (denom e) - int (numer m e * 10 ^ 6)\<bar> \<le> int (denom e)"
    unfolding k_def micro_def by (rule round_div_error) simp
  have large: "\<exists>cut. length i = 127 + cut \<and>
      read_digits (price_text (Fin False m e)) = k div 10 ^ 6 div 10 ^ cut \<and>
      CHR ''.'' \<notin> set (price_text (Fin False m e))" if "10 ^ 133 \<le> k"
  proof -
    have "(10 :: nat) ^ 127 * 10 ^ 6 \<le> k" using that by simp
    then have "(10 :: nat) ^ 127 \<le> k div 10 ^ 6" by (simp add: less_eq_div_iff_mult_less_eq)
    then have "128 \<le> length i" unfolding i_def using length_show_nat_ge [of 127] by simp
    then have p: "price_text (Fin False m e) = take 127 i" "length i = 127 + (length i - 127)"
      unfolding price_text_def snprintf_text_def f by simp_all
    have "i = take 127 i @ drop 127 i" by simp
    then have "read_digits (take 127 i) = k div 10 ^ 6 div 10 ^ length (drop 127 i)"
      unfolding i_def by (rule show_nat_split) (use \<open>128 \<le> length i\<close> i_def in auto)
    moreover have "CHR ''.'' \<notin> set (take 127 i)"
    proof -
      have "\<not> is_digit (CHR ''.'')" by (simp add: is_digit_def)
      then show ?thesis using show_nat_digits [of "CHR ''.''" "k div 10 ^ 6"]
        unfolding i_def by (meson in_set_takeD)
    qed
    ultimately show ?thesis using p by auto
  qed
  show ?thesis
    unfolding k_def [symmetric] i_def [symmetric] Let_def using small acc large by blast
qed

theorem price_text_value_witness:
  "price_text (Fin False 1234567891 (- 3)) = ''154320986.375000'' \<and>
   \<not> (2 * \<bar>int (micro 1234567891 (- 3)) * 8 - 1234567891 * 10 ^ 6\<bar> > 8)"
proof -
  have k: "micro 1234567891 (- 3) = 154320986375000" by (simp add: micro_def numer_def denom_def round_div_def)
  have n: "show_nat 154320986 = ''154320986''"
    by (simp add: show_nat.simps digit_char_def) code_simp
  have s: "six_digits 375000 = ''375000''"
    by (simp add: six_digits_def digit_char_def) code_simp
  have "denom (- 3) = 8" "numer 1234567891 (- 3) = 1234567891" by (simp_all add: denom_def numer_def)
  with price_text_value [of 1234567891 "- 3"] k n s show ?thesis by (simp add: Let_def)
qed

text \<open>C16: the \<open>INSERT\<close> of \<open>request_contract\<close>, on every input: the intended statement, in which a value that is sent
  escaped is escaped, cut to the size of the buffer; or the use of a null pointer, exactly when a value
  cannot be escaped and there is still room for it in the buffer.\<close>

theorem contract_query_statement:
  "contract_query E w r uid t =
     (let description = map_option (\<lambda>d. text_or_empty (e_escapeLiteral E w d 16384)) (rc_description r);
          price = price_text (rc_price r);
          attachment = map_option (\<lambda>v. text_or_empty (e_escapeBytea E w v)) (used_attachment (rc_attachment r))
      in if (\<exists>d. rc_description r = Some d \<and> e_escapeLiteral E w d 16384 = None \<and>
               length (before_description (rc_name r)) < 2097151) \<or>
            (\<exists>v. used_attachment (rc_attachment r) = Some v \<and> e_escapeBytea E w v = None \<and>
               length (before_attachment (rc_name r) description price) < 2097151)
         then Inl Null_deref
         else Inr (take 2097151 (contract_text (rc_name r) description price attachment uid (time_text t))))"
  unfolding Let_def by (rule contract_query_eq)

end
