(* ===== verification/Server.thy ===== *)
theory Server
  imports Database Queries
begin

text \<open>
  What the program relies on from PostgreSQL with the schema of \<open>main\<close>, from its client
  library and from the random generator, as a locale: a statement that succeeds has its
  meaning on the tables (\<open>Database\<close>), one that fails leaves them as they are. Nothing is said
  about when a statement succeeds. The provider that satisfies every law is \<open>Reference_Server\<close>.
\<close>

section \<open>Meaning of the statements\<close>

definition quote_free :: "string \<Rightarrow> bool" where
  "quote_free s \<longleftrightarrow> CHR 0x27 \<notin> set s"

definition user_inserted ::
  "string \<Rightarrow> string \<Rightarrow> string \<Rightarrow> string \<Rightarrow> string \<Rightarrow> tables \<Rightarrow> tables \<Rightarrow> bool" where
  "user_inserted u p f l tok t t' \<longleftrightarrow>
     (\<exists>i u' p' f' l' tok'. varchar 64 u = Some u' \<and> varchar 128 p = Some p' \<and>
        varchar 32 f = Some f' \<and> varchar 32 l = Some l' \<and> varchar 128 tok = Some tok' \<and>
        i < 2 ^ 31 \<and> i \<notin> ur_id ` set (users t) \<and> u' \<notin> ur_username ` set (users t) \<and>
        t' = insert_user i u' p' f' l' tok' t)"

definition username_taken :: "string \<Rightarrow> tables \<Rightarrow> bool" where
  "username_taken u t \<longleftrightarrow> (\<exists>u'. varchar 64 u = Some u' \<and> u' \<in> ur_username ` set (users t))"

definition edit_limits :: "(string \<times> nat) list" where
  "edit_limits =
     [(''username'', 64), (''password'', 128), (''firstname'', 32), (''lastname'', 32), (''token'', 128)]"

text \<open>The value that an escaped column denotes: at most the given number of bytes.\<close>

definition column_values :: "(string \<times> string \<times> nat) list \<Rightarrow> (string \<times> string) list" where
  "column_values cs = map (\<lambda>(c, v, n). (c, take n v)) cs"

definition columns_ok :: "(string \<times> string \<times> nat) list \<Rightarrow> bool" where
  "columns_ok cs \<longleftrightarrow> (\<forall>(c, v, n) \<in> set cs. (c, n) \<in> set edit_limits \<and> cstr v)"

definition contract_inserted ::
  "string \<Rightarrow> string option \<Rightarrow> string \<Rightarrow> u8 list option \<Rightarrow> nat \<Rightarrow> nat \<Rightarrow> nat \<Rightarrow> tables \<Rightarrow> tables \<Rightarrow> bool" where
  "contract_inserted name d price a user created_at i t t' \<longleftrightarrow>
     (\<exists>name'. varchar 64 name = Some name' \<and> i < 2 ^ 31 \<and> i \<notin> cr_id ` set (contracts t) \<and>
        user \<in> ur_id ` set (users t) \<and> created_at < 2 ^ 63 \<and>
        t' = insert_contract i name' d price a user created_at t)"

text \<open>A decimal literal as \<open>%f\<close> prints it, or a prefix of one; an infinity or a NaN is none.\<close>

definition numeric_literal :: "string \<Rightarrow> bool" where
  "numeric_literal s \<longleftrightarrow>
     (let ds = (if take 1 s = ''-'' then drop 1 s else s)
      in ds \<noteq> [] \<and> (\<forall>c \<in> set ds. is_digit c \<or> c = CHR ''.''))"

definition selects :: "('w \<Rightarrow> tables) \<Rightarrow> 'w \<Rightarrow> 'w \<times> pgresult \<Rightarrow> string option list list \<Rightarrow> bool" where
  "selects view w wr rows \<longleftrightarrow> view (fst wr) = view w \<and>
     (PQresultStatus (snd wr) = PGRES_TUPLES_OK \<longrightarrow> mset (PQtuples (snd wr)) = mset rows)"

definition lists ::
  "('w \<Rightarrow> tables) \<Rightarrow> (u8 list \<Rightarrow> string) \<Rightarrow> 'w \<Rightarrow> 'w \<times> pgresult \<Rightarrow>
   (contract_row \<times> user_row) list \<Rightarrow> bool" where
  "lists view bytea_text w wr ps \<longleftrightarrow> view (fst wr) = view w \<and>
     (PQresultStatus (snd wr) = PGRES_TUPLES_OK \<longrightarrow>
       (\<exists>qs. newest_50 ps qs \<and> PQtuples (snd wr) = map (row_contract bytea_text) qs))"

section \<open>The contract\<close>

locale tomtom_server =
  fixes E :: "'w env" and view :: "'w \<Rightarrow> tables"
    and bytea_text :: "u8 list \<Rightarrow> string" and float_text :: "string \<Rightarrow> string"
  assumes client: "client_library E"
    and rand_view: "view (fst (e_rand E w n)) = view w"
    and unescape: "e_unescapeBytea E (bytea_text b) = Some b"
    and login_law: "quote_free u \<Longrightarrow> quote_free h \<Longrightarrow>
      selects view w (e_exec E w (login_statement u h)) (rows_login u h (view w))"
    and get_me_law: "selects view w (e_execParams E w SQL_get_me [tok]) (rows_get_me tok (view w))"
    and user_admin_law:
      "selects view w (e_execParams E w SQL_user_admin [tok]) (rows_user_admin tok (view w))"
    and user_by_token_law:
      "selects view w (e_execParams E w SQL_user_by_token [tok]) (rows_user_by_token tok (view w))"
    and check_law: "long_min \<le> k \<Longrightarrow> k \<le> long_max \<Longrightarrow>
      selects view w (e_execParams E w SQL_check_contract [show_int k])
        (map (row_contract bytea_text) (joined_by_id k (view w)))"
    and list_all_law: "lists view bytea_text w (e_exec E w SQL_list_all) (joined (view w))"
    and list_own_law: "i < 2 ^ 31 \<Longrightarrow>
      lists view bytea_text w (e_execParams E w SQL_list_own [show_nat i]) (joined_of_user i (view w))"
    and register_law: "e_execParams E w SQL_register [u, p, f, l, tok] = (w', res) \<Longrightarrow>
      (if PQresultStatus res = PGRES_COMMAND_OK then user_inserted u p f l tok (view w) (view w')
       else view w' = view w \<and> (PQconstraintName res \<noteq> None \<longrightarrow> username_taken u (view w)))"
    and update_law: "literals E w cs = Some ls \<Longrightarrow> columns_ok cs \<Longrightarrow>
      e_escapeLiteral E w tok 128 = Some wl \<Longrightarrow> cstr tok \<Longrightarrow>
      t' = update_users adm (column_values cs) (take 128 tok) (view w) \<Longrightarrow>
      e_exec E w (update_text adm ls wl) = (w', res) \<Longrightarrow>
      (if PQresultStatus res = PGRES_COMMAND_OK
       then view w' = t' \<and> distinct (map ur_username (users t'))
       else view w' = view w \<and>
         (PQconstraintName res \<noteq> None \<longrightarrow> \<not> distinct (map ur_username (users t'))))"
    and insert_law: "quote_free name \<Longrightarrow>
      opt_literal (\<lambda>d. e_escapeLiteral E w d 16384) d dl \<Longrightarrow> (\<forall>y. d = Some y \<longrightarrow> cstr y) \<Longrightarrow>
      opt_literal (e_escapeBytea E w) a al \<Longrightarrow>
      e_exec E w (contract_text name dl (price_text x) al (show_nat user) (show_nat created_at)) = (w', res) \<Longrightarrow>
      (if PQresultStatus res = PGRES_TUPLES_OK
       then numeric_literal (price_text x) \<and>
         (\<exists>i. PQtuples res = [[Some (show_nat i)]] \<and>
           contract_inserted name (map_option (take 16384) d) (float_text (price_text x)) a user created_at i
             (view w) (view w'))
       else view w' = view w)"
begin

lemma crypto: "crypto_sizes E"
  by (rule client_library_facts(1) [OF client])

lemma access_token_view [simp]: "view (fst (access_token E w)) = view w"
  using rand_view [of w 32] by (auto simp: access_token_def split: prod.splits option.splits)

end

section \<open>Reading a selected row\<close>

lemma PQgetvalue_row:
  assumes "PQtuples res = rows" "i < length rows" "rows ! i = row" "j < length row"
  shows "PQgetvalue res i j = Some (case row ! j of None \<Rightarrow> [] | Some v \<Rightarrow> v)"
    "PQgetisnull res i j \<longleftrightarrow> row ! j = None"
  using assms by (auto simp: PQgetvalue_def PQgetisnull_def)

lemma atol_show_nat: "n < 2 ^ 63 \<Longrightarrow> atol (show_nat n) = int n"
  using atol_show_int [of "int n"] by (simp add: show_int_def long_min_def long_max_def)

text \<open>What a joined row means to a client.\<close>

definition contract_view :: "contract_row \<times> user_row \<Rightarrow> contract_info" where
  "contract_view p = (case p of (c, u) \<Rightarrow>
     \<lparr>ci_id = of_nat (cr_id c), ci_name = cr_name c, ci_description = cr_description c,
      ci_price = atof (cr_price c), ci_attachment = cr_attachment c,
      ci_status = of_nat (cr_status c), ci_created_at = of_nat (cr_created_at c),
      ci_by_user = \<lparr>ui_username = ur_username u, ui_firstName = ur_firstname u,
                    ui_lastName = ur_lastname u\<rparr>\<rparr>)"

definition me_view :: "user_row \<Rightarrow> me_info" where
  "me_view u = \<lparr>mi_username = ur_username u, mi_password = ur_password u,
     mi_firstName = ur_firstname u, mi_lastName = ur_lastname u, mi_admin = ur_admin u\<rparr>"

lemma contract_of_row_view:
  assumes rows: "i < length (PQtuples res)" "PQtuples res ! i = row_contract bt (c, u)"
    and un: "\<And>b. e_unescapeBytea E (bt b) = Some b" and ok: "contract_row_ok c"
  shows "contract_of_row E res i = Inr (contract_view (c, u))"
proof -
  have "PQgetvalue res i j = Some (case row_contract bt (c, u) ! j of None \<Rightarrow> [] | Some v \<Rightarrow> v)"
    "PQgetisnull res i j \<longleftrightarrow> row_contract bt (c, u) ! j = None" if "j < 10" for j
    using that rows by (simp_all add: PQgetvalue_def PQgetisnull_def)
  note cell = this
  have "atol (show_nat (cr_id c)) = int (cr_id c)" "atol (show_nat (cr_status c)) = int (cr_status c)"
    "atol (show_nat (cr_created_at c)) = int (cr_created_at c)"
    using ok by (auto intro!: atol_show_nat simp: contract_row_ok_def)
  then show ?thesis
    by (simp add: contract_of_row_def cell contract_view_def un nth_Cons' map_option_case
        split: option.splits)
qed

lemma contracts_of_rows_view:
  assumes "\<forall>i \<in> set is. i < length qs" "PQtuples res = map (row_contract bt) qs"
    and un: "\<And>b. e_unescapeBytea E (bt b) = Some b" and ok: "\<forall>(c, u) \<in> set qs. contract_row_ok c"
  shows "contracts_of_rows E res is = Inr (map (\<lambda>i. contract_view (qs ! i)) is)"
  using assms(1)
proof (induction "is")
  case Nil
  show ?case by simp
next
  case (Cons i "is")
  obtain c u where cu: "qs ! i = (c, u)" by fastforce
  with Cons.prems ok have "contract_row_ok c" by (metis (mono_tags, lifting) case_prodD list.set_intros(1) nth_mem)
  then have "contract_of_row E res i = Inr (contract_view (c, u))"
    using Cons.prems assms(2) cu un by (intro contract_of_row_view) auto
  with Cons cu show ?case by simp
qed

lemma contracts_of_all_rows:
  assumes "PQtuples res = map (row_contract bt) qs"
    and "\<And>b. e_unescapeBytea E (bt b) = Some b" and "\<forall>(c, u) \<in> set qs. contract_row_ok c"
  shows "contracts_of_rows E res [0..<PQntuples res] = Inr (map contract_view qs)"
proof -
  have "map (\<lambda>i. contract_view (qs ! i)) [0..<length qs] = map contract_view qs"
    by (rule nth_equalityI) simp_all
  then show ?thesis
    using contracts_of_rows_view [OF _ assms, of "[0..<length qs]"] assms(1)
    by (simp add: PQntuples_def)
qed

end
