(* ===== verification/Processing.thy ===== *)
theory Processing
  imports Contracts
begin

text \<open>
  The per-session state of \<open>src/backend/src/globals.h\<close> and the dispatch of a complete
  request, \<open>src/backend/src/processing.c\<close>. A heap block is the list of its bytes and a
  null pointer is \<open>None\<close>. Lengths that stay far below their type's bound are numbers:
  \<open>size_t data_len\<close> and \<open>int i\<close> as \<open>nat\<close>, \<open>long long out_data_len\<close> as \<open>int\<close>.
\<close>

section \<open>Session state\<close>

record pss =
  pss_data :: "u8 list option"
  pss_data_len :: nat
  pss_out_data :: "u8 list option"
  pss_out_data_len :: int
  pss_i :: nat

text \<open>The library hands out zeroed session memory.\<close>

definition fresh_pss :: pss where
  "fresh_pss = \<lparr>pss_data = None, pss_data_len = 0, pss_out_data = None, pss_out_data_len = 0,
     pss_i = 0\<rparr>"

section \<open>Dispatch\<close>

text \<open>The \<open>switch\<close>: a handler's response, or none for a type that is not implemented.\<close>

definition with_response :: "('w \<times> response) outcome \<Rightarrow> ('w \<times> response option) outcome" where
  "with_response m = and_then m (\<lambda>(w, r). Inr (w, Some r))"

fun dispatch ::
  "'w env \<Rightarrow> string \<Rightarrow> 'w \<Rightarrow> request \<Rightarrow> ('w \<times> response option) outcome" where
  "dispatch E salt w (Req_Login r) = with_response (login E salt w r)"
| "dispatch E salt w (Req_Register r) = with_response (register E salt w r)"
| "dispatch E salt w (Req_GetMe r) = with_response (get_me E w r)"
| "dispatch E salt w (Req_EditMe r) = with_response (edit_me E salt w r)"
| "dispatch E salt w (Req_RequestContract r) = with_response (request_contract E w r)"
| "dispatch E salt w (Req_ListContracts r) = with_response (list_contracts E w r)"
| "dispatch E salt w (Req_CheckContract r) = with_response (check_contract E w r)"
| "dispatch E salt w (Req_Other t) = Inr (w, None)"

text \<open>The last lines of every handler: the finished buffer becomes the session's output.\<close>

definition store_response :: "codec \<Rightarrow> response \<Rightarrow> pss \<Rightarrow> pss" where
  "store_response C r p =
     (let out_buf = fb_finalize C r
      in p\<lparr>pss_out_data := out_buf,
           pss_out_data_len := (case out_buf of None \<Rightarrow> 0 | Some b \<Rightarrow> int (length b))\<rparr>)"

definition process ::
  "'w env \<Rightarrow> codec \<Rightarrow> string \<Rightarrow> 'w \<Rightarrow> pss \<Rightarrow> ('w \<times> pss) outcome" where
  "process E C salt w p =
     and_then (deref (pss_data p)) (\<lambda>data.
       let buf = take (pss_data_len p) data in
       if fb_verify C buf \<noteq> 0 then Inr (w, p)
       else if \<not> fb_as_root C buf then Inr (w, p)
       else and_then (and_then (fb_message C buf) (dispatch E salt w)) (\<lambda>(w, reply).
         Inr (w, case reply of None \<Rightarrow> p | Some r \<Rightarrow> store_response C r p)))"

end
