(* ===== verification/Service.thy ===== *)
theory Service
  imports Server Processing
begin

text \<open>
  The service as a client may understand it: \<open>serves\<close> relates the tables before a request,
  the request, the response and the tables after it, with no SQL, no buffers and no encodings.
  The lemmas show, for each handler, that what it does through the statements it sends is
  allowed by \<open>serves\<close>; \<open>dispatch_serves\<close> puts them together. The service keeps the constraints of the
  database.
\<close>

section \<open>The specification\<close>

definition refused :: "tables \<Rightarrow> response \<Rightarrow> tables \<Rightarrow> bool" where
  "refused t a t' \<longleftrightarrow> t' = t \<and> (\<exists>m. a = error_response m)"

definition edited_columns ::
  "(string \<Rightarrow> string) \<Rightarrow> edit_me_req \<Rightarrow> string option \<Rightarrow> (string \<times> string \<times> nat) list" where
  "edited_columns H r new_token =
     opt_column ''username'' 64 (em_username r) @
     opt_column ''password'' 128 (map_option H (em_password r)) @
     opt_column ''firstname'' 32 (em_firstName r) @
     opt_column ''lastname'' 32 (em_lastName r) @
     opt_column ''token'' 128 new_token"

definition edit_effect ::
  "(string \<Rightarrow> string) \<Rightarrow> edit_me_req \<Rightarrow> string option \<Rightarrow> tables \<Rightarrow> tables" where
  "edit_effect H r new_token t =
     update_users (em_admin r) (column_values (edited_columns H r new_token))
       (take 128 (em_token r)) t"

definition fresh_token :: "string \<Rightarrow> bool" where
  "fresh_token s \<longleftrightarrow> (\<exists>b. length b = 32 \<and> s = b64_loop b)"

text \<open>\<open>H\<close> is the stored form of a password, \<open>F\<close> the server's text of a number.\<close>

fun serves ::
  "(string \<Rightarrow> string) \<Rightarrow> (string \<Rightarrow> string) \<Rightarrow> tables \<Rightarrow> request \<Rightarrow> response \<Rightarrow> tables \<Rightarrow> bool" where
  "serves H F t (Req_Login r) a t' \<longleftrightarrow> t' = t \<and>
     (a = error_response ''Failed'' \<or>
      a = error_response ''Wrong username or password'' \<and>
        (\<forall>u \<in> set (users t). ur_username u = lg_username r \<longrightarrow> ur_password u \<noteq> H (lg_password r)) \<or>
      (\<exists>u \<in> set (users t). ur_username u = lg_username r \<and> ur_password u = H (lg_password r) \<and>
        a = ok_response (Res_Login (ur_token u))))"
| "serves H F t (Req_Register r) a t' \<longleftrightarrow>
     refused t a t' \<or>
     (\<exists>tok. fresh_token tok \<and> a = ok_response (Res_Register tok) \<and>
        user_inserted (rg_username r) (H (rg_password r)) (rg_firstName r) (rg_lastName r) tok t t')"
| "serves H F t (Req_GetMe r) a t' \<longleftrightarrow>
     refused t a t' \<or>
     t' = t \<and> (\<exists>u \<in> set (users t). ur_token u = gm_token r \<and> a = ok_response (Res_GetMe (me_view u)))"
| "serves H F t (Req_EditMe r) a t' \<longleftrightarrow>
     refused t a t' \<or>
     (\<exists>nt. (if regenerates r then \<exists>s. nt = Some s \<and> fresh_token s
             else nt = None \<and> length (em_token r) < 32) \<and>
        t' = edit_effect H r nt t \<and> distinct (map ur_username (users t')) \<and>
        a = ok_response (Res_EditMe (case nt of Some s \<Rightarrow> s | None \<Rightarrow> em_token r)))"
| "serves H F t (Req_RequestContract r) a t' \<longleftrightarrow>
     refused t a t' \<or>
     (\<exists>u \<in> set (users t). \<exists>i ca. ur_token u = rc_token r \<and> \<not> is_negative (rc_price r) \<and>
        numeric_literal (price_text (rc_price r)) \<and>
        contract_inserted (rc_name r) (map_option (take 16384) (rc_description r))
          (F (price_text (rc_price r))) (used_attachment (rc_attachment r)) (ur_id u) ca i t t' \<and>
        a = ok_response (Res_RequestContract
          \<lparr>ci_id = of_nat i, ci_name = rc_name r, ci_description = rc_description r,
           ci_price = rc_price r, ci_attachment = used_attachment (rc_attachment r),
           ci_status = status_Processing, ci_created_at = of_nat ca,
           ci_by_user = \<lparr>ui_username = ur_username u, ui_firstName = ur_firstname u,
                         ui_lastName = ur_lastname u\<rparr>\<rparr>))"
| "serves H F t (Req_ListContracts r) a t' \<longleftrightarrow>
     refused t a t' \<or>
     t' = t \<and> (\<exists>u \<in> set (users t). ur_token u = lc_token r \<and>
       (\<exists>qs. newest_50 (if ur_admin u then joined t else joined_of_user (ur_id u) t) qs \<and>
          a = ok_response (Res_ListContracts (map contract_view qs))))"
| "serves H F t (Req_CheckContract r) a t' \<longleftrightarrow>
     refused t a t' \<or>
     t' = t \<and> (\<exists>p \<in> set (joined t). int (cr_id (fst p)) = sint (ck_id r) \<and>
       a = ok_response (Res_CheckContract (contract_view p)))"
| "serves H F t (Req_Other n) a t' \<longleftrightarrow> False"

text \<open>The two requests that take two statements, with the set in which the user is looked up.\<close>

definition new_contract :: "request_contract_req \<Rightarrow> user_row \<Rightarrow> nat \<Rightarrow> nat \<Rightarrow> contract_info" where
  "new_contract r u i ca =
     \<lparr>ci_id = of_nat i, ci_name = rc_name r, ci_description = rc_description r,
      ci_price = rc_price r, ci_attachment = used_attachment (rc_attachment r),
      ci_status = status_Processing, ci_created_at = of_nat ca,
      ci_by_user = \<lparr>ui_username = ur_username u, ui_firstName = ur_firstname u,
                    ui_lastName = ur_lastname u\<rparr>\<rparr>"

definition requested ::
  "(string \<Rightarrow> string) \<Rightarrow> user_row set \<Rightarrow> tables \<Rightarrow> request_contract_req \<Rightarrow> response \<Rightarrow> tables \<Rightarrow> bool" where
  "requested F us t r a t' \<longleftrightarrow>
     refused t a t' \<or>
     (\<exists>u \<in> us. \<exists>i ca. ur_token u = rc_token r \<and> \<not> is_negative (rc_price r) \<and>
        numeric_literal (price_text (rc_price r)) \<and>
        contract_inserted (rc_name r) (map_option (take 16384) (rc_description r))
          (F (price_text (rc_price r))) (used_attachment (rc_attachment r)) (ur_id u) ca i t t' \<and>
        a = ok_response (Res_RequestContract (new_contract r u i ca)))"

definition listed :: "user_row set \<Rightarrow> tables \<Rightarrow> list_contracts_req \<Rightarrow> response \<Rightarrow> tables \<Rightarrow> bool" where
  "listed us t r a t' \<longleftrightarrow>
     refused t a t' \<or>
     t' = t \<and> (\<exists>u \<in> us. ur_token u = lc_token r \<and>
       (\<exists>qs. newest_50 (if ur_admin u then joined t else joined_of_user (ur_id u) t) qs \<and>
          a = ok_response (Res_ListContracts (map contract_view qs))))"

lemma serves_requested: "serves H F t (Req_RequestContract r) a t' \<longleftrightarrow> requested F (set (users t)) t r a t'"
  by (simp add: requested_def new_contract_def)

lemma serves_listed: "serves H F t (Req_ListContracts r) a t' \<longleftrightarrow> listed (set (users t)) t r a t'"
  by (simp add: listed_def)

definition admin_row :: "user_row \<Rightarrow> string option list" where
  "admin_row u = [Some (show_nat (ur_id u)), Some (bool_text (ur_admin u))]"

definition name_row :: "user_row \<Rightarrow> string option list" where
  "name_row u = [Some (show_nat (ur_id u)), Some (ur_username u), Some (ur_firstname u), Some (ur_lastname u)]"

text \<open>Requests whose raw text does not leave its place in a statement; all strings are C
  strings, as the reader returns them.\<close>

definition opt_cstr :: "string option \<Rightarrow> bool" where
  "opt_cstr v \<longleftrightarrow> (\<forall>s. v = Some s \<longrightarrow> cstr s)"

lemma opt_cstr_simps [simp]: "opt_cstr None" "opt_cstr (Some s) \<longleftrightarrow> cstr s"
  by (simp_all add: opt_cstr_def)

fun request_ok :: "request \<Rightarrow> bool" where
  "request_ok (Req_Login r) \<longleftrightarrow> quote_free (lg_username r) \<and> length (lg_username r) \<le> 8000"
| "request_ok (Req_Register r) \<longleftrightarrow>
     cstr (rg_username r) \<and> cstr (rg_firstName r) \<and> cstr (rg_lastName r)"
| "request_ok (Req_EditMe r) \<longleftrightarrow> opt_cstr (em_username r) \<and> opt_cstr (em_firstName r) \<and>
     opt_cstr (em_lastName r) \<and> cstr (em_token r)"
| "request_ok (Req_RequestContract r) \<longleftrightarrow> quote_free (rc_name r) \<and> length (rc_name r) \<le> 1000000 \<and>
     opt_cstr (rc_description r)"
| "request_ok _ \<longleftrightarrow> True"

definition stored_hash :: "'w env \<Rightarrow> string \<Rightarrow> string \<Rightarrow> string" where
  "stored_hash E salt p = b64_loop (password_hash E salt p)"

lemma edit_columns_edited: "edit_columns E salt r nt = edited_columns (stored_hash E salt) r nt"
  by (simp add: edit_columns_def edited_columns_def stored_hash_def [abs_def])

lemma b64_loop_quote_free: "quote_free (b64_loop b)"
  using b64_loop_safe(1) [of b] by (simp add: quote_free_def)

lemma fresh_token_access: "crypto_sizes E \<Longrightarrow> fresh_token (b64_loop (snd (access_token E w)))"
  using length_access_token [of E w] by (auto simp: fresh_token_def)

section \<open>The first row of a selection\<close>

text \<open>A selected row of a user, with the columns \<open>f\<close>.\<close>

definition row_of :: "(user_row \<Rightarrow> string option list) \<Rightarrow> user_row set \<Rightarrow> string \<Rightarrow> pgresult \<Rightarrow> bool" where
  "row_of f us tok res \<longleftrightarrow> (PQresultStatus res = PGRES_TUPLES_OK \<longrightarrow> 0 < PQntuples res \<longrightarrow>
     (\<exists>u \<in> us. ur_token u = tok \<and> PQtuples res ! 0 = f u))"

lemma selects_view: "selects view w (w', res) rows \<Longrightarrow> view w' = view w"
  by (simp add: selects_def)

lemma selects_count:
  assumes "selects view w (w', res) (map f us)" "PQresultStatus res = PGRES_TUPLES_OK"
  shows "PQntuples res = length us"
proof -
  have "mset (PQtuples res) = mset (map f us)" using assms by (simp add: selects_def)
  then show ?thesis by (metis PQntuples_def length_map size_mset)
qed

lemma selects_first:
  assumes "selects view w (w', res) (map f us)" "PQresultStatus res = PGRES_TUPLES_OK"
    "0 < PQntuples res"
  obtains u where "u \<in> set us" "PQtuples res ! 0 = f u"
proof -
  have "PQtuples res ! 0 \<in> set (PQtuples res)" using assms(3) by (simp add: PQntuples_def)
  also have "mset (PQtuples res) = mset (map f us)" using assms(1,2) by (simp add: selects_def)
  then have "set (PQtuples res) = set (map f us)" by (metis set_mset_mset)
  finally show ?thesis using that by auto
qed

lemma first_row_values:
  assumes "0 < PQntuples res" "PQtuples res ! 0 = row" "j < length row"
  shows "PQgetvalue res 0 j = Some (case row ! j of None \<Rightarrow> [] | Some v \<Rightarrow> v)"
  using assms by (simp add: PQgetvalue_def PQntuples_def)

section \<open>The statement of request_contract\<close>

lemma time_text_exact: "time_text t = show_nat (unat t)"
proof -
  have "unat t < 2 ^ LENGTH(64)" by (rule unsigned_less)
  then have "unat t < 10 ^ Suc 19" by simp
  then have "length (show_nat (unat t)) \<le> 20" using length_show_nat by fastforce
  then show ?thesis by (simp add: time_text_def)
qed

lemma contract_query_sent:
  assumes lib: "client_library E" and q: "contract_query E w r (show_nat i) t = Inr q"
    and small: "length (rc_name r) \<le> 1000000" "i < 2 ^ 31"
  shows "\<exists>dl al. opt_literal (\<lambda>d. e_escapeLiteral E w d 16384) (rc_description r) dl \<and>
    opt_literal (e_escapeBytea E w) (used_attachment (rc_attachment r)) al \<and>
    q = contract_text (rc_name r) dl (price_text (rc_price r)) al (show_nat i) (show_nat (unat t))"
proof -
  let ?v = "used_attachment (rc_attachment r)"
  define dl where "dl = Option.bind (rc_description r) (\<lambda>d. e_escapeLiteral E w d 16384)"
  define al where "al = Option.bind ?v (e_escapeBytea E w)"
  let ?dl = "map_option (\<lambda>d. text_or_empty (e_escapeLiteral E w d 16384)) (rc_description r)"
  have no_desc: "\<not> (\<exists>d. rc_description r = Some d \<and> e_escapeLiteral E w d 16384 = None)"
    using q small(1) unfolding contract_query_eq by (auto simp: before_description_def SQL_insert_prefix_def split: if_splits)
  then have d: "opt_literal (\<lambda>d. e_escapeLiteral E w d 16384) (rc_description r) dl"
    by (auto simp: opt_literal_def dl_def split: option.split)
  have "length (concat (desc_pieces ?dl)) \<le> 32774"
  proof (cases "rc_description r")
    case (Some x)
    with no_desc obtain l where l: "e_escapeLiteral E w x 16384 = Some l" by auto
    from client_library_facts(2) [OF lib l] Some l show ?thesis by (simp add: desc_pieces_def text_or_empty_def)
  qed (simp add: desc_pieces_def)
  then have "length (before_attachment (rc_name r) ?dl (price_text (rc_price r))) < 2097151"
    using small(1) length_price_text [of "rc_price r"] by (simp add: before_attachment_def SQL_insert_prefix_def)
  then have a: "opt_literal (e_escapeBytea E w) ?v al"
    using q unfolding contract_query_eq
    by (cases ?v) (auto simp: opt_literal_def al_def split: if_splits)
  have "length (show_nat i) \<le> 10" using length_show_nat [of i 9] small by simp
  then have "length (contract_text (rc_name r) dl (price_text (rc_price r)) al (show_nat i)
      (time_text t)) < 2097152"
    using small by (intro contract_text_length [OF lib d a]) simp
  with contract_query_refines [OF d a, of "show_nat i" t] q d a show ?thesis
    by (auto simp: time_text_exact)
qed

lemma c_read_copied:
  "cstr s \<Longrightarrow> c_read (strncpy (calloc n) s n) = Inr x \<longleftrightarrow> length s < n \<and> x = s"
  by (cases "length s < n") auto

section \<open>The handlers implement the specification\<close>

lemma db_ok_users: "db_ok t \<Longrightarrow> u \<in> set (users t) \<Longrightarrow> user_row_ok u"
  by (simp add: db_ok_def)

lemma newest_50_subset: "newest_50 ps qs \<Longrightarrow> set qs \<subseteq> set ps"
  unfolding newest_50_def by (metis set_mset_mset set_take_subset)

context tomtom_server
begin

lemma login_serves:
  assumes "request_ok (Req_Login r)" "login E salt w r = Inr (w', a)"
  shows "serves (stored_hash E salt) F (view w) (Req_Login r) a (view w')"
proof -
  let ?h = "stored_hash E salt (lg_password r)"
  let ?us = "filter (\<lambda>u. ur_username u = lg_username r \<and> ur_password u = ?h) (users (view w))"
  obtain w1 res where ex: "e_exec E w (login_statement (lg_username r) ?h) = (w1, res)" by fastforce
  have law: "selects view w (w1, res) (map (\<lambda>u. [Some (ur_token u)]) ?us)"
    using login_law [of "lg_username r" ?h w] ex assms(1)
    by (simp add: rows_login_def stored_hash_def b64_loop_quote_free)
  have reply: "login_reply (w1, res) = Inr (w', a)"
    using assms login_refines [OF client, of r salt w] ex by (simp add: stored_hash_def)
  note v = selects_view [OF law]
  show ?thesis
  proof (cases "PQresultStatus res = PGRES_TUPLES_OK")
    case False
    with reply v show ?thesis by (auto simp: login_reply_def)
  next
    case ok: True
    show ?thesis
    proof (cases "PQntuples res = 0")
      case True
      with selects_count [OF law ok] have "?us = []" by simp
      with True ok reply v show ?thesis by (auto simp: login_reply_def filter_empty_conv)
    next
      case False
      then obtain u where u: "u \<in> set ?us" "PQtuples res ! 0 = [Some (ur_token u)]"
        using selects_first [OF law ok] by auto
      with False ok reply have "w' = w1" "a = ok_response (Res_Login (ur_token u))"
        by (auto simp: login_reply_def first_row_values)
      with u v show ?thesis by auto
    qed
  qed
qed

lemma register_serves:
  assumes "register E salt w r = Inr (w', a)"
  shows "serves (stored_hash E salt) F (view w) (Req_Register r) a (view w')"
proof -
  obtain w1 tok where a: "access_token E w = (w1, tok)" by fastforce
  then have v: "view w1 = view w" and tok: "length tok = 32"
    using access_token_view [of w] length_access_token [OF crypto, of w] by simp_all
  let ?h = "stored_hash E salt (rg_password r)"
  obtain w2 res where ex: "e_execParams E w1 SQL_register
      [rg_username r, ?h, rg_firstName r, rg_lastName r, b64_loop tok] = (w2, res)" by fastforce
  have fresh: "fresh_token (b64_loop tok)" using tok by (auto simp: fresh_token_def)
  from assms a tok ex crypto have
    "w' = w2 \<and> (if PQresultStatus res = PGRES_COMMAND_OK then a = ok_response (Res_Register (b64_loop tok))
      else (\<exists>m. a = error_response m))"
    by (auto simp: register_def stored_hash_def split: if_splits)
  with register_law [OF ex] v fresh show ?thesis
    by (auto simp: refused_def split: if_splits)
qed

lemma get_me_serves:
  assumes "get_me E w r = Inr (w', a)"
  shows "serves H F (view w) (Req_GetMe r) a (view w')"
proof -
  obtain w1 res where ex: "e_execParams E w SQL_get_me [gm_token r] = (w1, res)" by fastforce
  have law: "selects view w (w1, res)
      (map (\<lambda>u. [Some (ur_username u), Some (ur_password u), Some (ur_firstname u),
               Some (ur_lastname u), Some (bool_text (ur_admin u))]) (with_token (view w) (gm_token r)))"
    using get_me_law [of w "gm_token r"] ex by (simp add: rows_get_me_def)
  note v = selects_view [OF law]
  show ?thesis
  proof (cases "PQresultStatus res = PGRES_TUPLES_OK \<and> 0 < PQntuples res")
    case False
    with assms ex v show ?thesis by (auto simp: get_me_def refused_def split: if_splits)
  next
    case True
    then obtain u where u: "u \<in> set (with_token (view w) (gm_token r))"
      "PQtuples res ! 0 = [Some (ur_username u), Some (ur_password u), Some (ur_firstname u),
               Some (ur_lastname u), Some (bool_text (ur_admin u))]"
      using selects_first [OF law] by blast
    from True have pos: "0 < PQntuples res" by simp
    note cells = first_row_values [OF pos u(2)]
    from assms ex True have "w' = w1 \<and> a = ok_response (Res_GetMe (me_view u))"
      by (auto simp: get_me_def cells me_view_def first_char_def bool_text_def)
    with u v show ?thesis by (auto simp: with_token_def)
  qed
qed

lemma literals_edit_world: "literals E (edit_world E w r) cs = literals E w cs"
  "e_escapeLiteral E (edit_world E w r) = e_escapeLiteral E w"
proof -
  show esc: "e_escapeLiteral E (edit_world E w r) = e_escapeLiteral E w"
    using client_library_facts(4) [OF client, of w] by (simp add: edit_world_def)
  show "literals E (edit_world E w r) cs = literals E w cs"
    by (induction cs) (auto simp: esc split: option.splits)
qed

lemma edit_columns_ok:
  assumes "request_ok (Req_EditMe r)" "opt_cstr nt"
  shows "columns_ok (edit_columns E salt r nt)"
  using assms
  by (auto simp: columns_ok_def edit_columns_def opt_column_def edit_limits_def b64_loop_safe
      opt_cstr_def split: option.splits dest: sym)

lemma edit_me_serves:
  assumes ok: "request_ok (Req_EditMe r)" and run: "edit_me E salt w r = Inr (w', a)"
  shows "serves (stored_hash E salt) F (view w) (Req_EditMe r) a (view w')"
proof -
  let ?nt = "edit_new_token E w r"
  let ?cs = "edit_columns E salt r ?nt"
  let ?w1 = "edit_world E w r"
  from run obtain ls wl where ls: "literals E w ?cs = Some ls"
    and wl: "e_escapeLiteral E w (em_token r) 128 = Some wl"
    using edit_me_escape_fails [OF client, of w salt r] by fastforce
  obtain w2 res where ex: "e_exec E ?w1 (update_text (em_admin r) ls wl) = (w2, res)" by fastforce
  have reply: "edit_reply ?nt (em_token r) (w2, res) = Inr (w', a)"
    using run edit_me_refines [OF client ls wl] ex by simp
  have v: "view ?w1 = view w" by (simp add: edit_world_def)
  have nt: "opt_cstr ?nt" by (simp add: edit_new_token_def b64_loop_safe)
  have law: "if PQresultStatus res = PGRES_COMMAND_OK
    then view w2 = edit_effect (stored_hash E salt) r ?nt (view w) \<and>
      distinct (map ur_username (users (view w2)))
    else view w2 = view w"
    using update_law [where w = ?w1 and cs = ?cs and tok = "em_token r", OF _ _ _ _ refl ex]
      edit_columns_ok [OF ok nt, where salt = salt] ok ls wl v
    by (auto simp: literals_edit_world edit_effect_def edit_columns_edited split: if_splits)
  show ?thesis
  proof (cases "PQresultStatus res = PGRES_COMMAND_OK")
    case False
    with reply law show ?thesis by (auto simp: edit_reply_def refused_def)
  next
    case True
    show ?thesis
    proof (cases "regenerates r")
      case regen: True
      then obtain s where s: "?nt = Some s" "fresh_token s" "cstr s"
        using fresh_token_access [OF crypto, of w] by (auto simp: edit_new_token_def b64_loop_safe)
      with True reply law regen show ?thesis by (auto simp: edit_reply_def)
    next
      case keep: False
      then have nt: "?nt = None" by (simp add: edit_new_token_def)
      from ok have "cstr (em_token r)" by simp
      then have "length (em_token r) < 32"
        using True reply nt c_read_strncpy_full [of "em_token r" 32]
        by (cases "length (em_token r) < 32") (auto simp: edit_reply_def)
      with True reply law keep nt \<open>cstr (em_token r)\<close> show ?thesis by (auto simp: edit_reply_def)
    qed
  qed
qed

lemma check_contract_serves:
  assumes ok: "db_ok (view w)" and run: "check_contract E w r = Inr (w', a)"
  shows "serves H F (view w) (Req_CheckContract r) a (view w')"
proof -
  let ?k = "sint (ck_id r)"
  have k: "- (2 ^ 63) \<le> ?k" "?k < 2 ^ 63"
    using sint_greater_eq [of "ck_id r"] sint_less [of "ck_id r"] by simp_all
  then have "nat (- ?k) < 10 ^ Suc 19" "nat ?k < 10 ^ Suc 19" by (simp_all add: nat_less_iff)
  then have "length (show_nat (nat (- ?k))) \<le> 20" "length (show_nat (nat ?k)) \<le> 20"
    using length_show_nat by fastforce+
  then have "length (show_int ?k) < 32" by (simp add: show_int_def)
  then have fits: "snprintf_text 32 (show_int ?k) = show_int ?k" by simp
  obtain w1 res where ex: "e_execParams E w SQL_check_contract [show_int ?k] = (w1, res)" by fastforce
  have law: "selects view w (w1, res) (map (row_contract bytea_text) (joined_by_id ?k (view w)))"
    using check_law [of ?k w] ex k by (simp add: long_min_def long_max_def)
  note v = selects_view [OF law]
  show ?thesis
  proof (cases "PQresultStatus res = PGRES_TUPLES_OK \<and> 0 < PQntuples res")
    case False
    with run ex v fits show ?thesis
      by (auto simp: check_contract_def refused_def split: if_splits)
  next
    case True
    then obtain p where p: "p \<in> set (joined_by_id ?k (view w))"
      "PQtuples res ! 0 = row_contract bytea_text p"
      using selects_first [OF law] by blast
    obtain c u where cu: "p = (c, u)" by fastforce
    with p have c: "c \<in> set (contracts (view w))" "int (cr_id c) = ?k" "p \<in> set (joined (view w))"
      by (auto simp: joined_by_id_def joined_def)
    with ok have "contract_row_ok c" by (auto simp: db_ok_def)
    with True p cu have "contract_of_row E res 0 = Inr (contract_view p)"
      by (auto intro!: contract_of_row_view simp: PQntuples_def unescape)
    with run ex fits True have "w' = w1 \<and> a = ok_response (Res_CheckContract (contract_view p))"
      by (auto simp: check_contract_def)
    with v c cu show ?thesis unfolding serves.simps
      by (intro disjI2 conjI bexI [of _ p]) auto
  qed
qed

lemma joined_ok:
  "db_ok t \<Longrightarrow> (c, u) \<in> set (joined t) \<Longrightarrow> contract_row_ok c \<and> u \<in> set (users t) \<and> cr_user c = ur_id u"
  by (auto simp: joined_def db_ok_def)

lemma lists_contracts:
  assumes ok: "db_ok (view w)" and law: "lists view bytea_text w (w1, res) ps"
    and ps: "set ps \<subseteq> set (joined (view w))" and st: "PQresultStatus res = PGRES_TUPLES_OK"
  obtains qs where "newest_50 ps qs"
    "contracts_of_rows E res [0..<PQntuples res] = Inr (map contract_view qs)"
proof -
  from law st obtain qs where qs: "newest_50 ps qs" "PQtuples res = map (row_contract bytea_text) qs"
    by (auto simp: lists_def)
  have "\<forall>(c, u) \<in> set qs. contract_row_ok c"
    using newest_50_subset [OF qs(1)] ps joined_ok [OF ok] by blast
  from contracts_of_all_rows [OF qs(2) unescape this] qs(1) that show ?thesis by blast
qed

lemma user_id_text:
  assumes "user_row_ok u"
  shows "c_read (strncpy (calloc 128) (show_nat (ur_id u)) 128) = Inr (show_nat (ur_id u))"
    "ur_id u < 2 ^ 31"
proof -
  show i: "ur_id u < 2 ^ 31" using assms by (simp add: user_row_ok_def)
  then have "length (show_nat (ur_id u)) \<le> 10" using length_show_nat [of "ur_id u" 9] by simp
  then show "c_read (strncpy (calloc 128) (show_nat (ur_id u)) 128) = Inr (show_nat (ur_id u))" by simp
qed

lemma row_of_selects:
  assumes "selects view w (w', res) (map f (with_token (view w) tok))"
  shows "row_of f (set (users (view w))) tok res"
  unfolding row_of_def
proof (intro impI)
  assume "PQresultStatus res = PGRES_TUPLES_OK" "0 < PQntuples res"
  from selects_first [OF assms this] obtain u where "u \<in> set (with_token (view w) tok)" "PQtuples res ! 0 = f u" .
  then show "\<exists>u \<in> set (users (view w)). ur_token u = tok \<and> PQtuples res ! 0 = f u"
    by (auto simp: with_token_def)
qed

lemma list_answer_serves:
  assumes ok: "db_ok (view w)" and row: "row_of admin_row us (lc_token r) res"
    and us: "\<And>u. u \<in> us \<Longrightarrow> user_row_ok u"
    and run: "list_answer E (w, res) = Inr (w', a)"
  shows "listed us (view w) r a (view w')"
proof (cases "PQresultStatus res = PGRES_TUPLES_OK \<and> 0 < PQntuples res")
  case False
  with run show ?thesis by (auto simp: list_answer_def listed_def refused_def split: if_splits)
next
  case True
  with row obtain u where u: "u \<in> us" "ur_token u = lc_token r" "PQtuples res ! 0 = admin_row u"
    by (auto simp: row_of_def)
  from True have pos: "0 < PQntuples res" by simp
  note cells = first_row_values [OF pos u(3) [unfolded admin_row_def]]
  define ps where "ps = (if ur_admin u then joined (view w) else joined_of_user (ur_id u) (view w))"
  obtain w2 res2 where ex2: "(if ur_admin u then e_exec E w SQL_list_all
      else e_execParams E w SQL_list_own [show_nat (ur_id u)]) = (w2, res2)" by fastforce
  have law2: "lists view bytea_text w (w2, res2) ps"
    using list_all_law [of w] list_own_law [OF user_id_text(2) [OF us [OF u(1)]], of w] ex2
    by (auto simp: ps_def split: if_splits)
  then have v2: "view w2 = view w" by (simp add: lists_def)
  have first: "(first_char (bool_text b) = CHR ''t'') = b" for b
    by (simp add: first_char_def bool_text_def)
  have rest: "and_then
    (if first_char (bool_text (ur_admin u)) = CHR ''t'' then Inr (e_exec E w SQL_list_all)
     else and_then (c_read (strncpy (calloc 128) (show_nat (ur_id u)) 128)) (\<lambda>user_id.
       Inr (e_execParams E w SQL_list_own [user_id]))) g = g (w2, res2)" for g
    using ex2 by (auto simp: first user_id_text [OF us [OF u(1)]])
  from run True have run': "(if PQresultStatus res2 \<noteq> PGRES_TUPLES_OK
      then Inr (w2, error_response (PQresultErrorMessage res2))
      else and_then (contracts_of_rows E res2 [0..<PQntuples res2]) (\<lambda>cs.
        Inr (w2, ok_response (Res_ListContracts cs)))) = Inr (w', a)"
    by (simp add: list_answer_def cells rest)
  show ?thesis
  proof (cases "PQresultStatus res2 = PGRES_TUPLES_OK")
    case False
    with run' v2 show ?thesis by (auto simp: listed_def refused_def)
  next
    case st: True
    have "set ps \<subseteq> set (joined (view w))" by (auto simp: ps_def joined_of_user_def)
    from lists_contracts [OF ok law2 this st] obtain qs where qs: "newest_50 ps qs"
      "contracts_of_rows E res2 [0..<PQntuples res2] = Inr (map contract_view qs)" by auto
    with run' st have "w' = w2 \<and> a = ok_response (Res_ListContracts (map contract_view qs))" by simp
    with qs(1) u(1,2) v2 show ?thesis unfolding ps_def listed_def
      by (intro disjI2 conjI bexI [of _ u] exI [of _ qs]) auto
  qed
qed

lemma user_admin_row:
  assumes "e_execParams E w SQL_user_admin [tok] = (w1, res)"
  shows "view w1 = view w" "row_of admin_row (set (users (view w))) tok res"
proof -
  have "selects view w (w1, res) (map admin_row (with_token (view w) tok))"
    using user_admin_law [of w tok] assms by (simp add: rows_user_admin_def admin_row_def [abs_def])
  from selects_view [OF this] row_of_selects [OF this]
  show "view w1 = view w" "row_of admin_row (set (users (view w))) tok res" .
qed

lemma list_contracts_serves:
  assumes ok: "db_ok (view w)" and run: "list_contracts E w r = Inr (w', a)"
  shows "serves H F (view w) (Req_ListContracts r) a (view w')"
proof -
  obtain w1 res where ex: "e_execParams E w SQL_user_admin [lc_token r] = (w1, res)" by fastforce
  note row = user_admin_row [OF ex]
  have rest: "list_answer E (w1, res) = Inr (w', a)" using run ex by (simp add: list_contracts_def)
  from list_answer_serves [OF _ row(2) db_ok_users [OF ok] rest] ok show ?thesis
    unfolding serves_listed row(1) by blast
qed

lemma contract_insert_serves:
  assumes ok: "request_ok (Req_RequestContract r)" and row: "row_of name_row us (rc_token r) res"
    and us: "\<And>u. u \<in> us \<Longrightarrow> user_row_ok u"
    and run: "contract_insert E r (w, res) = Inr (w', a)"
  shows "requested float_text us (view w) r a (view w')"
proof (cases "PQresultStatus res = PGRES_TUPLES_OK \<and> 0 < PQntuples res")
  case False
  with run show ?thesis by (auto simp: contract_insert_def requested_def refused_def split: if_splits)
next
  case True
  with row obtain u where u: "u \<in> us" "ur_token u = rc_token r" "PQtuples res ! 0 = name_row u"
    by (auto simp: row_of_def)
  from True have pos: "0 < PQntuples res" by simp
  note cells = first_row_values [OF pos u(3) [unfolded name_row_def]]
  let ?t = "e_time E w"
  let ?uid = "show_nat (ur_id u)"
  let ?vec = "used_attachment (rc_attachment r)"
  from us [OF u(1)] have cs: "cstr (ur_username u)" "cstr (ur_firstname u)" "cstr (ur_lastname u)"
    by (auto simp: user_row_ok_def)
  show ?thesis
  proof (cases "is_negative (rc_price r)")
    case neg: True
    with run True show ?thesis by (auto simp: contract_insert_def cells Let_def requested_def refused_def)
  next
    case pos: False
    from run True pos obtain q where q: "contract_query E w r ?uid ?t = Inr q"
      by (auto simp: contract_insert_def cells Let_def and_then_Inr_iff)
    from contract_query_sent [OF client q] user_id_text(2) [OF us [OF u(1)]] ok
    obtain dl al where lits:
      "opt_literal (\<lambda>d. e_escapeLiteral E w d 16384) (rc_description r) dl"
      "opt_literal (e_escapeBytea E w) ?vec al"
      "q = contract_text (rc_name r) dl (price_text (rc_price r)) al ?uid (show_nat (unat ?t))"
      by auto
    obtain w2 res2 where ex2: "e_exec E w q = (w2, res2)" by fastforce
    have law2: "if PQresultStatus res2 = PGRES_TUPLES_OK
     then numeric_literal (price_text (rc_price r)) \<and>
       (\<exists>i. PQtuples res2 = [[Some (show_nat i)]] \<and>
         contract_inserted (rc_name r) (map_option (take 16384) (rc_description r))
           (float_text (price_text (rc_price r))) ?vec (ur_id u) (unat ?t) i (view w) (view w2))
     else view w2 = view w"
      using insert_law [OF _ lits(1) _ lits(2) ex2 [unfolded lits(3)]] ok
      by (simp add: opt_cstr_def)
    show ?thesis
    proof (cases "PQresultStatus res2 = PGRES_TUPLES_OK")
      case False
      with run True pos q ex2 law2 show ?thesis
        by (auto simp: contract_insert_def contract_reply_def cells Let_def requested_def refused_def)
    next
      case st: True
      with law2 obtain i where i: "PQtuples res2 = [[Some (show_nat i)]]"
        and ins: "contract_inserted (rc_name r) (map_option (take 16384) (rc_description r))
           (float_text (price_text (rc_price r))) ?vec (ur_id u) (unat ?t) i (view w) (view w2)"
        and num: "numeric_literal (price_text (rc_price r))"
        by auto
      from ins have "atol (show_nat i) = int i"
        by (auto simp: contract_inserted_def intro!: atol_show_nat)
      moreover have "PQgetvalue res2 0 0 = Some (show_nat i)" by (simp add: PQgetvalue_def i)
      ultimately have "w' = w2 \<and> a = ok_response (Res_RequestContract (new_contract r u i (unat ?t)))"
        using run True pos q ex2 st cs
        by (auto simp: contract_insert_def contract_reply_def new_contract_def cells Let_def and_then_Inr_iff c_read_copied)
      with u(1,2) pos num ins show ?thesis unfolding requested_def
        by (intro disjI2 bexI [of _ u] exI [of _ i] exI [of _ "unat ?t"]) auto
    qed
  qed
qed

lemma user_by_token_row:
  assumes "e_execParams E w SQL_user_by_token [tok] = (w1, res)"
  shows "view w1 = view w" "row_of name_row (set (users (view w))) tok res"
proof -
  have "selects view w (w1, res) (map name_row (with_token (view w) tok))"
    using user_by_token_law [of w tok] assms by (simp add: rows_user_by_token_def name_row_def [abs_def])
  from selects_view [OF this] row_of_selects [OF this]
  show "view w1 = view w" "row_of name_row (set (users (view w))) tok res" .
qed

lemma request_contract_serves:
  assumes ok: "db_ok (view w)" "request_ok (Req_RequestContract r)"
    and run: "request_contract E w r = Inr (w', a)"
  shows "serves H float_text (view w) (Req_RequestContract r) a (view w')"
proof -
  obtain w1 res where ex: "e_execParams E w SQL_user_by_token [rc_token r] = (w1, res)" by fastforce
  note row = user_by_token_row [OF ex]
  have rest: "contract_insert E r (w1, res) = Inr (w', a)" using run ex by (simp add: request_contract_def)
  from contract_insert_serves [OF ok(2) row(2) db_ok_users [OF ok(1)] rest] show ?thesis
    unfolding serves_requested row(1) by blast
qed

theorem dispatch_serves:
  assumes "db_ok (view w)" "request_ok req" "dispatch E salt w req = Inr (w', Some a)"
  shows "serves (stored_hash E salt) float_text (view w) req a (view w')"
  using assms(3) login_serves register_serves get_me_serves edit_me_serves assms(1,2)
    request_contract_serves list_contracts_serves check_contract_serves
  by (cases req) (auto simp: with_response_def and_then_Inr_iff simp del: serves.simps request_ok.simps)

end

end
