(* ===== verification/Machine.thy ===== *)
theory Machine
  imports Main
begin

text \<open>
  Transition systems: the states reachable from the start states, and the interface of a
  system with an invariant. The HTTP transaction and the database under a stream of
  requests are the two systems of the development.
\<close>

inductive reaches :: "('s \<Rightarrow> bool) \<Rightarrow> ('s \<Rightarrow> 'a \<Rightarrow> 's \<Rightarrow> bool) \<Rightarrow> 's \<Rightarrow> bool"
  for start :: "'s \<Rightarrow> bool" and step :: "'s \<Rightarrow> 'a \<Rightarrow> 's \<Rightarrow> bool" where
  reaches_start: "start s \<Longrightarrow> reaches start step s"
| reaches_step: "reaches start step s \<Longrightarrow> step s a s' \<Longrightarrow> reaches start step s'"

locale safe_machine =
  fixes start :: "'s \<Rightarrow> bool" and step :: "'s \<Rightarrow> 'a \<Rightarrow> 's \<Rightarrow> bool" and inv :: "'s \<Rightarrow> bool"
  assumes inv_start: "start s \<Longrightarrow> inv s"
    and inv_step: "inv s \<Longrightarrow> step s a s' \<Longrightarrow> inv s'"
begin

lemma reaches_inv: "reaches start step s \<Longrightarrow> inv s"
  by (induction rule: reaches.induct) (auto intro: inv_start inv_step)

end

end
