(* ===== verification/System.thy ===== *)
theory System
  imports Service Machine
begin

text \<open>
  The database under an arbitrary stream of requests, from the empty tables that \<open>main\<close>
  creates. The invariant: the constraints of the schema hold, every stored password is the
  hash of some password and every stored token is the encoding of 32 random bytes.
\<close>

section \<open>The invariant\<close>

definition hygienic :: "(string \<Rightarrow> string) \<Rightarrow> user_row \<Rightarrow> bool" where
  "hygienic H u \<longleftrightarrow> fresh_token (ur_token u) \<and> ur_password u \<in> range H"

definition app_inv :: "(string \<Rightarrow> string) \<Rightarrow> tables \<Rightarrow> bool" where
  "app_inv H t \<longleftrightarrow> db_ok t \<and> (\<forall>u \<in> set (users t). hygienic H u)"

definition hash_ok :: "(string \<Rightarrow> string) \<Rightarrow> bool" where
  "hash_ok H \<longleftrightarrow> (\<forall>p. cstr (H p) \<and> length (H p) = 88)"

lemma hash_ok_stored: "crypto_sizes E \<Longrightarrow> hash_ok (stored_hash E salt)"
  by (simp add: hash_ok_def stored_hash_def b64_loop_safe length_encoded_hash)

lemma fresh_token_facts:
  assumes "fresh_token s"
  shows "cstr s" "length s = 44"
  using assms by (auto simp: fresh_token_def b64_loop_safe length_b64_loop)

lemma cstr_varchar:
  assumes "varchar n s = Some s'" "cstr s"
  shows "cstr s'"
proof (cases "char_count s \<le> n")
  case True
  with assms show ?thesis by (simp add: varchar_def)
next
  case False
  from varchar_long [OF assms(1) False] assms(2) show ?thesis by (metis cstr_simps(3))
qed

lemma varchar_id: "length s \<le> n \<Longrightarrow> varchar n s = Some s"
  using char_count_le [of s] by (simp add: varchar_short)

lemma user_inserted_inv:
  assumes ins: "user_inserted u (H p) f l tok t t'" and inv: "app_inv H t" and H: "hash_ok H"
    and tok: "fresh_token tok" and cs: "cstr u" "cstr f" "cstr l"
  shows "app_inv H t'"
proof -
  have p: "varchar 128 (H p) = Some (H p)" "varchar 128 tok = Some tok"
    using H fresh_token_facts [OF tok] by (simp_all add: varchar_id hash_ok_def)
  with ins obtain i u' f' l' where
    v: "varchar 64 u = Some u'" "varchar 32 f = Some f'" "varchar 32 l = Some l'"
    and new: "i < 2 ^ 31" "i \<notin> ur_id ` set (users t)" "u' \<notin> ur_username ` set (users t)"
    and t': "t' = insert_user i u' (H p) f' l' tok t"
    unfolding user_inserted_def by auto
  have "db_ok t'" unfolding t'
    using inv new char_count_varchar [OF v(1)] char_count_varchar [OF v(2)] char_count_varchar [OF v(3)]
      char_count_varchar [OF p(1)] char_count_varchar [OF p(2)] cstr_varchar [OF v(1) cs(1)]
      cstr_varchar [OF v(2) cs(2)] cstr_varchar [OF v(3) cs(3)] H fresh_token_facts [OF tok]
    by (intro db_ok_insert_user) (simp_all add: app_inv_def hash_ok_def)
  with inv tok show ?thesis by (auto simp: app_inv_def t' insert_user_def hygienic_def)
qed

lemma contract_inserted_inv:
  assumes "contract_inserted n d p v user ca i t t'" "app_inv H t"
  shows "app_inv H t'"
proof -
  from assms(1) obtain n' where n: "varchar 64 n = Some n'" "i < 2 ^ 31" "i \<notin> cr_id ` set (contracts t)"
    "user \<in> ur_id ` set (users t)" "ca < 2 ^ 63" "t' = insert_contract i n' d p v user ca t"
    unfolding contract_inserted_def by auto
  with assms(2) char_count_varchar [OF n(1)] have "db_ok t'"
    by (auto intro!: db_ok_insert_contract simp: app_inv_def)
  with assms(2) n show ?thesis by (auto simp: app_inv_def insert_contract_def)
qed

section \<open>Editing a row\<close>

lemma char_count_take: "char_count (take n s) \<le> n"
  using char_count_le [of "take n s"] by simp

text \<open>A column and its value fit the row.\<close>

definition good_column :: "(string \<Rightarrow> string) \<Rightarrow> string \<times> string \<Rightarrow> bool" where
  "good_column H cv \<longleftrightarrow> cstr (snd cv) \<and>
     (\<exists>n. (fst cv, n) \<in> set edit_limits \<and> char_count (snd cv) \<le> n) \<and>
     (fst cv = ''password'' \<longrightarrow> snd cv \<in> range H) \<and> (fst cv = ''token'' \<longrightarrow> fresh_token (snd cv))"

lemma set_column_ok:
  assumes "good_column H cv" "user_row_ok u" "hygienic H u"
  shows "user_row_ok (set_column cv u)" "hygienic H (set_column cv u)"
  using assms by (auto simp: good_column_def set_column_def Let_def user_row_ok_def hygienic_def edit_limits_def)

lemma fold_set_column_ok:
  assumes "\<forall>cv \<in> set cols. good_column H cv" "user_row_ok u" "hygienic H u"
  shows "user_row_ok (fold set_column cols u) \<and> hygienic H (fold set_column cols u)"
  using assms
proof (induction cols arbitrary: u)
  case (Cons cv cols)
  from Cons.prems have "user_row_ok (set_column cv u)" "hygienic H (set_column cv u)"
    using set_column_ok [of H cv u] by simp_all
  with Cons show ?case by simp
qed simp

lemma column_values_opt:
  "cv \<in> set (column_values (opt_column c n v)) \<longleftrightarrow> (\<exists>s. v = Some s \<and> cv = (c, take n s))"
  by (cases v) (auto simp: column_values_def opt_column_def)

lemma column_values_append: "column_values (as @ bs) = column_values as @ column_values bs"
  by (simp add: column_values_def)

lemma good_name_column:
  "(c, n) \<in> {(''username'', 64), (''firstname'', 32), (''lastname'', 32)} \<Longrightarrow> cstr s \<Longrightarrow>
   good_column H (c, take n s)"
  using cstr_take [of s n] char_count_take [of n s]
  by (elim insertE) (simp_all add: good_column_def edit_limits_def)

lemma edited_columns_good:
  assumes H: "hash_ok H" and ok: "request_ok (Req_EditMe r)"
    and nt: "\<And>s. nt = Some s \<Longrightarrow> fresh_token s"
  shows "\<forall>cv \<in> set (column_values (edited_columns H r nt)). good_column H cv"
proof -
  have p: "good_column H (''password'', take 128 (H p))" for p
  proof -
    have "length (H p) = 88" "cstr (H p)" using H by (simp_all add: hash_ok_def)
    moreover from this have "take 128 (H p) = H p" by simp
    ultimately show ?thesis
      using char_count_le [of "H p"] by (simp add: good_column_def edit_limits_def)
  qed
  have tok: "good_column H (''token'', take 128 s)" if "nt = Some s" for s
  proof -
    note s = fresh_token_facts [OF nt [OF that]]
    then have "take 128 s = s" by simp
    then show ?thesis
      using s nt [OF that] char_count_le [of s] by (simp add: good_column_def edit_limits_def)
  qed
  show ?thesis
  proof
    fix cv assume "cv \<in> set (column_values (edited_columns H r nt))"
    then have cases: "(\<exists>s. em_username r = Some s \<and> cv = (''username'', take 64 s)) \<or>
      (\<exists>s. map_option H (em_password r) = Some s \<and> cv = (''password'', take 128 s)) \<or>
      (\<exists>s. em_firstName r = Some s \<and> cv = (''firstname'', take 32 s)) \<or>
      (\<exists>s. em_lastName r = Some s \<and> cv = (''lastname'', take 32 s)) \<or>
      (\<exists>s. nt = Some s \<and> cv = (''token'', take 128 s))"
      by (simp only: edited_columns_def column_values_append column_values_opt set_append Un_iff)
    have name: "good_column H cv" if "(c, n) \<in> {(''username'', 64), (''firstname'', 32), (''lastname'', 32)}"
      "opt_cstr v" "v = Some s" "cv = (c, take n s)" for c n v s
      using good_name_column [of c n s H] that by simp
    from ok have cs: "opt_cstr (em_username r)" "opt_cstr (em_firstName r)" "opt_cstr (em_lastName r)"
      by simp_all
    from cases show "good_column H cv"
    proof (elim disjE exE conjE)
      fix s assume "em_username r = Some s" "cv = (''username'', take 64 s)"
      then show ?thesis by (intro name [OF _ cs(1)]) simp_all
    next
      fix s assume "map_option H (em_password r) = Some s" "cv = (''password'', take 128 s)"
      then show ?thesis using p by auto
    next
      fix s assume "em_firstName r = Some s" "cv = (''firstname'', take 32 s)"
      then show ?thesis by (intro name [OF _ cs(2)]) simp_all
    next
      fix s assume "em_lastName r = Some s" "cv = (''lastname'', take 32 s)"
      then show ?thesis by (intro name [OF _ cs(3)]) simp_all
    next
      fix s assume "nt = Some s" "cv = (''token'', take 128 s)"
      then show ?thesis using tok by simp
    qed
  qed
qed

lemma edit_effect_inv:
  assumes H: "hash_ok H" and ok: "request_ok (Req_EditMe r)" and inv: "app_inv H t"
    and nt: "\<And>s. nt = Some s \<Longrightarrow> fresh_token s"
    and dist: "distinct (map ur_username (users (edit_effect H r nt t)))"
  shows "app_inv H (edit_effect H r nt t)"
proof -
  have row: "user_row_ok u' \<and> hygienic H u'" if "u' \<in> set (users (edit_effect H r nt t))" for u'
  proof -
    from that obtain u where u: "u \<in> set (users t)"
      "u' = u \<or> u' = update_user (em_admin r) (column_values (edited_columns H r nt)) u"
      by (auto simp: edit_effect_def update_users_def split: if_splits)
    with inv have "user_row_ok u" "hygienic H u" by (auto simp: app_inv_def db_ok_def)
    then have "user_row_ok (u\<lparr>ur_admin := em_admin r\<rparr>)" "hygienic H (u\<lparr>ur_admin := em_admin r\<rparr>)"
      by (simp_all add: user_row_ok_def hygienic_def)
    from fold_set_column_ok [OF edited_columns_good [OF H ok nt] this] u(2)
      \<open>user_row_ok u\<close> \<open>hygienic H u\<close> show ?thesis by (auto simp: update_user_def)
  qed
  then have "db_ok (edit_effect H r nt t)"
    using inv dist unfolding edit_effect_def by (intro db_ok_update_users) (auto simp: app_inv_def)
  with row show ?thesis by (auto simp: app_inv_def)
qed

lemma serves_inv:
  assumes "serves H F t req a t'" "app_inv H t" "hash_ok H" "request_ok req"
  shows "app_inv H t'"
proof (cases req)
  case (Req_Register r)
  with assms show ?thesis by (auto simp: refused_def intro: user_inserted_inv)
next
  case (Req_EditMe r)
  with assms(1) consider "t' = t" | nt where "t' = edit_effect H r nt t"
    "distinct (map ur_username (users t'))" "\<And>s. nt = Some s \<Longrightarrow> fresh_token s"
    by (auto simp: refused_def split: if_splits)
  then show ?thesis
    using assms(2-4) Req_EditMe by cases (auto intro: edit_effect_inv)
next
  case (Req_RequestContract r)
  with assms show ?thesis by (auto simp: refused_def intro: contract_inserted_inv)
qed (use assms in \<open>auto simp: refused_def\<close>)

section \<open>The stream of requests\<close>

text \<open>One step: a session whose complete body is \<open>buf\<close> is processed. The body is any byte
  sequence; \<open>ok\<close> says which requests it may hold.\<close>

inductive handled ::
  "'w env \<Rightarrow> codec \<Rightarrow> string \<Rightarrow> (request \<Rightarrow> bool) \<Rightarrow> 'w \<Rightarrow> u8 list \<Rightarrow> 'w \<Rightarrow> bool"
  for E :: "'w env" and C :: codec and salt :: string and ok :: "request \<Rightarrow> bool" where
  handled_buffer: "pss_data p = Some d \<Longrightarrow> buf = take (pss_data_len p) d \<Longrightarrow>
     (\<And>req. fb_message C buf = Inr req \<Longrightarrow> ok req) \<Longrightarrow> process E C salt w p = Inr (w', p') \<Longrightarrow>
     handled E C salt ok w buf w'"

lemma process_world:
  assumes "process E C salt w p = Inr (w', p')" "pss_data p = Some d"
  shows "w' = w \<or> (\<exists>req reply. fb_message C (take (pss_data_len p) d) = Inr req \<and> dispatch E salt w req = Inr (w', reply))"
  using assms by (auto simp: process_def Let_def and_then_Inr_iff split: if_splits)

lemma dispatch_silent: "dispatch E salt w req = Inr (w', None) \<Longrightarrow> w' = w"
  by (cases req) (auto simp: with_response_def and_then_Inr_iff)

lemma app_inv_empty: "app_inv H empty_tables"
  by (simp add: app_inv_def db_ok_empty) (simp add: empty_tables_def)

context tomtom_server
begin

lemma dispatch_inv:
  assumes "app_inv (stored_hash E salt) (view w)" "request_ok req" "dispatch E salt w req = Inr (w', reply)"
  shows "app_inv (stored_hash E salt) (view w')"
proof (cases reply)
  case None
  with assms dispatch_silent show ?thesis by metis
next
  case (Some a)
  with assms dispatch_serves have "serves (stored_hash E salt) float_text (view w) req a (view w')"
    by (simp add: app_inv_def)
  from serves_inv [OF this assms(1) hash_ok_stored [OF crypto] assms(2)] show ?thesis .
qed

lemma handled_inv:
  assumes "app_inv (stored_hash E salt) (view w)" "handled E C salt request_ok w buf w'"
  shows "app_inv (stored_hash E salt) (view w')"
  using assms(2)
proof (cases rule: handled.cases)
  case (handled_buffer p d p')
  from process_world [OF handled_buffer(4,1)] assms(1) handled_buffer(2,3) show ?thesis
    by (auto intro: dispatch_inv)
qed

end

sublocale tomtom_server \<subseteq> stream: safe_machine "\<lambda>w. view w = empty_tables" "handled E C salt request_ok"
    "\<lambda>w. app_inv (stored_hash E salt) (view w)" for C salt
  by unfold_locales (simp_all add: app_inv_empty handled_inv)

context tomtom_server
begin

lemma reachable_inv:
  "reaches (\<lambda>w. view w = empty_tables) (handled E C salt request_ok) w \<Longrightarrow> app_inv (stored_hash E salt) (view w)"
  by (rule stream.reaches_inv)

end

end
