(* ===== verification/Reference_Server.thy ===== *)
theory Reference_Server
  imports System
begin

text \<open>
  A provider of the contract of \<open>Server\<close>: an engine that reads the statements back with an
  SQL scanner and executes them on the tables. It shows that the contract can be met, for
  every statement that the handlers send, and lets the witnesses run whole requests.
\<close>

section \<open>Reading a statement\<close>

fun strip :: "string \<Rightarrow> string \<Rightarrow> string option" where
  "strip [] s = Some s"
| "strip (p # ps) [] = None"
| "strip (p # ps) (c # cs) = (if p = c then strip ps cs else None)"

lemma strip_prefix [simp]: "strip p (p @ s) = Some s"
  by (induction p) simp_all

lemma strip_self [simp]: "strip p p = Some []"
  using strip_prefix [of p "[]"] by simp

definition quoted :: "string \<Rightarrow> string" where
  "quoted v = sq @ double_quotes v @ sq"

definition read_literal :: "string \<Rightarrow> (string \<times> string) option" where
  "read_literal s = Option.bind (strip sq s) scan_string"

lemma read_quoted [simp]:
  "rest = [] \<or> hd rest \<noteq> CHR 0x27 \<Longrightarrow> read_literal (quoted v @ rest) = Some (v, rest)"
  by (simp add: read_literal_def quoted_def scan_double_quotes)

lemma quoted_plain: "quote_free v \<Longrightarrow> quoted v = sq @ v @ sq"
  by (simp add: quoted_def quote_free_def double_quotes_plain)

text \<open>The characters up to a separator.\<close>

definition read_until :: "char \<Rightarrow> string \<Rightarrow> string \<times> string" where
  "read_until c s = (takeWhile (\<lambda>x. x \<noteq> c) s, dropWhile (\<lambda>x. x \<noteq> c) s)"

lemma read_until_append [simp]:
  "c \<notin> set s \<Longrightarrow> rest \<noteq> [] \<Longrightarrow> hd rest = c \<Longrightarrow> read_until c (s @ rest) = (s, rest)"
  by (cases rest) (auto simp: read_until_def takeWhile_append dropWhile_append)

definition parse_login :: "string \<Rightarrow> (string \<times> string) option" where
  "parse_login q =
     Option.bind (strip ''SELECT token FROM users WHERE (username='' q) (\<lambda>s.
     Option.bind (read_literal s) (\<lambda>(u, s).
     Option.bind (strip '' AND password='' s) (\<lambda>s.
     Option.bind (read_literal s) (\<lambda>(h, s).
       if s = '')'' then Some (u, h) else None))))"

lemma parse_login_statement:
  assumes "quote_free u" "quote_free h"
  shows "parse_login (login_statement u h) = Some (u, h)"
proof -
  have "login_statement u h = ''SELECT token FROM users WHERE (username='' @ quoted u @
     '' AND password='' @ quoted h @ '')''"
    using assms by (simp add: login_statement_def quoted_plain)
  then show ?thesis by (simp add: parse_login_def)
qed

text \<open>The assignments of an \<open>UPDATE\<close>, up to its condition; the fuel bounds their number.\<close>

fun parse_columns :: "nat \<Rightarrow> string \<Rightarrow> ((string \<times> string) list \<times> string) option" where
  "parse_columns 0 s = None"
| "parse_columns (Suc k) s =
     (case strip '' WHERE token = '' s of
        Some rest \<Rightarrow> Some ([], rest)
      | None \<Rightarrow>
          Option.bind (strip '', '' s) (\<lambda>s.
          (case read_until (CHR '' '') s of (c, s) \<Rightarrow>
          if c \<notin> fst ` set edit_limits then None
          else
            Option.bind (strip '' = '' s) (\<lambda>s.
            Option.bind (read_literal s) (\<lambda>(v, s).
            map_option (\<lambda>(cs, rest). ((c, v) # cs, rest)) (parse_columns k s))))))"

definition parse_update :: "string \<Rightarrow> (bool \<times> (string \<times> string) list \<times> string) option" where
  "parse_update q =
     Option.bind (strip ''UPDATE users SET admin = '' q) (\<lambda>s.
     (case (case strip ''TRUE'' s of Some s \<Rightarrow> Some (True, s)
            | None \<Rightarrow> map_option (\<lambda>s. (False, s)) (strip ''FALSE'' s)) of
        None \<Rightarrow> None
      | Some (admin, s) \<Rightarrow>
          Option.bind (parse_columns (length s) s) (\<lambda>(cs, s).
          Option.bind (read_literal s) (\<lambda>(tok, s).
            if s = [] then Some (admin, cs, tok) else None))))"

lemma edit_limits_no_space: "c \<in> fst ` set edit_limits \<Longrightarrow> CHR '' '' \<notin> set c"
  by (auto simp: edit_limits_def)

lemma parse_columns_text:
  assumes "\<forall>(c, v) \<in> set cs. c \<in> fst ` set edit_limits" "length cs < k"
  shows "parse_columns k (concat (map column_text (map (\<lambda>(c, v). (c, quoted v)) cs)) @
    '' WHERE token = '' @ rest) = Some (cs, rest)"
  using assms
proof (induction cs arbitrary: k)
  case Nil
  then show ?case by (cases k) simp_all
next
  case (Cons a cs)
  obtain c v where a: "a = (c, v)" by fastforce
  from Cons.prems obtain k' where k: "k = Suc k'" by (cases k) auto
  from Cons.prems a have c: "c \<in> fst ` set edit_limits" by auto
  define tail where
    "tail = concat (map column_text (map (\<lambda>(c, v). (c, quoted v)) cs)) @ '' WHERE token = '' @ rest"
  have split: "concat (map column_text (map (\<lambda>(c, v). (c, quoted v)) (a # cs))) @
      '' WHERE token = '' @ rest = '', '' @ c @ '' = '' @ quoted v @ tail"
    by (simp add: a tail_def column_text_def)
  have "hd tail \<noteq> CHR 0x27"
    unfolding tail_def by (cases cs) (auto simp: column_text_def)
  then have lit: "read_literal (quoted v @ tail) = Some (v, tail)" by simp
  have until: "read_until (CHR '' '') (c @ '' = '' @ quoted v @ tail) = (c, '' = '' @ quoted v @ tail)"
    using edit_limits_no_space [OF c] by (intro read_until_append) simp_all
  have "parse_columns k' tail = Some (cs, rest)"
    unfolding tail_def using Cons.prems k by (intro Cons.IH) auto
  then show ?case
    unfolding split k using c lit until by (simp add: a)
qed

lemma length_column_texts: "length cs \<le> length (concat (map column_text cs))"
  by (induction cs) (auto simp: column_text_def)

lemma parse_update_text:
  assumes "\<forall>(c, v) \<in> set cs. c \<in> fst ` set edit_limits"
  shows "parse_update (update_text adm (map (\<lambda>(c, v). (c, quoted v)) cs) (quoted tok)) =
    Some (adm, cs, tok)"
proof -
  define s where "s = concat (map column_text (map (\<lambda>(c, v). (c, quoted v)) cs)) @
    '' WHERE token = '' @ quoted tok"
  have "length cs < length s"
    using length_column_texts [of "map (\<lambda>(c, v). (c, quoted v)) cs"] by (simp add: s_def)
  then have "parse_columns (length s) s = Some (cs, quoted tok)"
    using parse_columns_text [OF assms, of "length s" "quoted tok"] by (simp only: s_def)
  moreover have "read_literal (quoted tok) = Some (tok, [])"
    using read_quoted [of "[]" tok] by simp
  moreover have "update_text adm (map (\<lambda>(c, v). (c, quoted v)) cs) (quoted tok) =
      ''UPDATE users SET admin = '' @ (if adm then ''TRUE'' else ''FALSE'') @ s"
    by (simp only: update_text_def s_def)
  ultimately show ?thesis by (simp add: parse_update_def)
qed

definition read_opt_literal :: "string \<Rightarrow> (string option \<times> string) option" where
  "read_opt_literal s =
     (case strip '', NULL'' s of
        Some rest \<Rightarrow> Some (None, rest)
      | None \<Rightarrow> Option.bind (strip '', '' s) (\<lambda>s.
          map_option (\<lambda>(v, rest). (Some v, rest)) (read_literal s)))"

definition opt_text :: "string option \<Rightarrow> string" where
  "opt_text l = (case l of None \<Rightarrow> '', NULL'' | Some v \<Rightarrow> '', '' @ quoted v)"

lemma read_opt_text [simp]:
  "rest = [] \<or> hd rest \<noteq> CHR 0x27 \<Longrightarrow> read_opt_literal (opt_text l @ rest) = Some (l, rest)"
proof (cases l)
  case (Some v)
  assume "rest = [] \<or> hd rest \<noteq> CHR 0x27"
  then have "read_literal (quoted v @ rest) = Some (v, rest)" by simp
  moreover obtain r where "quoted v @ rest = CHR 0x27 # r" by (simp add: quoted_def)
  ultimately show ?thesis using Some by (simp add: read_opt_literal_def opt_text_def)
qed (simp add: read_opt_literal_def opt_text_def)

definition parse_insert ::
  "string \<Rightarrow> (string \<times> string option \<times> string \<times> string option \<times> nat \<times> nat) option" where
  "parse_insert q =
     Option.bind (strip SQL_insert_prefix q) (\<lambda>s.
     Option.bind (read_literal s) (\<lambda>(name, s).
     Option.bind (read_opt_literal s) (\<lambda>(d, s).
     Option.bind (strip '', '' s) (\<lambda>s.
     (case read_until (CHR '','') s of (price, s) \<Rightarrow>
     Option.bind (read_opt_literal s) (\<lambda>(b, s).
     Option.bind (strip '', '' s) (\<lambda>s.
     (case read_until (CHR '','') s of (user, s) \<Rightarrow>
     Option.bind (strip '', '' s) (\<lambda>s.
     (case read_until (CHR '')'') s of (created_at, s) \<Rightarrow>
       if s = '') RETURNING id''
       then Some (name, d, price, b, read_digits user, read_digits created_at) else None))))))))))"

lemma opt_text_hd: "opt_text l \<noteq> []" "hd (opt_text l) = CHR '',''"
  by (cases l; simp add: opt_text_def)+

lemma parse_insert_text:
  assumes name: "quote_free name" and price: "CHR '','' \<notin> set price"
    and b: "\<And>x. b = Some x \<Longrightarrow> quote_free x"
  shows "parse_insert (contract_text name (map_option quoted d) price b (show_nat i) (show_nat t)) =
    Some (name, d, price, b, i, t)"
proof -
  have sep: "CHR '','' \<notin> set (show_nat n)" "CHR '')'' \<notin> set (show_nat n)" for n
  proof -
    have "\<not> is_digit (CHR '','')" "\<not> is_digit (CHR '')'')" by (simp_all add: is_digit_def)
    with show_nat_digits show "CHR '','' \<notin> set (show_nat n)" "CHR '')'' \<notin> set (show_nat n)" by blast+
  qed
  define r3 where "r3 = '', '' @ show_nat i @ '', '' @ show_nat t @ '') RETURNING id''"
  define r2 where "r2 = opt_text b @ r3"
  define r1 where "r1 = opt_text d @ '', '' @ price @ r2"
  have "contract_text name (map_option quoted d) price b (show_nat i) (show_nat t) =
      SQL_insert_prefix @ quoted name @ r1"
    using b unfolding contract_text_def r1_def r2_def r3_def opt_text_def
    by (auto simp: quoted_plain [OF name] quoted_plain split: option.splits)
  moreover have "read_literal (quoted name @ r1) = Some (name, r1)"
    using opt_text_hd [of d] by (intro read_quoted) (simp add: r1_def)
  moreover have "read_opt_literal r1 = Some (d, '', '' @ price @ r2)"
    unfolding r1_def by (intro read_opt_text) simp
  moreover have "read_until (CHR '','') (price @ r2) = (price, r2)"
    using price opt_text_hd [of b] by (intro read_until_append) (simp_all add: r2_def)
  moreover have "read_opt_literal r2 = Some (b, r3)"
    unfolding r2_def by (intro read_opt_text) (simp add: r3_def)
  moreover have "read_until (CHR '','') (show_nat i @ '', '' @ show_nat t @ '') RETURNING id'') =
      (show_nat i, '', '' @ show_nat t @ '') RETURNING id'')"
    using sep by (intro read_until_append) simp_all
  moreover have "read_until (CHR '')'') (show_nat t @ '') RETURNING id'') = (show_nat t, '') RETURNING id'')"
    using sep by (intro read_until_append) simp_all
  ultimately show ?thesis by (simp add: parse_insert_def r3_def)
qed

section \<open>Binary strings\<close>

definition hex_digit :: "nat \<Rightarrow> char" where
  "hex_digit d = char_of (if d < 10 then 48 + d else 87 + d)"

definition hex_value :: "char \<Rightarrow> nat" where
  "hex_value c = (if (of_char c :: nat) < 58 then of_char c - 48 else of_char c - 87)"

lemma hex_value_digit [simp]: "d < 16 \<Longrightarrow> hex_value (hex_digit d) = d"
  by (simp add: hex_value_def hex_digit_def)

lemma hex_digit_safe: "d < 16 \<Longrightarrow> hex_digit d \<noteq> CHR 0x27"
proof
  assume "d < 16" "hex_digit d = CHR 0x27"
  then have "(of_char (hex_digit d) :: nat) = 39" by simp
  with \<open>d < 16\<close> show False by (simp add: hex_digit_def split: if_splits)
qed

definition hex_text :: "u8 list \<Rightarrow> string" where
  "hex_text b = [CHR 0x5C, CHR ''x''] @
     concat (map (\<lambda>x. [hex_digit (unat x div 16), hex_digit (unat x mod 16)]) b)"

fun hex_pairs :: "string \<Rightarrow> u8 list" where
  "hex_pairs (c # d # s) = of_nat (16 * hex_value c + hex_value d) # hex_pairs s"
| "hex_pairs _ = []"

definition hex_bytes :: "string \<Rightarrow> u8 list option" where
  "hex_bytes s = map_option hex_pairs (strip [CHR 0x5C, CHR ''x''] s)"

lemma byte_digits: "unat (x :: u8) div 16 < 16" "unat x mod 16 < 16"
proof -
  have "unat x < 2 ^ LENGTH(8)" by (rule unsigned_less)
  then show "unat x div 16 < 16" "unat x mod 16 < 16" by simp_all
qed

lemma hex_bytes_text [simp]: "hex_bytes (hex_text b) = Some b"
proof -
  have "hex_pairs (concat (map (\<lambda>x. [hex_digit (unat x div 16), hex_digit (unat x mod 16)]) b)) = b"
    by (induction b) (simp_all add: byte_digits)
  then show ?thesis by (simp add: hex_bytes_def hex_text_def)
qed

lemma quote_free_hex: "quote_free (hex_text b)"
proof -
  have "CHR 0x27 \<noteq> hex_digit (unat x div 16)" "CHR 0x27 \<noteq> hex_digit (unat x mod 16)" for x :: u8
    using hex_digit_safe byte_digits by metis+
  then show ?thesis by (induction b) (auto simp: quote_free_def hex_text_def)
qed

lemma length_hex_text: "length (hex_text b) = 2 + 2 * length b"
  by (induction b) (auto simp: hex_text_def)

section \<open>The engine\<close>

record ref_world =
  rf_tables :: tables
  rf_seed :: nat
  rf_now :: u64

definition rf_result :: "exec_status \<Rightarrow> string option list list \<Rightarrow> pgresult" where
  "rf_result st rows = \<lparr>PQresultStatus = st, PQtuples = rows, PQresultErrorMessage = [],
     PQconstraintName = None\<rparr>"

definition rf_error :: "string \<Rightarrow> string option \<Rightarrow> pgresult" where
  "rf_error m con = \<lparr>PQresultStatus = PGRES_FATAL_ERROR, PQtuples = [], PQresultErrorMessage = m,
     PQconstraintName = con\<rparr>"

definition fresh_id :: "nat list \<Rightarrow> nat" where
  "fresh_id is = Suc (foldr max is 0)"

lemma fresh_id_notin: "fresh_id is \<notin> set is"
proof -
  have "i \<in> set is \<Longrightarrow> i \<le> foldr max is 0" for i
    by (induction "is") auto
  then show ?thesis by (fastforce simp: fresh_id_def)
qed

definition rf_select :: "ref_world \<Rightarrow> string option list list \<Rightarrow> ref_world \<times> pgresult" where
  "rf_select w rows = (w, rf_result PGRES_TUPLES_OK rows)"

definition rf_newest :: "(contract_row \<times> user_row) list \<Rightarrow> (contract_row \<times> user_row) list" where
  "rf_newest ps = take 50 (sort_key (\<lambda>p. - int (cr_created_at (fst p))) ps)"

lemma rf_newest: "newest_50 ps (rf_newest ps)"
proof -
  let ?f = "\<lambda>p :: contract_row \<times> user_row. - int (cr_created_at (fst p))"
  have "sorted (map ?f (sort_key ?f ps))" by (rule sorted_sort_key)
  then have "newest_first (sort_key ?f ps)" by (simp add: newest_first_def sorted_wrt_map)
  moreover have "mset (sort_key ?f ps) = mset ps" by simp
  ultimately show ?thesis unfolding newest_50_def rf_newest_def by blast
qed

definition rf_insert_user ::
  "ref_world \<Rightarrow> string \<Rightarrow> string \<Rightarrow> string \<Rightarrow> string \<Rightarrow> string \<Rightarrow> ref_world \<times> pgresult" where
  "rf_insert_user w u p f l tok =
     (let t = rf_tables w; i = fresh_id (map ur_id (users t)) in
      case (varchar 64 u, varchar 128 p, varchar 32 f, varchar 32 l, varchar 128 tok) of
        (Some u', Some p', Some f', Some l', Some tok') \<Rightarrow>
          if u' \<in> ur_username ` set (users t) then
            (w, rf_error ''duplicate key value violates unique constraint'' (Some ''users_username_key''))
          else if i < 2 ^ 31 then
            (w\<lparr>rf_tables := insert_user i u' p' f' l' tok' t\<rparr>, rf_result PGRES_COMMAND_OK [])
          else (w, rf_error ''nextval: reached maximum value of sequence'' None)
      | _ \<Rightarrow> (w, rf_error ''value too long for type character varying'' None))"

definition rf_update ::
  "ref_world \<Rightarrow> bool \<Rightarrow> (string \<times> string) list \<Rightarrow> string \<Rightarrow> ref_world \<times> pgresult" where
  "rf_update w adm cs tok =
     (let t' = update_users adm cs tok (rf_tables w) in
      if distinct (map ur_username (users t'))
      then (w\<lparr>rf_tables := t'\<rparr>, rf_result PGRES_COMMAND_OK [])
      else (w, rf_error ''duplicate key value violates unique constraint'' (Some ''users_username_key'')))"

definition rf_insert_contract ::
  "ref_world \<Rightarrow> string \<Rightarrow> string option \<Rightarrow> string \<Rightarrow> string option \<Rightarrow> nat \<Rightarrow> nat \<Rightarrow>
   ref_world \<times> pgresult" where
  "rf_insert_contract w name d price b user created_at =
     (let t = rf_tables w; i = fresh_id (map cr_id (contracts t)) in
      case (varchar 64 name, case b of None \<Rightarrow> Some None | Some x \<Rightarrow> map_option Some (hex_bytes x)) of
        (Some name', Some b') \<Rightarrow>
          if numeric_literal price \<and> i < 2 ^ 31 \<and> user \<in> ur_id ` set (users t) \<and> created_at < 2 ^ 63
          then (w\<lparr>rf_tables := insert_contract i name' d price b' user created_at t\<rparr>,
                rf_result PGRES_TUPLES_OK [[Some (show_nat i)]])
          else (w, rf_error ''insert or update on table violates a constraint'' None)
      | _ \<Rightarrow> (w, rf_error ''value too long or invalid'' None))"

definition rf_exec :: "ref_world \<Rightarrow> string \<Rightarrow> ref_world \<times> pgresult" where
  "rf_exec w q =
     (case parse_login q of
        Some (u, h) \<Rightarrow> rf_select w (rows_login u h (rf_tables w))
      | None \<Rightarrow>
          if q = SQL_list_all then
            rf_select w (map (row_contract hex_text) (rf_newest (joined (rf_tables w))))
          else (case parse_update q of
              Some (adm, cs, tok) \<Rightarrow> rf_update w adm cs tok
            | None \<Rightarrow> (case parse_insert q of
                Some (name, d, price, b, user, created_at) \<Rightarrow>
                  rf_insert_contract w name d price b user created_at
              | None \<Rightarrow> (w, rf_error ''syntax error'' None))))"

definition rf_execParams :: "ref_world \<Rightarrow> string \<Rightarrow> string list \<Rightarrow> ref_world \<times> pgresult" where
  "rf_execParams w q params =
     (let t = rf_tables w in
      case params of
        [x] \<Rightarrow>
          if q = SQL_get_me then rf_select w (rows_get_me x t)
          else if q = SQL_user_admin then rf_select w (rows_user_admin x t)
          else if q = SQL_user_by_token then rf_select w (rows_user_by_token x t)
          else if q = SQL_check_contract then
            rf_select w (map (row_contract hex_text) (joined_by_id (atol x) t))
          else if q = SQL_list_own then
            rf_select w (map (row_contract hex_text) (rf_newest (joined_of_user (read_digits x) t)))
          else (w, rf_error ''syntax error'' None)
      | [u, p, f, l, tok] \<Rightarrow>
          if q = SQL_register then rf_insert_user w u p f l tok
          else (w, rf_error ''syntax error'' None)
      | _ \<Rightarrow> (w, rf_error ''syntax error'' None))"

definition ref_env :: "ref_world env" where
  "ref_env =
     \<lparr>e_exec = rf_exec, e_execParams = rf_execParams,
      e_escapeLiteral = (\<lambda>w s n. Some (quoted (take n s))),
      e_escapeBytea = (\<lambda>w b. Some (hex_text b)),
      e_unescapeBytea = hex_bytes,
      e_pbkdf2 = (\<lambda>p s c n. Some (take n (map of_char (p @ s) @ replicate n 0))),
      e_rand = (\<lambda>w n. (w\<lparr>rf_seed := Suc (rf_seed w)\<rparr>, Some (map (\<lambda>i. of_nat (rf_seed w + i)) [0..<n]))),
      e_time = rf_now\<rparr>"

section \<open>The engine keeps the contract\<close>

lemma ref_env_simps [simp]:
  "e_exec ref_env = rf_exec" "e_execParams ref_env = rf_execParams"
  "e_escapeLiteral ref_env w s n = Some (quoted (take n s))"
  "e_escapeBytea ref_env w b = Some (hex_text b)" "e_unescapeBytea ref_env = hex_bytes"
  "e_time ref_env = rf_now"
  by (simp_all add: ref_env_def)

lemma ref_client: "client_library ref_env"
proof -
  have "length (quoted (take n s)) \<le> 2 * n + 4" for n s
    using length_double_quotes [of "take n s"] by (simp add: quoted_def)
  then show ?thesis
    by (auto simp: client_library_def crypto_sizes_def length_hex_text) (auto simp: ref_env_def)
qed

lemma rf_exec_login:
  "quote_free u \<Longrightarrow> quote_free h \<Longrightarrow>
   rf_exec w (login_statement u h) = rf_select w (rows_login u h (rf_tables w))"
  by (simp add: rf_exec_def parse_login_statement)

lemma rf_exec_list_all:
  "rf_exec w SQL_list_all =
     rf_select w (map (row_contract hex_text) (rf_newest (joined (rf_tables w))))"
  by (simp add: rf_exec_def parse_login_def SQL_list_all_def contract_columns_def)

lemma rf_exec_update:
  assumes "\<forall>(c, v) \<in> set cs. c \<in> fst ` set edit_limits"
  shows "rf_exec w (update_text adm (map (\<lambda>(c, v). (c, quoted v)) cs) (quoted tok)) =
    rf_update w adm cs tok"
proof -
  have "parse_login (update_text adm ls l) = None" "update_text adm ls l \<noteq> SQL_list_all" for ls l
    by (simp_all add: parse_login_def update_text_def SQL_list_all_def contract_columns_def)
  then show ?thesis using parse_update_text [OF assms] by (simp add: rf_exec_def)
qed

lemma rf_exec_insert:
  assumes "quote_free name" "CHR '','' \<notin> set price" "\<And>x. b = Some x \<Longrightarrow> quote_free x"
  shows "rf_exec w (contract_text name (map_option quoted d) price b (show_nat i) (show_nat t)) =
    rf_insert_contract w name d price b i t"
proof -
  let ?q = "contract_text name (map_option quoted d) price b (show_nat i) (show_nat t)"
  have "parse_login ?q = None" "?q \<noteq> SQL_list_all" "parse_update ?q = None"
    by (simp_all add: parse_login_def parse_update_def contract_text_def SQL_insert_prefix_def
        SQL_list_all_def contract_columns_def)
  then show ?thesis using parse_insert_text [OF assms] by (simp add: rf_exec_def)
qed

lemmas SQL_defs = SQL_get_me_def SQL_user_admin_def SQL_user_by_token_def SQL_check_contract_def
  SQL_list_own_def SQL_register_def contract_columns_def

lemma rf_params_one:
  "rf_execParams w SQL_get_me [x] = rf_select w (rows_get_me x (rf_tables w))"
  "rf_execParams w SQL_user_admin [x] = rf_select w (rows_user_admin x (rf_tables w))"
  "rf_execParams w SQL_user_by_token [x] = rf_select w (rows_user_by_token x (rf_tables w))"
  "rf_execParams w SQL_check_contract [x] =
     rf_select w (map (row_contract hex_text) (joined_by_id (atol x) (rf_tables w)))"
  "rf_execParams w SQL_list_own [x] =
     rf_select w (map (row_contract hex_text) (rf_newest (joined_of_user (read_digits x) (rf_tables w))))"
  by (simp_all add: rf_execParams_def SQL_defs)

lemma rf_params_register:
  "rf_execParams w SQL_register [u, p, f, l, tok] = rf_insert_user w u p f l tok"
  by (simp add: rf_execParams_def)

lemma rf_select_selects: "selects rf_tables w (rf_select w rows) rows"
  by (simp add: selects_def rf_select_def rf_result_def)

lemma rf_select_lists:
  "lists rf_tables hex_text w (rf_select w (map (row_contract hex_text) (rf_newest ps))) ps"
  unfolding lists_def rf_select_def rf_result_def using rf_newest [of ps] by auto

lemma price_text_no_comma: "CHR '','' \<notin> set (price_text x)"
proof -
  have d: "\<not> is_digit (CHR '','')" by (simp add: is_digit_def)
  have n: "CHR '','' \<notin> set (show_nat n)" for n
    using show_nat_digits d by blast
  have s: "CHR '','' \<notin> set (six_digits k)" for k
  proof -
    have "\<forall>c \<in> set (six_digits k). is_digit c" by (simp add: six_digits_def)
    with d show ?thesis by blast
  qed
  have "CHR '','' \<notin> set (fmt_f x)"
    using n s by (auto simp: fmt_f_def sign_text_def split: double.splits)
  then show ?thesis unfolding price_text_def snprintf_text_def by (meson in_set_takeD)
qed

lemma rf_literals:
  "literals ref_env w cs = Some ls \<Longrightarrow> ls = map (\<lambda>(c, v). (c, quoted v)) (column_values cs)"
  by (induction cs arbitrary: ls) (auto simp: column_values_def)

lemma columns_ok_limits:
  "columns_ok cs \<Longrightarrow> \<forall>(c, v) \<in> set (column_values cs). c \<in> fst ` set edit_limits"
  by (force simp: columns_ok_def column_values_def)

lemma rf_opt_literal:
  "opt_literal (\<lambda>d. Some (quoted (take 16384 d))) d dl \<longleftrightarrow>
     dl = map_option quoted (map_option (take 16384) d)"
  "opt_literal (\<lambda>b. Some (hex_text b)) a al \<longleftrightarrow> al = map_option hex_text a"
  by (auto simp: opt_literal_def split: option.splits)

lemma rf_insert_user_law:
  assumes "rf_insert_user w u p f l tok = (w', res)"
  shows "if PQresultStatus res = PGRES_COMMAND_OK
    then user_inserted u p f l tok (rf_tables w) (rf_tables w')
    else rf_tables w' = rf_tables w \<and> (PQconstraintName res \<noteq> None \<longrightarrow> username_taken u (rf_tables w))"
  using assms fresh_id_notin [of "map ur_id (users (rf_tables w))"]
  by (auto simp: rf_insert_user_def Let_def rf_error_def rf_result_def user_inserted_def
      username_taken_def split: option.splits if_splits)

lemma rf_update_law:
  assumes "rf_update w adm cs tok = (w', res)" "t' = update_users adm cs tok (rf_tables w)"
  shows "if PQresultStatus res = PGRES_COMMAND_OK
    then rf_tables w' = t' \<and> distinct (map ur_username (users t'))
    else rf_tables w' = rf_tables w \<and>
      (PQconstraintName res \<noteq> None \<longrightarrow> \<not> distinct (map ur_username (users t')))"
  using assms by (auto simp: rf_update_def Let_def rf_error_def rf_result_def split: if_splits)

lemma rf_insert_contract_law:
  assumes "rf_insert_contract w name d price (map_option hex_text a) user ca = (w', res)"
  shows "if PQresultStatus res = PGRES_TUPLES_OK
    then numeric_literal price \<and> (\<exists>i. PQtuples res = [[Some (show_nat i)]] \<and>
      contract_inserted name d price a user ca i (rf_tables w) (rf_tables w'))
    else rf_tables w' = rf_tables w"
proof -
  have "(case map_option hex_text a of None \<Rightarrow> Some None
    | Some x \<Rightarrow> map_option Some (hex_bytes x)) = Some a"
    by (cases a) simp_all
  then show ?thesis
    using assms fresh_id_notin [of "map cr_id (contracts (rf_tables w))"]
    by (auto simp: rf_insert_contract_def Let_def rf_error_def rf_result_def contract_inserted_def
        split: option.splits if_splits)
qed

lemma ref_insert:
  assumes "quote_free name"
    "opt_literal (\<lambda>d. e_escapeLiteral ref_env w d 16384) d dl" "opt_literal (e_escapeBytea ref_env w) a al"
  shows "rf_exec w (contract_text name dl (price_text x) al (show_nat user) (show_nat ca)) =
    rf_insert_contract w name (map_option (take 16384) d) (price_text x) (map_option hex_text a) user ca"
proof -
  have "dl = map_option quoted (map_option (take 16384) d)" "al = map_option hex_text a"
    using assms(2,3) rf_opt_literal by (simp_all add: ref_env_def)
  then show ?thesis
    by (simp only:) (rule rf_exec_insert [OF assms(1) price_text_no_comma], auto simp: quote_free_hex)
qed

lemma ref_update:
  assumes "literals ref_env w cs = Some ls" "columns_ok cs" "e_escapeLiteral ref_env w tok 128 = Some wl"
  shows "rf_exec w (update_text adm ls wl) = rf_update w adm (column_values cs) (take 128 tok)"
  using rf_exec_update [OF columns_ok_limits [OF assms(2)], of w adm "take 128 tok"]
    rf_literals [OF assms(1)] assms(3)
  by simp

lemma rf_exec_update_law:
  assumes "literals ref_env w cs = Some ls" "columns_ok cs"
    "e_escapeLiteral ref_env w tok 128 = Some wl"
    "t' = update_users adm (column_values cs) (take 128 tok) (rf_tables w)"
    "rf_exec w (update_text adm ls wl) = (w', res)"
  shows "if PQresultStatus res = PGRES_COMMAND_OK
    then rf_tables w' = t' \<and> distinct (map ur_username (users t'))
    else rf_tables w' = rf_tables w \<and>
      (PQconstraintName res \<noteq> None \<longrightarrow> \<not> distinct (map ur_username (users t')))"
  using assms(5) unfolding ref_update [OF assms(1-3)] by (rule rf_update_law [OF _ assms(4)])

lemma rf_exec_insert_law:
  assumes "quote_free name"
    "opt_literal (\<lambda>d. e_escapeLiteral ref_env w d 16384) d dl" "opt_literal (e_escapeBytea ref_env w) a al"
    "rf_exec w (contract_text name dl (price_text x) al (show_nat user) (show_nat ca)) = (w', res)"
  shows "if PQresultStatus res = PGRES_TUPLES_OK
    then numeric_literal (price_text x) \<and> (\<exists>i. PQtuples res = [[Some (show_nat i)]] \<and>
      contract_inserted name (map_option (take 16384) d) (price_text x) a user ca i
        (rf_tables w) (rf_tables w'))
    else rf_tables w' = rf_tables w"
  using assms(4) unfolding ref_insert [OF assms(1-3)] by (rule rf_insert_contract_law)

interpretation ref: tomtom_server ref_env rf_tables hex_text "\<lambda>s. s"
proof (unfold_locales, goal_cases)
  case 1
  show ?case by (rule ref_client)
next
  case 2
  show ?case by (simp add: ref_env_def)
next
  case (11 u p f l tok w w' res)
  then show ?case by (simp only: ref_env_simps rf_params_register) (rule rf_insert_user_law)
next
  case (12 w cs ls tok wl t' adm w' res)
  then show ?case by (simp only: ref_env_simps(1)) (rule rf_exec_update_law; simp)
next
  case (13 name w d dl a al x user ca w' res)
  then show ?case by (simp only: ref_env_simps(1)) (rule rf_exec_insert_law)
qed (simp_all add: rf_exec_login rf_params_one rf_exec_list_all rf_select_selects rf_select_lists
  atol_show_int)

section \<open>States for the witnesses\<close>

definition ref_start :: ref_world where
  "ref_start = \<lparr>rf_tables = empty_tables, rf_seed = 0, rf_now = 1600000000\<rparr>"

definition alice :: user_row where
  "alice = \<lparr>ur_id = 1, ur_username = ''alice'', ur_password = stored_hash ref_env ''weak'' ''pw'',
     ur_firstname = ''Alice'', ur_lastname = ''A'', ur_admin = False,
     ur_token = b64_loop (replicate 32 1)\<rparr>"

definition ref_alice :: ref_world where
  "ref_alice = \<lparr>rf_tables = \<lparr>users = [alice], contracts = []\<rparr>, rf_seed = 5, rf_now = 1600000000\<rparr>"

lemma ref_sizes: "crypto_sizes ref_env"
  using ref_client by (rule client_library_facts(1))

lemma alice_ok: "app_inv (stored_hash ref_env ''weak'') (rf_tables ref_alice)"
proof -
  have h: "length (ur_password alice) = 88" "cstr (ur_password alice)"
    using ref_sizes by (simp_all add: alice_def stored_hash_def length_encoded_hash b64_loop_safe)
  have t: "length (ur_token alice) = 44" "cstr (ur_token alice)" "fresh_token (ur_token alice)"
    by (auto simp: alice_def length_b64_loop b64_loop_safe fresh_token_def)
  have "user_row_ok alice"
    using h t char_count_le [of "ur_password alice"] char_count_le [of "ur_token alice"]
    by (simp add: user_row_ok_def) (simp add: alice_def char_count_def continuation_byte_def)
  moreover have "hygienic (stored_hash ref_env ''weak'') alice"
    using t by (auto simp: hygienic_def) (simp add: alice_def)
  ultimately show ?thesis by (simp add: app_inv_def db_ok_def ref_alice_def)
qed

lemma ref_world_facts [simp]:
  "rf_tables ref_start = empty_tables" "rf_tables ref_alice = \<lparr>users = [alice], contracts = []\<rparr>"
  "rf_now ref_start = 1600000000" "rf_now ref_alice = 1600000000"
  by (simp_all add: ref_start_def ref_alice_def)

end
