(* ===== verification/Scenarios.thy ===== *)
theory Scenarios
  imports Reference_Server
begin

text \<open>
  What a handler does with the result of its statement, success or not: the answer and the tables
  after it as a function of the status, from which the properties that chain several requests follow.
\<close>

section \<open>Selections with a known row\<close>

lemma selects_single:
  assumes "selects view w (w', res) [row]" "PQresultStatus res = PGRES_TUPLES_OK"
  shows "PQtuples res = [row]" "PQntuples res = 1" "view w' = view w"
proof -
  have "mset (PQtuples res) = {#row#}" using assms by (simp add: selects_def)
  then show "PQtuples res = [row]" by (metis mset_single_iff_right)
  then show "PQntuples res = 1" by (simp add: PQntuples_def)
  show "view w' = view w" using assms(1) by (simp add: selects_def)
qed

lemma distinct_filter_single:
  "distinct (map f xs) \<Longrightarrow> x \<in> set xs \<Longrightarrow> P x \<Longrightarrow> (\<And>y. P y \<Longrightarrow> f y = f x) \<Longrightarrow> filter P xs = [x]"
proof (induction xs)
  case (Cons a xs)
  show ?case
  proof (cases "a = x")
    case True
    then have "f x \<notin> f ` set xs" using Cons.prems(1) by simp
    then have "\<not> P y" if "y \<in> set xs" for y
      using that Cons.prems(4) by (metis imageI)
    then have "filter P xs = []" by (simp add: filter_empty_conv)
    with True Cons.prems(3) show ?thesis by simp
  next
    case False
    with Cons.prems(2) have "x \<in> set xs" by simp
    have "f a \<noteq> f x" using Cons.prems(1) \<open>x \<in> set xs\<close> by auto
    then have "\<not> P a" using Cons.prems(4) by blast
    moreover have "filter P xs = [x]"
      by (rule Cons.IH) (use Cons.prems(1) \<open>x \<in> set xs\<close> in simp, fact, fact, rule Cons.prems(4))
    ultimately show ?thesis by simp
  qed
qed simp

text \<open>The only row with a token.\<close>

definition sole_owner :: "tables \<Rightarrow> string \<Rightarrow> user_row \<Rightarrow> bool" where
  "sole_owner t tok u \<longleftrightarrow> with_token t tok = [u]"

lemma sole_ownerD: "sole_owner t tok u \<Longrightarrow> u \<in> set (users t) \<and> ur_token u = tok"
proof -
  assume "sole_owner t tok u"
  then have "u \<in> set (with_token t tok)" by (simp add: sole_owner_def)
  then show ?thesis by (simp add: with_token_def)
qed

lemma cell_of_single:
  assumes "PQtuples res = [row]" "j < length row"
  shows "PQgetvalue res 0 j = Some (case row ! j of None \<Rightarrow> [] | Some v \<Rightarrow> v)"
  using assms by (simp add: PQgetvalue_def)

section \<open>Accounts\<close>

context tomtom_server
begin

lemma registered:
  assumes run: "register E salt w r = Inr (w', ok_response (Res_Register tok))"
    and fits: "char_count (rg_username r) \<le> 64" "char_count (rg_firstName r) \<le> 32"
      "char_count (rg_lastName r) \<le> 32"
  shows "\<exists>i. i \<notin> ur_id ` set (users (view w)) \<and> rg_username r \<notin> ur_username ` set (users (view w)) \<and>
    view w' = insert_user i (rg_username r) (stored_hash E salt (rg_password r)) (rg_firstName r)
      (rg_lastName r) tok (view w)"
proof -
  let ?h = "stored_hash E salt (rg_password r)"
  from register_serves [OF run] have tok: "fresh_token tok"
    and ins: "user_inserted (rg_username r) ?h (rg_firstName r) (rg_lastName r) tok (view w) (view w')"
    by (auto simp: refused_def error_response_def ok_response_def)
  have "varchar 64 (rg_username r) = Some (rg_username r)" "varchar 128 ?h = Some ?h"
    "varchar 32 (rg_firstName r) = Some (rg_firstName r)"
    "varchar 32 (rg_lastName r) = Some (rg_lastName r)" "varchar 128 tok = Some tok"
    using fits fresh_token_facts(2) [OF tok] crypto
    by (simp_all add: varchar_short varchar_id stored_hash_def length_encoded_hash)
  with ins show ?thesis by (auto simp: user_inserted_def)
qed

lemma login_known:
  assumes ok: "db_ok (view w)" "u \<in> set (users (view w))"
    and pw: "ur_password u = stored_hash E salt p"
    and plain: "quote_free (ur_username u)" "length (ur_username u) \<le> 8000"
    and ex: "e_exec E w (login_query (ur_username u) (stored_hash E salt p)) = (w', res)"
  shows "login E salt w \<lparr>lg_username = ur_username u, lg_password = p\<rparr> =
      Inr (w', if PQresultStatus res = PGRES_TUPLES_OK then ok_response (Res_Login (ur_token u))
               else error_response ''Failed'')" "view w' = view w"
proof -
  let ?h = "stored_hash E salt p"
  let ?r = "\<lparr>lg_username = ur_username u, lg_password = p\<rparr>"
  have h: "quote_free ?h" "length ?h = 88"
    using crypto by (simp_all add: stored_hash_def b64_loop_quote_free length_encoded_hash)
  have "filter (\<lambda>y. ur_username y = ur_username u \<and> ur_password y = ?h) (users (view w)) = [u]"
    using ok pw by (intro distinct_filter_single [where f = ur_username]) (auto simp: db_ok_def)
  then have rows: "rows_login (ur_username u) ?h (view w) = [[Some (ur_token u)]]"
    by (simp add: rows_login_def)
  have "login_query (ur_username u) ?h = login_statement (ur_username u) ?h"
    using plain(2) h(2) by (intro login_query_fits) simp
  then have sel: "selects view w (w', res) [[Some (ur_token u)]]"
    using login_law [OF plain(1) h(1), of w] ex rows by simp
  show "view w' = view w" by (rule selects_view [OF sel])
  have "login E salt w ?r = login_reply (w', res)"
    using login_sends [OF crypto, of salt w ?r] ex by (simp add: stored_hash_def)
  then show "login E salt w ?r = Inr (w', if PQresultStatus res = PGRES_TUPLES_OK
      then ok_response (Res_Login (ur_token u)) else error_response ''Failed'')"
    using selects_single [OF sel] by (auto simp: login_reply_def cell_of_single)
qed

lemma get_me_known:
  assumes "sole_owner (view w) tok u" and ex: "e_execParams E w SQL_get_me [tok] = (w', res)"
  shows "get_me E w \<lparr>gm_token = tok\<rparr> =
      Inr (w', if PQresultStatus res = PGRES_TUPLES_OK then ok_response (Res_GetMe (me_view u))
               else error_response (PQresultErrorMessage res))" "view w' = view w"
proof -
  have sel: "selects view w (w', res)
      [[Some (ur_username u), Some (ur_password u), Some (ur_firstname u), Some (ur_lastname u),
        Some (bool_text (ur_admin u))]]"
    using get_me_law [of w tok] assms by (simp add: rows_get_me_def sole_owner_def)
  show "view w' = view w" by (rule selects_view [OF sel])
  show "get_me E w \<lparr>gm_token = tok\<rparr> =
      Inr (w', if PQresultStatus res = PGRES_TUPLES_OK then ok_response (Res_GetMe (me_view u))
               else error_response (PQresultErrorMessage res))"
    using ex selects_single [OF sel]
    by (simp add: get_me_def cell_of_single me_view_def first_char_def bool_text_def)
qed

section \<open>Editing\<close>

text \<open>The \<open>UPDATE\<close>, once it is composed.\<close>

lemma edit_executed:
  assumes ok: "request_ok (Req_EditMe r)"
    and ls: "literals E w (edit_columns E salt r (edit_new_token E w r)) = Some ls"
    and wl: "e_escapeLiteral E w (em_token r) 128 = Some wl"
    and ex: "e_exec E (edit_world E w r) (update_text (em_admin r) ls wl) = (w', res)"
  defines "t' \<equiv> edit_effect (stored_hash E salt) r (edit_new_token E w r) (view w)"
  shows "edit_me E salt w r = edit_reply (edit_new_token E w r) (em_token r) (w', res)"
    "if PQresultStatus res = PGRES_COMMAND_OK then view w' = t' \<and> distinct (map ur_username (users t'))
     else view w' = view w \<and> (PQconstraintName res \<noteq> None \<longrightarrow> \<not> distinct (map ur_username (users t')))"
proof -
  let ?nt = "edit_new_token E w r"
  show "edit_me E salt w r = edit_reply ?nt (em_token r) (w', res)"
    using edit_me_refines [OF client ls wl] ex by simp
  have nt: "opt_cstr ?nt" by (simp add: edit_new_token_def b64_loop_safe)
  have v: "view (edit_world E w r) = view w" by (simp add: edit_world_def)
  show "if PQresultStatus res = PGRES_COMMAND_OK then view w' = t' \<and> distinct (map ur_username (users t'))
     else view w' = view w \<and> (PQconstraintName res \<noteq> None \<longrightarrow> \<not> distinct (map ur_username (users t')))"
    using update_law [where w = "edit_world E w r" and cs = "edit_columns E salt r ?nt" and tok = "em_token r",
        OF _ _ _ _ refl ex] edit_columns_ok [OF ok nt, where salt = salt] ok ls wl v
    by (simp add: literals_edit_world edit_effect_def edit_columns_edited t'_def split: if_splits)
qed

end

section \<open>Contracts\<close>

text \<open>The response to a stored contract.\<close>

definition stored_info ::
  "request_contract_req \<Rightarrow> user_row \<Rightarrow> nat \<Rightarrow> u64 \<Rightarrow> contract_info" where
  "stored_info r u i t =
     \<lparr>ci_id = of_nat i, ci_name = rc_name r, ci_description = rc_description r,
      ci_price = rc_price r, ci_attachment = used_attachment (rc_attachment r),
      ci_status = status_Processing, ci_created_at = t,
      ci_by_user = \<lparr>ui_username = ur_username u, ui_firstName = ur_firstname u,
                    ui_lastName = ur_lastname u\<rparr>\<rparr>"

text \<open>One row of the join per contract.\<close>

lemma joined_by_id_single:
  assumes db: "db_ok t" and c: "c \<in> set (contracts t)" and u: "u \<in> set (users t)" "cr_user c = ur_id u"
    and k: "k = int (cr_id c)"
  shows "joined_by_id k t = [(c, u)]"
proof -
  let ?match = "\<lambda>d. map (Pair d) (filter (\<lambda>v. cr_user d = ur_id v) (users t))"
  have "concat (map (\<lambda>v. if cr_user d = ur_id v then [(d, v)] else []) us) =
      map (Pair d) (filter (\<lambda>v. cr_user d = ur_id v) us)"
    for d :: contract_row and us :: "user_row list"
    by (induction us) simp_all
  then have j: "joined t = concat (map ?match (contracts t))"
    by (simp add: joined_def)
  have "joined_by_id k t = concat (map ?match (filter (\<lambda>d. int (cr_id d) = k) (contracts t)))"
  proof -
    have "filter (\<lambda>(d, v). int (cr_id d) = k) (concat (map ?match ds)) =
        concat (map ?match (filter (\<lambda>d. int (cr_id d) = k) ds))" for ds
    proof (induction ds)
      case (Cons d ds)
      have "filter (\<lambda>(d, v). int (cr_id d) = k) (?match d) = (if int (cr_id d) = k then ?match d else [])"
        by (simp add: filter_map comp_def)
      with Cons show ?case by simp
    qed simp
    then show ?thesis by (simp add: joined_by_id_def j)
  qed
  also have "filter (\<lambda>d. int (cr_id d) = k) (contracts t) = [c]"
    using db c k by (intro distinct_filter_single [where f = cr_id]) (auto simp: db_ok_def)
  also have "concat (map ?match [c]) = map (Pair c) (filter (\<lambda>v. cr_user c = ur_id v) (users t))"
    by simp
  also have "filter (\<lambda>v. cr_user c = ur_id v) (users t) = [u]"
    using db u by (intro distinct_filter_single [where f = ur_id]) (auto simp: db_ok_def)
  finally show ?thesis by simp
qed

definition stored_contract ::
  "(string \<Rightarrow> string) \<Rightarrow> request_contract_req \<Rightarrow> user_row \<Rightarrow> nat \<Rightarrow> nat \<Rightarrow> contract_row" where
  "stored_contract F r u i t =
     \<lparr>cr_id = i, cr_name = rc_name r, cr_description = map_option (take 16384) (rc_description r),
      cr_price = F (price_text (rc_price r)), cr_attachment = used_attachment (rc_attachment r),
      cr_status = 1, cr_user = ur_id u, cr_created_at = t\<rparr>"

context tomtom_server
begin

text \<open>The \<open>INSERT\<close>, once it is composed.\<close>

lemma contract_executed:
  assumes ok: "request_ok (Req_RequestContract r)" "\<not> is_negative (rc_price r)"
    and db: "db_ok (view w)" and own: "sole_owner (view w) (rc_token r) u"
    and ex1: "e_execParams E w SQL_user_by_token [rc_token r] = (w1, res1)" "PQresultStatus res1 = PGRES_TUPLES_OK"
    and q: "contract_query E w1 r (show_nat (ur_id u)) (e_time E w1) = Inr q"
    and ex2: "e_exec E w1 q = (w2, res2)"
  shows "request_contract E w r =
      contract_reply r (strncpy (calloc 64) (ur_username u) 64) (strncpy (calloc 32) (ur_firstname u) 32)
        (strncpy (calloc 32) (ur_lastname u) 32) (e_time E w1) (w2, res2)"
    "if PQresultStatus res2 = PGRES_TUPLES_OK
     then \<exists>i. PQtuples res2 = [[Some (show_nat i)]] \<and>
       contract_inserted (rc_name r) (map_option (take 16384) (rc_description r))
         (float_text (price_text (rc_price r))) (used_attachment (rc_attachment r)) (ur_id u)
         (unat (e_time E w1)) i (view w) (view w2)
     else view w2 = view w"
proof -
  have sel: "selects view w (w1, res1) [[Some (show_nat (ur_id u)), Some (ur_username u),
      Some (ur_firstname u), Some (ur_lastname u)]]"
    using user_by_token_law [of w "rc_token r"] ex1 own
    by (simp add: rows_user_by_token_def sole_owner_def)
  note one = selects_single [OF sel ex1(2)]
  show "request_contract E w r =
      contract_reply r (strncpy (calloc 64) (ur_username u) 64) (strncpy (calloc 32) (ur_firstname u) 32)
        (strncpy (calloc 32) (ur_lastname u) 32) (e_time E w1) (w2, res2)"
    using ex1 one q ex2 ok(2)
    by (simp add: request_contract_def contract_insert_def cell_of_single Let_def)
  have "u \<in> set (users (view w))" using sole_ownerD [OF own] by simp
  then have "ur_id u < 2 ^ 31" using user_id_text(2) [OF db_ok_users [OF db]] by simp
  with contract_query_sent [OF client q] ok(1) obtain dl al where
    "opt_literal (\<lambda>d. e_escapeLiteral E w1 d 16384) (rc_description r) dl"
    "opt_literal (e_escapeBytea E w1) (used_attachment (rc_attachment r)) al"
    "q = contract_text (rc_name r) dl (price_text (rc_price r)) al (show_nat (ur_id u)) (show_nat (unat (e_time E w1)))"
    by auto
  with insert_law [OF _ this(1) _ this(2) ex2 [unfolded this(3)]] ok(1) one(3)
  show "if PQresultStatus res2 = PGRES_TUPLES_OK
     then \<exists>i. PQtuples res2 = [[Some (show_nat i)]] \<and>
       contract_inserted (rc_name r) (map_option (take 16384) (rc_description r))
         (float_text (price_text (rc_price r))) (used_attachment (rc_attachment r)) (ur_id u)
         (unat (e_time E w1)) i (view w) (view w2)
     else view w2 = view w"
    by (auto simp: opt_cstr_def split: if_splits)
qed

lemma check_known:
  assumes db: "db_ok (view w)" and k: "sint (ck_id r) = int i"
    and row: "c \<in> set (contracts (view w))" "cr_id c = i" "u \<in> set (users (view w))" "cr_user c = ur_id u"
    and ex: "e_execParams E w SQL_check_contract [show_nat i] = (w', res)"
  shows "check_contract E w r =
      Inr (w', if PQresultStatus res = PGRES_TUPLES_OK then ok_response (Res_CheckContract (contract_view (c, u)))
               else error_response (PQresultErrorMessage res))" "view w' = view w"
proof -
  from row have ok: "contract_row_ok c" "i < 2 ^ 31" using db by (auto simp: db_ok_def contract_row_ok_def)
  have t: "show_int (int i) = show_nat i" by (simp add: show_int_def)
  have "joined_by_id (int i) (view w) = [(c, u)]"
    using db row by (intro joined_by_id_single) auto
  moreover have range: "long_min \<le> int i" "int i \<le> long_max"
    using ok(2) by (simp_all add: long_min_def long_max_def)
  ultimately have sel: "selects view w (w', res) [row_contract bytea_text (c, u)]"
    using check_law [of "int i" w] ex by (simp add: t)
  show "view w' = view w" by (rule selects_view [OF sel])
  note one = selects_single [OF sel]
  have "length (show_nat i) \<le> 10" using length_show_nat [of i 9] ok(2) by simp
  then have fits: "snprintf_text 32 (show_nat i) = show_nat i" by simp
  have "contract_of_row E res 0 = Inr (contract_view (c, u))" if "PQresultStatus res = PGRES_TUPLES_OK"
    using ok(1) by (intro contract_of_row_view [where bt = bytea_text] unescape) (simp_all add: one [OF that])
  with ex one fits k show "check_contract E w r =
      Inr (w', if PQresultStatus res = PGRES_TUPLES_OK then ok_response (Res_CheckContract (contract_view (c, u)))
               else error_response (PQresultErrorMessage res))"
    by (auto simp: check_contract_def t)
qed

end

section \<open>On the reference server\<close>

lemma ref_token_tables [simp]: "rf_tables (fst (access_token ref_env w)) = rf_tables w"
  by (rule ref.access_token_view)

lemma ref_select_status [simp]: "PQresultStatus (snd (rf_select w rows)) = PGRES_TUPLES_OK"
  by (simp add: rf_select_def rf_result_def)

lemma ref_registers:
  assumes fits: "char_count (rg_username r) \<le> 64" "char_count (rg_firstName r) \<le> 32"
      "char_count (rg_lastName r) \<le> 32"
    and free: "rg_username r \<notin> ur_username ` set (users (rf_tables w))"
      "fresh_id (map ur_id (users (rf_tables w))) < 2 ^ 31"
  shows "\<exists>w'. register ref_env salt w r =
    Inr (w', ok_response (Res_Register (b64_loop (snd (access_token ref_env w)))))"
proof -
  obtain w1 tok where a: "access_token ref_env w = (w1, tok)" by fastforce
  then have v: "rf_tables w1 = rf_tables w" and tok: "length tok = 32"
    using ref_token_tables [of w] length_access_token [OF ref_sizes, of w] by simp_all
  let ?h = "stored_hash ref_env salt (rg_password r)" and ?tok = "b64_loop tok"
  have "varchar 64 (rg_username r) = Some (rg_username r)" "varchar 128 ?h = Some ?h"
    "varchar 32 (rg_firstName r) = Some (rg_firstName r)"
    "varchar 32 (rg_lastName r) = Some (rg_lastName r)" "varchar 128 ?tok = Some ?tok"
    using fits tok ref_sizes
    by (simp_all add: varchar_short varchar_id stored_hash_def length_encoded_hash length_b64_loop)
  with a tok v free ref_sizes show ?thesis
    by (simp add: register_def rf_params_register rf_insert_user_def rf_result_def stored_hash_def Let_def)
qed

lemma ref_literals: "\<exists>ls. literals ref_env w cs = Some ls"
  by (induction cs) auto

lemma ref_edits:
  assumes ok: "request_ok (Req_EditMe r)"
    and dist: "distinct (map ur_username
      (users (edit_effect (stored_hash ref_env salt) r (edit_new_token ref_env w r) (rf_tables w))))"
  shows "\<exists>ls wl w'. literals ref_env w (edit_columns ref_env salt r (edit_new_token ref_env w r)) = Some ls \<and>
    e_escapeLiteral ref_env w (em_token r) 128 = Some wl \<and>
    e_exec ref_env (edit_world ref_env w r) (update_text (em_admin r) ls wl) = (w', rf_result PGRES_COMMAND_OK [])"
proof -
  let ?nt = "edit_new_token ref_env w r"
  let ?cs = "edit_columns ref_env salt r ?nt" and ?w1 = "edit_world ref_env w r"
  obtain ls where ls: "literals ref_env w ?cs = Some ls" using ref_literals by blast
  have nt: "opt_cstr ?nt" by (simp add: edit_new_token_def b64_loop_safe)
  have v: "rf_tables ?w1 = rf_tables w" by (simp add: edit_world_def)
  have "rf_exec ?w1 (update_text (em_admin r) ls (quoted (take 128 (em_token r)))) =
      rf_update ?w1 (em_admin r) (column_values ?cs) (take 128 (em_token r))"
    using ref_update [of ?w1 ?cs ls "em_token r"] ls ref.edit_columns_ok [OF ok nt, of salt]
    by (simp add: ref.literals_edit_world)
  moreover have "distinct (map ur_username (users (update_users (em_admin r) (column_values ?cs)
      (take 128 (em_token r)) (rf_tables ?w1))))"
    using dist by (simp add: v edit_effect_def edit_columns_edited)
  ultimately show ?thesis using ls by (simp add: rf_update_def Let_def)
qed

end
