(* ===== verification/Session.thy ===== *)
theory Session
  imports Processing Machine
begin

text \<open>
  \<open>http_callback\<close> of \<open>src/backend/src/main.c\<close>: the life of one HTTP transaction. The
  reason and its arguments are a datatype; what the libwebsockets calls of one callback
  return is a record; the calls that act on the connection are listed in order. Reading or
  writing outside a heap block and using a null pointer are outcomes.
\<close>

section \<open>Buffers\<close>

definition LWS_PRE :: nat where "LWS_PRE = 16"
definition LWS_MIN_HEADER_SPACE :: nat where "LWS_MIN_HEADER_SPACE = 2048"

text \<open>\<open>end - p\<close>, with \<open>p = start = &buf[LWS_PRE]\<close> and \<open>end = &buf[sizeof (buf) - LWS_PRE - 1]\<close>.\<close>

definition full_chunk :: nat where
  "full_chunk =
     (let sizeof_buf = LWS_PRE + LWS_MIN_HEADER_SPACE;
          start = LWS_PRE;
          end = sizeof_buf - LWS_PRE - 1
      in end - start)"

lemma full_chunk_eq: "full_chunk = 2031"
  by (simp add: full_chunk_def LWS_PRE_def LWS_MIN_HEADER_SPACE_def)

section \<open>The callback\<close>

datatype callback_reason =
    CB_HTTP string bool \<comment> \<open>path, whether the request is a POST\<close>
  | CB_HTTP_BODY "u8 list"
  | CB_HTTP_BODY_COMPLETION
  | CB_HTTP_WRITEABLE
  | CB_HTTP_DROP_PROTOCOL
  | CB_OTHER

record lws_results =
  add_headers_failed :: bool
  finalize_headers_failed :: bool
  lws_written :: int
  transaction_completed_result :: int
  dummy_result :: int

datatype lws_action =
    Send_headers
  | Lws_write "u8 list" bool \<comment> \<open>payload, whether it is \<open>LWS_WRITE_HTTP_FINAL\<close>\<close>
  | Callback_on_writable
  | Transaction_completed

type_synonym 'w conn = "'w \<times> pss option"
type_synonym 'w callback_result = "('w conn \<times> lws_action list \<times> int) outcome"

definition on_http :: "lws_results \<Rightarrow> string \<Rightarrow> bool \<Rightarrow> 'w conn \<Rightarrow> 'w callback_result" where
  "on_http R path is_post s =
     (if path \<noteq> ''api'' then Inr (s, [], -1)
      else if \<not> is_post then Inr (s, [], -1)
      else if add_headers_failed R then Inr (s, [], 1)
      else if finalize_headers_failed R then Inr (s, [Send_headers], 1)
      \<comment> \<open>\<open>memset (&pss, 0, sizeof (pss))\<close> clears the local pointer, not the session\<close>
      else Inr (s, [Send_headers], 0))"

definition on_body :: "u8 list \<Rightarrow> pss \<Rightarrow> pss" where
  "on_body chunk p =
     (case pss_data p of
        None \<Rightarrow> p\<lparr>pss_data := Some chunk, pss_data_len := length chunk\<rparr>
      | Some d \<Rightarrow> p\<lparr>pss_data := Some (take (pss_data_len p) d @ chunk),
                    pss_data_len := pss_data_len p + length chunk\<rparr>)"

definition on_body_completion ::
  "'w env \<Rightarrow> codec \<Rightarrow> string \<Rightarrow> 'w \<Rightarrow> pss \<Rightarrow> 'w callback_result" where
  "on_body_completion E C salt w p =
     and_then (deref (pss_data p)) (\<lambda>d.
       if pss_data_len p = 0 \<or> length d < pss_data_len p then Inl Out_of_bounds
       else and_then (process E C salt w (p\<lparr>pss_data := Some (d[pss_data_len p - 1 := 0])\<rparr>)) (\<lambda>(w, p).
         Inr ((w, Some (p\<lparr>pss_data := None\<rparr>)), [Callback_on_writable], 0)))"

definition on_writeable :: "lws_results \<Rightarrow> 'w \<Rightarrow> pss \<Rightarrow> u8 list \<Rightarrow> 'w callback_result" where
  "on_writeable R w p out =
     (let chunk_size = int full_chunk;
          current_offset = full_chunk * pss_i p;
          chunk_size = (if pss_out_data_len p - chunk_size < 0 then pss_out_data_len p else chunk_size);
          p = p\<lparr>pss_out_data_len := pss_out_data_len p - chunk_size\<rparr>;
          final = (pss_out_data_len p \<le> 0)
      in if chunk_size < 0 \<or> length out < current_offset + nat chunk_size then Inl Out_of_bounds
         else
           let sent = Lws_write (take (nat chunk_size) (drop current_offset out)) final
           in if lws_written R = 0 then Inr ((w, Some p), [sent], 1)
              else
                let p = p\<lparr>pss_i := pss_i p + 1\<rparr>
                in if final then
                     (if transaction_completed_result R \<noteq> 0
                      then Inr ((w, Some p), [sent, Transaction_completed], -1)
                      else Inr ((w, Some p), [sent, Transaction_completed], dummy_result R))
                   else Inr ((w, Some p), [sent, Callback_on_writable], dummy_result R))"

fun http_callback ::
  "'w env \<Rightarrow> codec \<Rightarrow> string \<Rightarrow> lws_results \<Rightarrow> callback_reason \<Rightarrow> 'w conn \<Rightarrow> 'w callback_result" where
  "http_callback E C salt R (CB_HTTP path is_post) s = on_http R path is_post s"
| "http_callback E C salt R (CB_HTTP_BODY chunk) (w, user) =
     and_then (deref user) (\<lambda>p. Inr ((w, Some (on_body chunk p)), [], dummy_result R))"
| "http_callback E C salt R CB_HTTP_BODY_COMPLETION (w, user) =
     and_then (deref user) (\<lambda>p. on_body_completion E C salt w p)"
| "http_callback E C salt R CB_HTTP_WRITEABLE (w, user) =
     (case user of
        None \<Rightarrow> Inr ((w, user), [], -1)
      | Some p \<Rightarrow> (case pss_out_data p of
          None \<Rightarrow> Inr ((w, user), [], -1)
        | Some out \<Rightarrow> on_writeable R w p out))"
| "http_callback E C salt R CB_HTTP_DROP_PROTOCOL (w, user) =
     and_then (deref user) (\<lambda>p.
       Inr ((w, Some (p\<lparr>pss_data := None, pss_out_data := None\<rparr>)), [], 0))"
| "http_callback E C salt R CB_OTHER s = Inr (s, [], dummy_result R)"

text \<open>A sequence of callbacks; the return codes are collected, as the library acts on them.\<close>

fun run_callbacks ::
  "'w env \<Rightarrow> codec \<Rightarrow> string \<Rightarrow> (lws_results \<times> callback_reason) list \<Rightarrow> 'w conn \<Rightarrow>
   ('w conn \<times> lws_action list \<times> int list) outcome" where
  "run_callbacks E C salt [] s = Inr (s, [], [])"
| "run_callbacks E C salt ((R, ev) # evs) s =
     and_then (http_callback E C salt R ev s) (\<lambda>(s, acts, rc).
     and_then (run_callbacks E C salt evs s) (\<lambda>(s, acts', rcs).
       Inr (s, acts @ acts', rc # rcs)))"

section \<open>Receiving the body\<close>

definition body_wf :: "pss \<Rightarrow> bool" where
  "body_wf p \<longleftrightarrow> (case pss_data p of None \<Rightarrow> True | Some d \<Rightarrow> pss_data_len p = length d)"

lemma body_wf_on_body: "body_wf p \<Longrightarrow> body_wf (on_body c p)"
  by (auto simp: body_wf_def on_body_def split: option.splits)

lemma on_body_frame [simp]:
  "pss_out_data (on_body c p) = pss_out_data p" "pss_i (on_body c p) = pss_i p"
  "pss_out_data_len (on_body c p) = pss_out_data_len p" "pss_data (on_body c p) \<noteq> None"
  by (auto simp: on_body_def split: option.splits)

lemma fold_on_body:
  assumes "pss_data p = Some d" "pss_data_len p = length d"
  shows "fold on_body cs p =
    p\<lparr>pss_data := Some (d @ concat cs), pss_data_len := length (d @ concat cs)\<rparr>"
  using assms
proof (induction cs arbitrary: p d)
  case Nil
  then show ?case by simp
next
  case (Cons c cs)
  have "on_body c p = p\<lparr>pss_data := Some (d @ c), pss_data_len := length (d @ c)\<rparr>"
    using Cons.prems by (simp add: on_body_def)
  then show ?case using Cons.IH [of "on_body c p" "d @ c"] by simp
qed

lemma fold_on_body_first:
  assumes "pss_data p = None" "cs \<noteq> []"
  shows "fold on_body cs p =
    p\<lparr>pss_data := Some (concat cs), pss_data_len := length (concat cs)\<rparr>"
proof -
  from assms(2) obtain c cs' where cs: "cs = c # cs'" by (cases cs) auto
  have "on_body c p = p\<lparr>pss_data := Some c, pss_data_len := length c\<rparr>"
    using assms(1) by (simp add: on_body_def)
  then show ?thesis using fold_on_body [of "on_body c p" c cs'] cs by simp
qed

lemma run_callbacks_append:
  "run_callbacks E C salt (evs @ evs') s =
     and_then (run_callbacks E C salt evs s) (\<lambda>(s, acts, rcs).
     and_then (run_callbacks E C salt evs' s) (\<lambda>(s, acts', rcs').
       Inr (s, acts @ acts', rcs @ rcs')))"
proof (induction evs arbitrary: s)
  case Nil
  show ?case by (cases "run_callbacks E C salt evs' s") auto
next
  case (Cons ev evs)
  then show ?case by (cases ev) (simp add: and_then_assoc split_def)
qed

lemma run_body_callbacks:
  "run_callbacks E C salt (map (\<lambda>c. (R, CB_HTTP_BODY c)) cs) (w, Some p) =
     Inr ((w, Some (fold on_body cs p)), [], replicate (length cs) (dummy_result R))"
  by (induction cs arbitrary: p) simp_all

section \<open>Sending the reply\<close>

text \<open>The pieces in which a buffer goes out.\<close>

function chunks :: "u8 list \<Rightarrow> u8 list list" where
  "chunks out =
     (if length out \<le> full_chunk then [out] else take full_chunk out # chunks (drop full_chunk out))"
  by pat_completeness auto
termination
  by (relation "measure length") (auto simp: full_chunk_eq)

declare chunks.simps [simp del]

lemma concat_chunks: "concat (chunks out) = out"
proof (induction out rule: chunks.induct)
  case (1 out)
  then show ?case by (subst chunks.simps) simp
qed

lemma chunks_small: "length out \<le> full_chunk \<Longrightarrow> chunks out = [out]"
  by (subst chunks.simps) simp

lemma chunks_large:
  "full_chunk < length out \<Longrightarrow> chunks out = take full_chunk out # chunks (drop full_chunk out)"
  by (subst chunks.simps) simp

lemma chunks_nonempty [simp]: "chunks out \<noteq> []"
  by (subst chunks.simps) simp

lemma length_chunks: "length (chunks out) = max 1 ((length out + 2030) div 2031)"
proof (induction out rule: chunks.induct)
  case (1 out)
  show ?case
  proof (cases "length out \<le> full_chunk")
    case True
    then have "(length out + 2030) div 2031 \<le> 1" by (simp add: full_chunk_eq)
    with True show ?thesis by (simp add: chunks_small)
  next
    case False
    then have "length (chunks out) = Suc (max 1 ((length out - 2031 + 2030) div 2031))"
      using 1 by (simp add: chunks_large full_chunk_eq)
    moreover have "(length out + 2030) div 2031 = Suc ((length out - 2031 + 2030) div 2031)"
      using False by (simp add: full_chunk_eq)
    moreover have "1 \<le> (length out - 2031 + 2030) div 2031"
      using False by (simp add: full_chunk_eq div_greater_zero_iff Suc_le_eq)
    ultimately show ?thesis by simp
  qed
qed

text \<open>The calls that send one buffer.\<close>

fun write_calls :: "u8 list list \<Rightarrow> lws_action list" where
  "write_calls [] = []"
| "write_calls [c] = [Lws_write c True, Transaction_completed]"
| "write_calls (c # cs) = [Lws_write c False, Callback_on_writable] @ write_calls cs"

fun payload :: "lws_action list \<Rightarrow> u8 list" where
  "payload [] = []"
| "payload (Lws_write b f # as) = b @ payload as"
| "payload (_ # as) = payload as"

fun final_flags :: "lws_action list \<Rightarrow> bool list" where
  "final_flags [] = []"
| "final_flags (Lws_write b f # as) = f # final_flags as"
| "final_flags (_ # as) = final_flags as"

lemma payload_append [simp]: "payload (as @ bs) = payload as @ payload bs"
  by (induction as rule: payload.induct) auto

lemma final_flags_append [simp]: "final_flags (as @ bs) = final_flags as @ final_flags bs"
  by (induction as rule: final_flags.induct) auto

lemma payload_write_calls: "payload (write_calls cs) = concat cs"
  by (induction cs rule: write_calls.induct) auto

lemma final_flags_write_calls:
  "cs \<noteq> [] \<Longrightarrow> final_flags (write_calls cs) = replicate (length cs - 1) False @ [True]"
  by (induction cs rule: write_calls.induct) auto

text \<open>The reply is at chunk \<open>k\<close>.\<close>

definition sending :: "u8 list \<Rightarrow> nat \<Rightarrow> pss \<Rightarrow> bool" where
  "sending out k p \<longleftrightarrow> pss_out_data p = Some out \<and> pss_i p = k \<and>
     full_chunk * k \<le> length out \<and> pss_out_data_len p = int (length out - full_chunk * k)"

definition lws_ok :: "lws_results \<Rightarrow> bool" where
  "lws_ok R \<longleftrightarrow> \<not> add_headers_failed R \<and> \<not> finalize_headers_failed R \<and> lws_written R \<noteq> 0 \<and>
     transaction_completed_result R = 0 \<and> dummy_result R = 0"

lemma on_writeable_eq:
  assumes "pss_i p = k" "length out = full_chunk * k + m" "pss_out_data_len p = int m" "lws_ok R"
  shows "on_writeable R w p out =
    (if m \<le> full_chunk
     then Inr ((w, Some (p\<lparr>pss_out_data_len := 0, pss_i := pss_i p + 1\<rparr>)),
            [Lws_write (take m (drop (full_chunk * k) out)) True, Transaction_completed], 0)
     else Inr ((w, Some (p\<lparr>pss_out_data_len := int (m - full_chunk), pss_i := pss_i p + 1\<rparr>)),
            [Lws_write (take full_chunk (drop (full_chunk * k) out)) False, Callback_on_writable], 0))"
  using assms by (auto simp: on_writeable_def Let_def lws_ok_def of_nat_diff)

text \<open>Writable callbacks until the last chunk send the rest of the buffer, piece by piece.\<close>

lemma run_writeable:
  assumes "pss_out_data p = Some out" "pss_i p = k" "length out = full_chunk * k + m"
    "pss_out_data_len p = int m" "lws_ok R"
  shows "run_callbacks E C salt
      (replicate (length (chunks (drop (full_chunk * k) out))) (R, CB_HTTP_WRITEABLE)) (w, Some p) =
    Inr ((w, Some (p\<lparr>pss_out_data_len := 0, pss_i := k + length (chunks (drop (full_chunk * k) out))\<rparr>)),
      write_calls (chunks (drop (full_chunk * k) out)),
      replicate (length (chunks (drop (full_chunk * k) out))) 0)"
  using assms
proof (induction m arbitrary: p k rule: less_induct)
  case (less m)
  let ?rest = "drop (full_chunk * k) out"
  have len: "length ?rest = m" using less.prems(3) by simp
  note step = on_writeable_eq [OF less.prems(2-5), of w]
  show ?case
  proof (cases "m \<le> full_chunk")
    case True
    then show ?thesis
      using step less.prems len by (simp add: chunks_small)
  next
    case False
    let ?p = "p\<lparr>pss_out_data_len := int (m - full_chunk), pss_i := pss_i p + 1\<rparr>"
    have "m - full_chunk < m" using False by (simp add: full_chunk_eq)
    then have IH: "run_callbacks E C salt
      (replicate (length (chunks (drop (full_chunk * Suc k) out))) (R, CB_HTTP_WRITEABLE)) (w, Some ?p) =
      Inr ((w, Some (?p\<lparr>pss_out_data_len := 0,
              pss_i := Suc k + length (chunks (drop (full_chunk * Suc k) out))\<rparr>)),
        write_calls (chunks (drop (full_chunk * Suc k) out)),
        replicate (length (chunks (drop (full_chunk * Suc k) out))) 0)"
      by (rule less.IH) (use False less.prems in auto)
    have ch: "chunks ?rest = take full_chunk ?rest # chunks (drop (full_chunk * Suc k) out)"
      using False len by (simp add: chunks_large add.commute)
    obtain c cs where cs: "chunks (drop (full_chunk * Suc k) out) = c # cs"
      by (cases "chunks (drop (full_chunk * Suc k) out)") auto
    show ?thesis
      using step IH False less.prems(1,2) unfolding ch cs by simp
  qed
qed

section \<open>A whole transaction\<close>

text \<open>The callbacks of one request: headers, body pieces, completion, then one writable
  callback per piece of the reply.\<close>

definition transaction ::
  "lws_results \<Rightarrow> u8 list list \<Rightarrow> nat \<Rightarrow> (lws_results \<times> callback_reason) list" where
  "transaction R body n =
     (R, CB_HTTP ''api'' True) # map (\<lambda>c. (R, CB_HTTP_BODY c)) body @
     (R, CB_HTTP_BODY_COMPLETION) # replicate n (R, CB_HTTP_WRITEABLE)"

text \<open>The buffer that is verified: the body with its last byte overwritten.\<close>

definition received :: "u8 list list \<Rightarrow> u8 list" where
  "received body = (concat body)[length (concat body) - 1 := 0]"

definition received_pss :: "u8 list list \<Rightarrow> pss" where
  "received_pss body = fresh_pss\<lparr>pss_data := Some (received body), pss_data_len := length (concat body)\<rparr>"

lemma completion_after_body:
  assumes "concat body \<noteq> []"
  shows "http_callback E C salt R CB_HTTP_BODY_COMPLETION (w, Some (fold on_body body fresh_pss)) =
    and_then (process E C salt w (received_pss body)) (\<lambda>(w, p).
      Inr ((w, Some (p\<lparr>pss_data := None\<rparr>)), [Callback_on_writable], 0))"
proof -
  from assms have "body \<noteq> []" by auto
  then have "fold on_body body fresh_pss =
      fresh_pss\<lparr>pss_data := Some (concat body), pss_data_len := length (concat body)\<rparr>"
    by (intro fold_on_body_first) (simp_all add: fresh_pss_def)
  then show ?thesis
    using assms
    by (cases "concat body")
       (simp_all add: on_body_completion_def received_pss_def received_def fresh_pss_def
         del: length_concat concat_eq_Nil_conv)
qed

lemma transaction_run:
  assumes ne: "concat body \<noteq> []" and R: "lws_ok R"
    and pr: "process E C salt w (received_pss body) = Inr (w', p')"
    and out: "pss_out_data p' = Some out" "pss_out_data_len p' = int (length out)" "pss_i p' = 0"
  shows "run_callbacks E C salt (transaction R body (length (chunks out))) (w, Some fresh_pss) =
    Inr ((w', Some (p'\<lparr>pss_data := None, pss_out_data_len := 0, pss_i := length (chunks out)\<rparr>)),
      [Send_headers, Callback_on_writable] @ write_calls (chunks out),
      replicate (length body + 2 + length (chunks out)) 0)"
proof -
  have h: "http_callback E C salt R (CB_HTTP ''api'' True) (w, Some fresh_pss) =
      Inr ((w, Some fresh_pss), [Send_headers], 0)"
    using R by (simp add: on_http_def lws_ok_def)
  have d: "dummy_result R = 0" using R by (simp add: lws_ok_def)
  have "run_callbacks E C salt (replicate (length (chunks out)) (R, CB_HTTP_WRITEABLE))
      (w', Some (p'\<lparr>pss_data := None\<rparr>)) =
    Inr ((w', Some (p'\<lparr>pss_data := None, pss_out_data_len := 0, pss_i := length (chunks out)\<rparr>)),
      write_calls (chunks out), replicate (length (chunks out)) 0)"
    using run_writeable [of "p'\<lparr>pss_data := None\<rparr>" out 0 "length out" R E C salt w'] out R by simp
  then show ?thesis
    unfolding transaction_def run_callbacks.simps h and_then.simps prod.case
      run_callbacks_append run_body_callbacks completion_after_body [OF ne] pr d
    by (simp add: replicate_add replicate_append_same)
qed

section \<open>What process does to the session\<close>

lemma process_cases:
  assumes "process E C salt w p = Inr (w', p')"
  obtains (silent) "p' = p"
  | (answered) r where "p' = store_response C r p"
proof (cases "pss_data p")
  case None
  with assms show ?thesis by (simp add: process_def)
next
  case (Some d)
  let ?buf = "take (pss_data_len p) d"
  show ?thesis
  proof (cases "fb_verify C ?buf = 0 \<and> fb_as_root C ?buf")
    case False
    with assms Some silent show ?thesis by (auto simp: process_def Let_def split: if_splits)
  next
    case True
    with assms Some obtain reply where "and_then (fb_message C ?buf) (dispatch E salt w) = Inr (w', reply)"
      "p' = (case reply of None \<Rightarrow> p | Some r \<Rightarrow> store_response C r p)"
      by (auto simp: process_def and_then_Inr_iff)
    with silent answered show ?thesis by (cases reply) auto
  qed
qed

lemma store_response_simps [simp]:
  "pss_data (store_response C r p) = pss_data p"
  "pss_data_len (store_response C r p) = pss_data_len p"
  "pss_i (store_response C r p) = pss_i p"
  "pss_out_data (store_response C r p) = fb_finalize C r"
  "pss_out_data_len (store_response C r p) =
     (case fb_finalize C r of None \<Rightarrow> 0 | Some b \<Rightarrow> int (length b))"
  by (simp_all add: store_response_def Let_def)

lemma process_frame:
  assumes "process E C salt w p = Inr (w', p')"
  shows "pss_data p' = pss_data p" "pss_data_len p' = pss_data_len p" "pss_i p' = pss_i p"
  by (rule process_cases [OF assms]; simp)+

lemma process_undefined:
  assumes "pss_data p = Some d" "pss_data_len p = length d"
  shows "process E C salt w p = Inl e \<longleftrightarrow>
    fb_verify C d = 0 \<and> fb_as_root C d \<and> and_then (fb_message C d) (dispatch E salt w) = Inl e"
  using assms
  by (cases "and_then (fb_message C d) (dispatch E salt w)") (auto simp: process_def Let_def split: if_splits)

lemma zero_last: "xs \<noteq> [] \<Longrightarrow> xs[length xs - 1 := x] = butlast xs @ [x]"
  by (cases xs rule: rev_cases) simp_all

text \<open>How the completion of a body can fail.\<close>

lemma completion_undefined:
  assumes "pss_data p = Some d" "pss_data_len p = length d" "d \<noteq> []"
  shows "on_body_completion E C salt w p = Inl e \<longleftrightarrow>
    fb_verify C (butlast d @ [0]) = 0 \<and> fb_as_root C (butlast d @ [0]) \<and>
    and_then (fb_message C (butlast d @ [0])) (dispatch E salt w) = Inl e"
proof -
  let ?p = "p\<lparr>pss_data := Some (butlast d @ [0])\<rparr>"
  have "on_body_completion E C salt w p = Inl e \<longleftrightarrow> process E C salt w ?p = Inl e"
    using assms zero_last [OF assms(3), of 0]
    by (cases "process E C salt w ?p") (auto simp: on_body_completion_def)
  also have "\<dots> \<longleftrightarrow> fb_verify C (butlast d @ [0]) = 0 \<and> fb_as_root C (butlast d @ [0]) \<and>
      and_then (fb_message C (butlast d @ [0])) (dispatch E salt w) = Inl e"
    by (rule process_undefined) (use assms in simp_all)
  finally show ?thesis .
qed

section \<open>The transaction as a transition system\<close>

text \<open>The order in which the library calls back: headers, body pieces, if there are any, one
  completion, writable callbacks while they are asked for; dropping the protocol at any
  time.\<close>

datatype phase = Bound | Headers | Body | Reply | Closed

type_synonym 'w txn = "phase \<times> 'w \<times> pss"

definition txn_start :: "'w txn \<Rightarrow> bool" where
  "txn_start s \<longleftrightarrow> fst s = Bound \<and> snd (snd s) = fresh_pss"

inductive txn_step ::
  "'w env \<Rightarrow> codec \<Rightarrow> string \<Rightarrow> 'w txn \<Rightarrow> lws_action list \<Rightarrow> 'w txn \<Rightarrow> bool"
  for E :: "'w env" and C :: codec and salt :: string where
  txn_headers: "http_callback E C salt R (CB_HTTP path is_post) (w, Some p) = Inr ((w', Some p'), acts, 0) \<Longrightarrow>
     txn_step E C salt (Bound, w, p) acts (Headers, w', p')"
| txn_body: "ph = Headers \<or> ph = Body \<Longrightarrow>
     http_callback E C salt R (CB_HTTP_BODY chunk) (w, Some p) = Inr ((w', Some p'), acts, rc) \<Longrightarrow>
     txn_step E C salt (ph, w, p) acts (Body, w', p')"
| txn_completion: "ph = Headers \<or> ph = Body \<Longrightarrow>
     http_callback E C salt R CB_HTTP_BODY_COMPLETION (w, Some p) = Inr ((w', Some p'), acts, rc) \<Longrightarrow>
     txn_step E C salt (ph, w, p) acts (Reply, w', p')"
| txn_writeable:
    "http_callback E C salt R CB_HTTP_WRITEABLE (w, Some p) = Inr ((w', Some p'), acts, rc) \<Longrightarrow>
     txn_step E C salt (Reply, w, p) acts
       (if rc = 0 \<and> Callback_on_writable \<in> set acts then Reply else Closed, w', p')"
| txn_drop:
    "http_callback E C salt R CB_HTTP_DROP_PROTOCOL (w, Some p) = Inr ((w', Some p'), acts, rc) \<Longrightarrow>
     txn_step E C salt (ph, w, p) acts (Closed, w', p')"

inductive_cases txn_step_cases: "txn_step E C salt s acts s'"

definition idle_pss :: "pss \<Rightarrow> bool" where
  "idle_pss p \<longleftrightarrow> pss_out_data p = None \<and> pss_i p = 0"

definition reply_pss :: "pss \<Rightarrow> bool" where
  "reply_pss p \<longleftrightarrow> (case pss_out_data p of None \<Rightarrow> True
     | Some out \<Rightarrow> \<exists>m. length out = full_chunk * pss_i p + m \<and> pss_out_data_len p = int m)"

fun txn_inv :: "'w txn \<Rightarrow> bool" where
  "txn_inv (Bound, w, p) \<longleftrightarrow> idle_pss p \<and> pss_data p = None"
| "txn_inv (Headers, w, p) \<longleftrightarrow> idle_pss p \<and> pss_data p = None"
| "txn_inv (Body, w, p) \<longleftrightarrow> idle_pss p \<and>
     (\<exists>d. pss_data p = Some d \<and> pss_data_len p = length d)"
| "txn_inv (Reply, w, p) \<longleftrightarrow> pss_data p = None \<and> reply_pss p"
| "txn_inv (Closed, w, p) \<longleftrightarrow> True"

lemma completion_reply_pss:
  assumes inv: "idle_pss p" and cb: "on_body_completion E C salt w p = Inr ((w', Some p'), acts, rc)"
  shows "pss_data p' = None \<and> reply_pss p'"
proof -
  from cb obtain d p1 where
    pr: "process E C salt w (p\<lparr>pss_data := Some (d[pss_data_len p - 1 := 0])\<rparr>) = Inr (w', p1)"
    and p': "p' = p1\<lparr>pss_data := None\<rparr>"
    by (auto simp: on_body_completion_def and_then_Inr_iff split: if_splits)
  have "pss_i p1 = 0" using process_frame(3) [OF pr] inv by (simp add: idle_pss_def)
  then have "reply_pss p1"
  proof (cases rule: process_cases [OF pr])
    case 1
    with inv show ?thesis by (simp add: reply_pss_def idle_pss_def)
  next
    case (2 r)
    with \<open>pss_i p1 = 0\<close> show ?thesis by (simp add: reply_pss_def split: option.splits)
  qed
  then show ?thesis by (simp add: p' reply_pss_def split: option.splits)
qed

lemma writeable_total:
  assumes "reply_pss p"
  shows "\<exists>p' acts rc. http_callback E C salt R CB_HTTP_WRITEABLE (w, Some p) = Inr ((w, Some p'), acts, rc) \<and>
     pss_data p' = pss_data p \<and> (Callback_on_writable \<in> set acts \<longrightarrow> reply_pss p')"
proof (cases "pss_out_data p")
  case None
  then show ?thesis by simp
next
  case (Some out)
  with assms obtain m where m: "length out = full_chunk * pss_i p + m" "pss_out_data_len p = int m"
    by (auto simp: reply_pss_def)
  show ?thesis
  proof (cases "full_chunk < m")
    case True
    then have "reply_pss (p\<lparr>pss_out_data_len := int m - int full_chunk, pss_i := Suc (pss_i p)\<rparr>)"
      using Some m by (auto simp: reply_pss_def of_nat_diff intro!: exI [of _ "m - full_chunk"])
    with True Some m show ?thesis
      by (simp add: on_writeable_def Let_def of_nat_diff)
  next
    case False
    with Some m show ?thesis
      by (auto simp: on_writeable_def Let_def of_nat_diff)
  qed
qed

lemma txn_inv_step: 
  assumes step: "txn_step E C salt s acts s'" and inv: "txn_inv s"
  shows "txn_inv s'"
  using step
proof cases
  case txn_headers
  with inv show ?thesis by (auto simp: on_http_def split: if_splits)
next
  case (txn_body ph chunk R w p w' p' rc)
  with inv show ?thesis by (auto simp: idle_pss_def on_body_def split: option.splits)
next
  case (txn_completion ph R w p w' p' rc)
  with inv have "idle_pss p" "on_body_completion E C salt w p = Inr ((w', Some p'), acts, rc)"
    by (auto simp: and_then_Inr_iff)
  from completion_reply_pss [OF this] show ?thesis by (simp add: txn_completion(2))
next
  case (txn_writeable R w p w' p' rc)
  with inv have r: "reply_pss p" "pss_data p = None" by auto
  from writeable_total [OF r(1), of E C salt R w] r(2) txn_writeable(3) show ?thesis
    unfolding txn_writeable(2) by auto
next
  case txn_drop
  then show ?thesis by simp
qed

interpretation txn: safe_machine txn_start "txn_step E C salt" txn_inv for E :: "'w env" and C salt
proof unfold_locales
  show "txn_start s \<Longrightarrow> txn_inv s" for s :: "'w txn"
    by (cases s) (simp add: txn_start_def idle_pss_def fresh_pss_def)
  show "txn_inv s \<Longrightarrow> txn_step E C salt s a s' \<Longrightarrow> txn_inv s'" for s s' :: "'w txn" and a
    using txn_inv_step by blast
qed

end
