(* ===== verification/Inputs.thy ===== *)
theory Inputs
  imports Scenarios Session
begin

text \<open>
  Concrete inputs: a codec, a registration against the reference server, the results of a
  well-behaved libwebsockets, a long reply. They show that the hypotheses of the properties can
  hold.
\<close>

text \<open>A codec for the witnesses: every buffer is the given request, every response is the given
  buffer.\<close>

definition fixed_codec :: "request \<Rightarrow> u8 list \<Rightarrow> codec" where
  "fixed_codec req out = \<lparr>fb_verify = (\<lambda>_. 0), fb_as_root = (\<lambda>_. True), fb_message = (\<lambda>_. Inr req),
     fb_finalize = (\<lambda>_. Some out)\<rparr>"

definition bob :: register_req where
  "bob = \<lparr>rg_username = ''bob'', rg_password = ''pw'', rg_firstName = ''B'', rg_lastName = ''C''\<rparr>"

lemma bob_registers:
  "\<exists>w' i. register ref_env ''weak'' ref_start bob =
      Inr (w', ok_response (Res_Register (b64_loop (snd (access_token ref_env ref_start))))) \<and>
    rf_tables w' = insert_user i ''bob'' (stored_hash ref_env ''weak'' ''pw'') ''B'' ''C''
      (b64_loop (snd (access_token ref_env ref_start))) empty_tables"
proof -
  have fits: "char_count (rg_username bob) \<le> 64" "char_count (rg_firstName bob) \<le> 32" "char_count (rg_lastName bob) \<le> 32"
    by (simp_all add: bob_def char_count_def continuation_byte_def)
  obtain w' where w': "register ref_env ''weak'' ref_start bob =
      Inr (w', ok_response (Res_Register (b64_loop (snd (access_token ref_env ref_start)))))"
    using ref_registers [OF fits, of ref_start] by (auto simp: empty_tables_def fresh_id_def)
  from ref.registered [OF this fits] w' show ?thesis by (auto simp: bob_def)
qed

definition good_lws :: lws_results where
  "good_lws = \<lparr>add_headers_failed = False, finalize_headers_failed = False, lws_written = 1,
     transaction_completed_result = 0, dummy_result = 0\<rparr>"

lemma good_lws_ok [simp]: "lws_ok good_lws"
  by (simp add: lws_ok_def good_lws_def)

definition long_reply :: "u8 list" where
  "long_reply = replicate 5000 7"

lemma length_long_reply: "length long_reply = 5000"
  by (simp only: long_reply_def length_replicate)

end
