(* ===== verification/Fb_Reader.thy ===== *)
theory Fb_Reader
  imports Tt_Prelude
begin

text \<open>
  The generated reader primitives,
  \<open>src/backend/api-schema/request/gen/flatbuffers_common_reader.h\<close>: tables, vectors, strings,
  unions and roots of a buffer. A buffer is the list of its bytes, in the little-endian
  order of the wire; a pointer is a position relative to its first byte, \<open>None\<close> when it is
  null. A read outside the buffer is the outcome \<open>Out_of_bounds\<close>; a failing \<open>assert\<close> (the
  build does not define \<open>NDEBUG\<close>) is \<open>Assert_failed\<close>. Alignment is not modelled.
\<close>

section \<open>Reading the wire\<close>

type_synonym ptr = "int option"

fun le_value :: "u8 list \<Rightarrow> nat" where
  "le_value [] = 0"
| "le_value (b # bs) = unat b + 256 * le_value bs"

definition read_le :: "u8 list \<Rightarrow> int \<Rightarrow> nat \<Rightarrow> nat outcome" where
  "read_le buf p n =
     (if 0 \<le> p \<and> p + int n \<le> int (length buf) then Inr (le_value (take n (drop (nat p) buf)))
      else Inl Out_of_bounds)"

abbreviation read_uoffset :: "u8 list \<Rightarrow> int \<Rightarrow> nat outcome" where
  "read_uoffset buf p \<equiv> read_le buf p 4"

abbreviation read_voffset :: "u8 list \<Rightarrow> int \<Rightarrow> nat outcome" where
  "read_voffset buf p \<equiv> read_le buf p 2"

abbreviation read_utype :: "u8 list \<Rightarrow> int \<Rightarrow> nat outcome" where
  "read_utype buf p \<equiv> read_le buf p 1"

text \<open>The two's complement reading of 32 bits.\<close>

definition signed32 :: "nat \<Rightarrow> int" where
  "signed32 v = (if v < 2 ^ 31 then int v else int v - 2 ^ 32)"

definition read_soffset :: "u8 list \<Rightarrow> int \<Rightarrow> int outcome" where
  "read_soffset buf p = and_then (read_le buf p 4) (\<lambda>v. Inr (signed32 v))"

text \<open>\<open>assert (t != 0)\<close>, then the pointer.\<close>

definition non_null :: "ptr \<Rightarrow> int outcome" where
  "non_null t = (case t of None \<Rightarrow> Inl Assert_failed | Some p \<Rightarrow> Inr p)"

section \<open>Table fields\<close>

text \<open>The offset of field \<open>ID\<close> in a table, 0 when it is absent.\<close>

definition read_vt :: "u8 list \<Rightarrow> nat \<Rightarrow> ptr \<Rightarrow> nat outcome" where
  "read_vt buf ID t =
     and_then (non_null t) (\<lambda>t.
     and_then (read_soffset buf t) (\<lambda>s.
       let vt = t - s in
       and_then (read_voffset buf vt) (\<lambda>vsize.
         if vsize \<ge> 2 * (ID + 3) then read_voffset buf (vt + 2 * (int ID + 2)) else Inr 0)))"

definition field_present :: "u8 list \<Rightarrow> nat \<Rightarrow> ptr \<Rightarrow> bool outcome" where
  "field_present buf ID t = and_then (read_vt buf ID t) (\<lambda>offset. Inr (offset \<noteq> 0))"

definition scalar_field :: "u8 list \<Rightarrow> nat \<Rightarrow> ptr \<Rightarrow> ptr outcome" where
  "scalar_field buf ID t =
     and_then (read_vt buf ID t) (\<lambda>offset.
       Inr (if offset \<noteq> 0 then map_option (\<lambda>t. t + int offset) t else None))"

text \<open>\<open>rd\<close> reads a scalar, \<open>v\<close> is the default of the schema.\<close>

definition scalar_get :: "(u8 list \<Rightarrow> int \<Rightarrow> 'a outcome) \<Rightarrow> 'a \<Rightarrow> u8 list \<Rightarrow> nat \<Rightarrow> ptr \<Rightarrow> 'a outcome" where
  "scalar_get rd v buf ID t =
     and_then (scalar_field buf ID t) (\<lambda>p. case p of Some a \<Rightarrow> rd buf a | None \<Rightarrow> Inr v)"

definition struct_field :: "u8 list \<Rightarrow> nat \<Rightarrow> bool \<Rightarrow> ptr \<Rightarrow> ptr outcome" where
  "struct_field buf ID r t =
     and_then (scalar_field buf ID t) (\<lambda>p.
       if p = None \<and> r then Inl Assert_failed else Inr p)"

definition offset_field :: "u8 list \<Rightarrow> nat \<Rightarrow> bool \<Rightarrow> int \<Rightarrow> ptr \<Rightarrow> ptr outcome" where
  "offset_field buf ID r adjust t =
     and_then (scalar_field buf ID t) (\<lambda>p.
       case p of
         Some elem \<Rightarrow> and_then (read_uoffset buf elem) (\<lambda>u. Inr (Some (elem + adjust + int u)))
       | None \<Rightarrow> if r then Inl Assert_failed else Inr None)"

definition vector_field :: "u8 list \<Rightarrow> nat \<Rightarrow> bool \<Rightarrow> ptr \<Rightarrow> ptr outcome" where
  "vector_field buf ID r t = offset_field buf ID r 4 t"

definition table_field :: "u8 list \<Rightarrow> nat \<Rightarrow> bool \<Rightarrow> ptr \<Rightarrow> ptr outcome" where
  "table_field buf ID r t = offset_field buf ID r 0 t"

section \<open>Vectors and strings\<close>

definition vec_len :: "u8 list \<Rightarrow> ptr \<Rightarrow> nat outcome" where
  "vec_len buf vec = (case vec of Some p \<Rightarrow> read_uoffset buf (p - 4) | None \<Rightarrow> Inr 0)"

definition string_len :: "u8 list \<Rightarrow> ptr \<Rightarrow> nat outcome" where
  "string_len buf s = vec_len buf s"

definition scalar_vec_at ::
  "(u8 list \<Rightarrow> int \<Rightarrow> 'a outcome) \<Rightarrow> nat \<Rightarrow> u8 list \<Rightarrow> ptr \<Rightarrow> nat \<Rightarrow> 'a outcome" where
  "scalar_vec_at rd sz buf vec i =
     and_then (vec_len buf vec) (\<lambda>n.
       if n > i then and_then (deref vec) (\<lambda>p. rd buf (p + int (sz * i))) else Inl Assert_failed)"

definition struct_vec_at :: "nat \<Rightarrow> u8 list \<Rightarrow> ptr \<Rightarrow> nat \<Rightarrow> ptr outcome" where
  "struct_vec_at sz buf vec i =
     and_then (vec_len buf vec) (\<lambda>n.
       if n > i then Inr (map_option (\<lambda>p. p + int (sz * i)) vec) else Inl Assert_failed)"

definition offset_vec_at :: "u8 list \<Rightarrow> int \<Rightarrow> ptr \<Rightarrow> nat \<Rightarrow> ptr outcome" where
  "offset_vec_at buf adjust vec i =
     and_then (vec_len buf vec) (\<lambda>n.
       if n > i then
         and_then (deref vec) (\<lambda>p.
         let elem = p + 4 * int i in
         and_then (read_uoffset buf elem) (\<lambda>u. Inr (Some (elem + int u + adjust))))
       else Inl Assert_failed)"

definition string_vec_len :: "u8 list \<Rightarrow> ptr \<Rightarrow> nat outcome" where
  "string_vec_len buf vec = vec_len buf vec"

definition string_vec_at :: "u8 list \<Rightarrow> ptr \<Rightarrow> nat \<Rightarrow> ptr outcome" where
  "string_vec_at buf vec i = offset_vec_at buf 4 vec i"

definition string_cast_from_generic :: "ptr \<Rightarrow> ptr" where
  "string_cast_from_generic p = map_option (\<lambda>a. a + 4) p"

definition generic_vec_len :: "u8 list \<Rightarrow> ptr \<Rightarrow> nat outcome" where
  "generic_vec_len buf vec = vec_len buf vec"

definition generic_vec_at :: "u8 list \<Rightarrow> ptr \<Rightarrow> nat \<Rightarrow> ptr outcome" where
  "generic_vec_at buf vec i = offset_vec_at buf 0 vec i"

definition generic_vec_at_as_string :: "u8 list \<Rightarrow> ptr \<Rightarrow> nat \<Rightarrow> ptr outcome" where
  "generic_vec_at_as_string buf vec i = offset_vec_at buf 4 vec i"

text \<open>What a C function sees of a string pointer: the characters before the first NUL. What a
  reader of a byte vector sees: as many bytes as its header counts.\<close>

definition c_string_at :: "u8 list \<Rightarrow> ptr \<Rightarrow> string outcome" where
  "c_string_at buf s =
     and_then (deref s) (\<lambda>p.
       if 0 \<le> p \<and> 0 \<in> set (drop (nat p) buf)
       then Inr (map (\<lambda>b. char_of (unat b)) (takeWhile (\<lambda>b. b \<noteq> 0) (drop (nat p) buf))) else Inl Out_of_bounds)"

definition vec_bytes :: "u8 list \<Rightarrow> ptr \<Rightarrow> u8 list outcome" where
  "vec_bytes buf vec =
     and_then (vec_len buf vec) (\<lambda>n.
     and_then (deref vec) (\<lambda>p.
       if 0 \<le> p \<and> p + int n \<le> int (length buf) then Inr (take n (drop (nat p) buf))
       else Inl Out_of_bounds))"

section \<open>Unions\<close>

record fb_union =
  u_type :: nat
  u_value :: ptr

definition union_type_field :: "u8 list \<Rightarrow> nat \<Rightarrow> ptr \<Rightarrow> nat outcome" where
  "union_type_field buf ID t = scalar_get read_utype 0 buf ID t"

definition union_field :: "u8 list \<Rightarrow> nat \<Rightarrow> bool \<Rightarrow> ptr \<Rightarrow> fb_union outcome" where
  "union_field buf ID r t =
     and_then (union_type_field buf (ID - 1) t) (\<lambda>ty.
       if ty = 0 then Inr \<lparr>u_type = 0, u_value = None\<rparr>
       else and_then (table_field buf ID r t) (\<lambda>v. Inr \<lparr>u_type = ty, u_value = v\<rparr>))"

definition union_as_string :: "u8 list \<Rightarrow> nat \<Rightarrow> bool \<Rightarrow> ptr \<Rightarrow> ptr outcome" where
  "union_as_string buf ID r t =
     and_then (table_field buf ID r t) (\<lambda>v. Inr (string_cast_from_generic v))"

record fb_union_vec =
  uv_type :: ptr
  uv_value :: ptr

definition union_vec_len :: "u8 list \<Rightarrow> fb_union_vec \<Rightarrow> nat outcome" where
  "union_vec_len buf uv = vec_len buf (uv_type uv)"

definition union_vec_at :: "u8 list \<Rightarrow> fb_union_vec \<Rightarrow> nat \<Rightarrow> fb_union outcome" where
  "union_vec_at buf uv i =
     and_then (vec_len buf (uv_type uv)) (\<lambda>n.
       if n > i then
         and_then (deref (uv_type uv)) (\<lambda>p.
         and_then (read_utype buf (p + int i)) (\<lambda>ty.
           if ty = 0 then Inr \<lparr>u_type = 0, u_value = None\<rparr>
           else and_then (generic_vec_at buf (uv_value uv) i) (\<lambda>v. Inr \<lparr>u_type = ty, u_value = v\<rparr>)))
       else Inl Assert_failed)"

definition union_vector_field :: "u8 list \<Rightarrow> nat \<Rightarrow> bool \<Rightarrow> ptr \<Rightarrow> fb_union_vec outcome" where
  "union_vector_field buf ID r t =
     and_then (vector_field buf (ID - 1) r t) (\<lambda>ty.
     and_then (vector_field buf ID r t) (\<lambda>v.
     and_then (vec_len buf ty) (\<lambda>n.
     and_then (vec_len buf v) (\<lambda>m.
       if n = m then Inr \<lparr>uv_type = ty, uv_value = v\<rparr> else Inl Assert_failed))))"

section \<open>Roots and identifiers\<close>

text \<open>\<open>flatbuffers_type_hash_from_string\<close> of the vendored \<open>flatcc_identifier.h\<close>: at most four
  characters, in little-endian order.\<close>

definition type_hash_from_string :: "string \<Rightarrow> nat" where
  "type_hash_from_string fid = le_value (map of_char (take 4 fid))"

definition get_type_hash :: "u8 list \<Rightarrow> nat outcome" where
  "get_type_hash buf = read_uoffset buf 4"

definition has_identifier :: "u8 list \<Rightarrow> string option \<Rightarrow> bool outcome" where
  "has_identifier buf fid =
     (case fid of
        None \<Rightarrow> Inr True
      | Some f \<Rightarrow>
          let id2 = type_hash_from_string f
          in and_then (get_type_hash buf) (\<lambda>h. Inr (id2 = 0 \<or> h = id2)))"

definition has_type_hash :: "u8 list \<Rightarrow> nat \<Rightarrow> bool outcome" where
  "has_type_hash buf thash =
     (if thash = 0 then Inr True else and_then (get_type_hash buf) (\<lambda>h. Inr (h = thash)))"

definition read_size_prefix :: "u8 list \<Rightarrow> (nat \<times> int) outcome" where
  "read_size_prefix buf = and_then (read_uoffset buf 0) (\<lambda>n. Inr (n, 4))"

definition read_root :: "u8 list \<Rightarrow> string option \<Rightarrow> ptr outcome" where
  "read_root buf fid =
     and_then (has_identifier buf fid) (\<lambda>ok.
       if \<not> ok then Inr None else and_then (read_uoffset buf 0) (\<lambda>u. Inr (Some (int u))))"

definition read_typed_root :: "u8 list \<Rightarrow> nat \<Rightarrow> ptr outcome" where
  "read_typed_root buf thash =
     and_then (has_type_hash buf thash) (\<lambda>ok.
       if \<not> ok then Inr None else and_then (read_uoffset buf 0) (\<lambda>u. Inr (Some (int u))))"

end
