(* ===== verification/Fb_Request.thy ===== *)
theory Fb_Request
  imports Fb_Reader Wire
begin

text \<open>
  The generated readers of the requests, \<open>src/backend/api-schema/request/gen/*_reader.h\<close>: one
  group of accessors per table, as the macros of the common header expand them, and the
  reading of a whole request, as the handlers of \<open>src/backend/src/api\<close> and \<open>process\<close> do it
  field by field.
\<close>

unbundle bit_operations_syntax

section \<open>Scalars\<close>

definition read_bool :: "u8 list \<Rightarrow> int \<Rightarrow> bool outcome" where
  "read_bool buf p = and_then (read_le buf p 1) (\<lambda>b. Inr (b \<noteq> 0))"

definition read_int64 :: "u8 list \<Rightarrow> int \<Rightarrow> u64 outcome" where
  "read_int64 buf p = and_then (read_le buf p 8) (\<lambda>v. Inr (of_nat v))"

text \<open>A \<open>binary64\<close> from its bits.\<close>

definition double_of_bits :: "nat \<Rightarrow> double" where
  "double_of_bits b =
     (let s = (b \<ge> 2 ^ 63);
          e = (b div 2 ^ 52) mod 2048;
          m = b mod 2 ^ 52
      in if e = 2047 then (if m = 0 then Inf s else NaN s)
         else if e = 0 then Fin s m (- 1074)
         else Fin s (2 ^ 52 + m) (int e - 1075))"

definition read_double :: "u8 list \<Rightarrow> int \<Rightarrow> double outcome" where
  "read_double buf p = and_then (read_le buf p 8) (\<lambda>v. Inr (double_of_bits v))"

section \<open>The accessors\<close>

text \<open>\<open>login_reader.h\<close>\<close>

definition Login_identifier :: "string option" where
  "Login_identifier = None"

definition Login_type_hash :: "nat" where
  "Login_type_hash = 0xe427450f"

definition Login_type_identifier :: "string" where
  "Login_type_identifier = [CHR 0x0F, CHR 0x45, CHR 0x27, CHR 0xE4]"

definition Login_vec_len :: "u8 list \<Rightarrow> ptr \<Rightarrow> nat outcome" where
  "Login_vec_len buf vec = vec_len buf vec"

definition Login_vec_at :: "u8 list \<Rightarrow> ptr \<Rightarrow> nat \<Rightarrow> ptr outcome" where
  "Login_vec_at buf vec i = offset_vec_at buf 0 vec i"

definition Login_as_root :: "u8 list \<Rightarrow> ptr outcome" where
  "Login_as_root buf = read_root buf Login_identifier"

definition Login_as_typed_root :: "u8 list \<Rightarrow> ptr outcome" where
  "Login_as_typed_root buf = read_typed_root buf Login_type_hash"

definition Login_username_get :: "u8 list \<Rightarrow> ptr \<Rightarrow> ptr outcome" where
  "Login_username_get buf t = vector_field buf 0 True t"

definition Login_password_get :: "u8 list \<Rightarrow> ptr \<Rightarrow> ptr outcome" where
  "Login_password_get buf t = vector_field buf 1 True t"

text \<open>\<open>register_reader.h\<close>\<close>

definition Register_identifier :: "string option" where
  "Register_identifier = None"

definition Register_type_hash :: "nat" where
  "Register_type_hash = 0x65a90103"

definition Register_type_identifier :: "string" where
  "Register_type_identifier = [CHR 0x03, CHR 0x01, CHR 0xA9, CHR 0x65]"

definition Register_vec_len :: "u8 list \<Rightarrow> ptr \<Rightarrow> nat outcome" where
  "Register_vec_len buf vec = vec_len buf vec"

definition Register_vec_at :: "u8 list \<Rightarrow> ptr \<Rightarrow> nat \<Rightarrow> ptr outcome" where
  "Register_vec_at buf vec i = offset_vec_at buf 0 vec i"

definition Register_as_root :: "u8 list \<Rightarrow> ptr outcome" where
  "Register_as_root buf = read_root buf Register_identifier"

definition Register_as_typed_root :: "u8 list \<Rightarrow> ptr outcome" where
  "Register_as_typed_root buf = read_typed_root buf Register_type_hash"

definition Register_username_get :: "u8 list \<Rightarrow> ptr \<Rightarrow> ptr outcome" where
  "Register_username_get buf t = vector_field buf 0 True t"

definition Register_password_get :: "u8 list \<Rightarrow> ptr \<Rightarrow> ptr outcome" where
  "Register_password_get buf t = vector_field buf 1 True t"

definition Register_firstName_get :: "u8 list \<Rightarrow> ptr \<Rightarrow> ptr outcome" where
  "Register_firstName_get buf t = vector_field buf 2 True t"

definition Register_lastName_get :: "u8 list \<Rightarrow> ptr \<Rightarrow> ptr outcome" where
  "Register_lastName_get buf t = vector_field buf 3 True t"

text \<open>\<open>get_me_reader.h\<close>\<close>

definition GetMe_identifier :: "string option" where
  "GetMe_identifier = None"

definition GetMe_type_hash :: "nat" where
  "GetMe_type_hash = 0x9dd8e14c"

definition GetMe_type_identifier :: "string" where
  "GetMe_type_identifier = [CHR 0x4C, CHR 0xE1, CHR 0xD8, CHR 0x9D]"

definition GetMe_vec_len :: "u8 list \<Rightarrow> ptr \<Rightarrow> nat outcome" where
  "GetMe_vec_len buf vec = vec_len buf vec"

definition GetMe_vec_at :: "u8 list \<Rightarrow> ptr \<Rightarrow> nat \<Rightarrow> ptr outcome" where
  "GetMe_vec_at buf vec i = offset_vec_at buf 0 vec i"

definition GetMe_as_root :: "u8 list \<Rightarrow> ptr outcome" where
  "GetMe_as_root buf = read_root buf GetMe_identifier"

definition GetMe_as_typed_root :: "u8 list \<Rightarrow> ptr outcome" where
  "GetMe_as_typed_root buf = read_typed_root buf GetMe_type_hash"

definition GetMe_token_get :: "u8 list \<Rightarrow> ptr \<Rightarrow> ptr outcome" where
  "GetMe_token_get buf t = vector_field buf 0 True t"

text \<open>\<open>edit_me_reader.h\<close>\<close>

definition EditMe_identifier :: "string option" where
  "EditMe_identifier = None"

definition EditMe_type_hash :: "nat" where
  "EditMe_type_hash = 0xa085c6c"

definition EditMe_type_identifier :: "string" where
  "EditMe_type_identifier = [CHR 0x6C, CHR 0x5C, CHR 0x08, CHR 0x0A]"

definition EditMe_vec_len :: "u8 list \<Rightarrow> ptr \<Rightarrow> nat outcome" where
  "EditMe_vec_len buf vec = vec_len buf vec"

definition EditMe_vec_at :: "u8 list \<Rightarrow> ptr \<Rightarrow> nat \<Rightarrow> ptr outcome" where
  "EditMe_vec_at buf vec i = offset_vec_at buf 0 vec i"

definition EditMe_as_root :: "u8 list \<Rightarrow> ptr outcome" where
  "EditMe_as_root buf = read_root buf EditMe_identifier"

definition EditMe_as_typed_root :: "u8 list \<Rightarrow> ptr outcome" where
  "EditMe_as_typed_root buf = read_typed_root buf EditMe_type_hash"

definition EditMe_username_get :: "u8 list \<Rightarrow> ptr \<Rightarrow> ptr outcome" where
  "EditMe_username_get buf t = vector_field buf 0 False t"

definition EditMe_username_is_present :: "u8 list \<Rightarrow> ptr \<Rightarrow> bool outcome" where
  "EditMe_username_is_present buf t = field_present buf 0 t"

definition EditMe_password_get :: "u8 list \<Rightarrow> ptr \<Rightarrow> ptr outcome" where
  "EditMe_password_get buf t = vector_field buf 1 False t"

definition EditMe_password_is_present :: "u8 list \<Rightarrow> ptr \<Rightarrow> bool outcome" where
  "EditMe_password_is_present buf t = field_present buf 1 t"

definition EditMe_firstName_get :: "u8 list \<Rightarrow> ptr \<Rightarrow> ptr outcome" where
  "EditMe_firstName_get buf t = vector_field buf 2 False t"

definition EditMe_firstName_is_present :: "u8 list \<Rightarrow> ptr \<Rightarrow> bool outcome" where
  "EditMe_firstName_is_present buf t = field_present buf 2 t"

definition EditMe_lastName_get :: "u8 list \<Rightarrow> ptr \<Rightarrow> ptr outcome" where
  "EditMe_lastName_get buf t = vector_field buf 3 False t"

definition EditMe_lastName_is_present :: "u8 list \<Rightarrow> ptr \<Rightarrow> bool outcome" where
  "EditMe_lastName_is_present buf t = field_present buf 3 t"

definition EditMe_admin_get :: "u8 list \<Rightarrow> ptr \<Rightarrow> bool outcome" where
  "EditMe_admin_get buf t = scalar_get read_bool False buf 4 t"

definition EditMe_token_get :: "u8 list \<Rightarrow> ptr \<Rightarrow> ptr outcome" where
  "EditMe_token_get buf t = vector_field buf 5 True t"

text \<open>\<open>request_contract_reader.h\<close>\<close>

definition RequestContract_identifier :: "string option" where
  "RequestContract_identifier = None"

definition RequestContract_type_hash :: "nat" where
  "RequestContract_type_hash = 0x665001b1"

definition RequestContract_type_identifier :: "string" where
  "RequestContract_type_identifier = [CHR 0xB1, CHR 0x01, CHR 0x50, CHR 0x66]"

definition RequestContract_vec_len :: "u8 list \<Rightarrow> ptr \<Rightarrow> nat outcome" where
  "RequestContract_vec_len buf vec = vec_len buf vec"

definition RequestContract_vec_at :: "u8 list \<Rightarrow> ptr \<Rightarrow> nat \<Rightarrow> ptr outcome" where
  "RequestContract_vec_at buf vec i = offset_vec_at buf 0 vec i"

definition RequestContract_as_root :: "u8 list \<Rightarrow> ptr outcome" where
  "RequestContract_as_root buf = read_root buf RequestContract_identifier"

definition RequestContract_as_typed_root :: "u8 list \<Rightarrow> ptr outcome" where
  "RequestContract_as_typed_root buf = read_typed_root buf RequestContract_type_hash"

definition RequestContract_token_get :: "u8 list \<Rightarrow> ptr \<Rightarrow> ptr outcome" where
  "RequestContract_token_get buf t = vector_field buf 0 True t"

definition RequestContract_name_get :: "u8 list \<Rightarrow> ptr \<Rightarrow> ptr outcome" where
  "RequestContract_name_get buf t = vector_field buf 1 True t"

definition RequestContract_description_get :: "u8 list \<Rightarrow> ptr \<Rightarrow> ptr outcome" where
  "RequestContract_description_get buf t = vector_field buf 2 False t"

definition RequestContract_description_is_present :: "u8 list \<Rightarrow> ptr \<Rightarrow> bool outcome" where
  "RequestContract_description_is_present buf t = field_present buf 2 t"

definition RequestContract_price_get :: "u8 list \<Rightarrow> ptr \<Rightarrow> double outcome" where
  "RequestContract_price_get buf t = scalar_get read_double (Fin True 1 0) buf 3 t"

definition RequestContract_attachment_get :: "u8 list \<Rightarrow> ptr \<Rightarrow> ptr outcome" where
  "RequestContract_attachment_get buf t = vector_field buf 4 False t"

definition RequestContract_attachment_is_present :: "u8 list \<Rightarrow> ptr \<Rightarrow> bool outcome" where
  "RequestContract_attachment_is_present buf t = field_present buf 4 t"

text \<open>\<open>list_contracts_reader.h\<close>\<close>

definition ListContracts_identifier :: "string option" where
  "ListContracts_identifier = None"

definition ListContracts_type_hash :: "nat" where
  "ListContracts_type_hash = 0xbc252825"

definition ListContracts_type_identifier :: "string" where
  "ListContracts_type_identifier = [CHR 0x25, CHR 0x28, CHR 0x25, CHR 0xBC]"

definition ListContracts_vec_len :: "u8 list \<Rightarrow> ptr \<Rightarrow> nat outcome" where
  "ListContracts_vec_len buf vec = vec_len buf vec"

definition ListContracts_vec_at :: "u8 list \<Rightarrow> ptr \<Rightarrow> nat \<Rightarrow> ptr outcome" where
  "ListContracts_vec_at buf vec i = offset_vec_at buf 0 vec i"

definition ListContracts_as_root :: "u8 list \<Rightarrow> ptr outcome" where
  "ListContracts_as_root buf = read_root buf ListContracts_identifier"

definition ListContracts_as_typed_root :: "u8 list \<Rightarrow> ptr outcome" where
  "ListContracts_as_typed_root buf = read_typed_root buf ListContracts_type_hash"

definition ListContracts_token_get :: "u8 list \<Rightarrow> ptr \<Rightarrow> ptr outcome" where
  "ListContracts_token_get buf t = vector_field buf 0 True t"

text \<open>\<open>check_contract_reader.h\<close>\<close>

definition CheckContract_identifier :: "string option" where
  "CheckContract_identifier = None"

definition CheckContract_type_hash :: "nat" where
  "CheckContract_type_hash = 0xbf6e5a58"

definition CheckContract_type_identifier :: "string" where
  "CheckContract_type_identifier = [CHR 0x58, CHR 0x5A, CHR 0x6E, CHR 0xBF]"

definition CheckContract_vec_len :: "u8 list \<Rightarrow> ptr \<Rightarrow> nat outcome" where
  "CheckContract_vec_len buf vec = vec_len buf vec"

definition CheckContract_vec_at :: "u8 list \<Rightarrow> ptr \<Rightarrow> nat \<Rightarrow> ptr outcome" where
  "CheckContract_vec_at buf vec i = offset_vec_at buf 0 vec i"

definition CheckContract_as_root :: "u8 list \<Rightarrow> ptr outcome" where
  "CheckContract_as_root buf = read_root buf CheckContract_identifier"

definition CheckContract_as_typed_root :: "u8 list \<Rightarrow> ptr outcome" where
  "CheckContract_as_typed_root buf = read_typed_root buf CheckContract_type_hash"

definition CheckContract_token_get :: "u8 list \<Rightarrow> ptr \<Rightarrow> ptr outcome" where
  "CheckContract_token_get buf t = vector_field buf 0 True t"

definition CheckContract_id_get :: "u8 list \<Rightarrow> ptr \<Rightarrow> u64 outcome" where
  "CheckContract_id_get buf t = scalar_get read_int64 (- 1) buf 1 t"

text \<open>\<open>request_api_reader.h\<close>\<close>

definition Message_identifier :: "string option" where
  "Message_identifier = None"

definition Message_type_hash :: "nat" where
  "Message_type_hash = 0xdeeb4dc1"

definition Message_type_identifier :: "string" where
  "Message_type_identifier = [CHR 0xC1, CHR 0x4D, CHR 0xEB, CHR 0xDE]"

definition Message_vec_len :: "u8 list \<Rightarrow> ptr \<Rightarrow> nat outcome" where
  "Message_vec_len buf vec = vec_len buf vec"

definition Message_vec_at :: "u8 list \<Rightarrow> ptr \<Rightarrow> nat \<Rightarrow> ptr outcome" where
  "Message_vec_at buf vec i = offset_vec_at buf 0 vec i"

definition Message_as_root :: "u8 list \<Rightarrow> ptr outcome" where
  "Message_as_root buf = read_root buf Message_identifier"

definition Message_as_typed_root :: "u8 list \<Rightarrow> ptr outcome" where
  "Message_as_typed_root buf = read_typed_root buf Message_type_hash"

definition Message_msg_type_get :: "u8 list \<Rightarrow> ptr \<Rightarrow> nat outcome" where
  "Message_msg_type_get buf t = union_type_field buf (1 - 1) t"

definition Message_msg_get :: "u8 list \<Rightarrow> ptr \<Rightarrow> ptr outcome" where
  "Message_msg_get buf t = table_field buf 1 True t"

definition Message_msg_union :: "u8 list \<Rightarrow> ptr \<Rightarrow> fb_union outcome" where
  "Message_msg_union buf t = union_field buf 1 True t"

section \<open>Type codes\<close>

definition MessageType_type_name :: "nat \<Rightarrow> string" where
  "MessageType_type_name ty =
     (if ty = 0 then ''NONE'' else if ty = 1 then ''Login'' else if ty = 2 then ''Register''
      else if ty = 3 then ''GetMe'' else if ty = 4 then ''EditMe''
      else if ty = 5 then ''RequestContract'' else if ty = 6 then ''ListContracts''
      else if ty = 7 then ''CheckContract'' else [])"

definition MessageType_is_known_type :: "nat \<Rightarrow> bool" where
  "MessageType_is_known_type ty =
     (if ty = 0 then True else if ty = 1 then True else if ty = 2 then True
      else if ty = 3 then True else if ty = 4 then True else if ty = 5 then True
      else if ty = 6 then True else if ty = 7 then True else False)"

text \<open>\<open>flatbuffers_type_hash_from_name\<close> of the vendored \<open>flatcc_identifier.h\<close>.\<close>

definition type_hash_from_name :: "string \<Rightarrow> 32 word" where
  "type_hash_from_name name =
     (let hash = fold (\<lambda>c h. (h XOR of_char c) * 16777619) name 2166136261
      in if hash = 0 then 2166136261 else hash)"

section \<open>Reading a request\<close>

text \<open>A string through its getter; an optional one when it is present.\<close>

definition get_string ::
  "(u8 list \<Rightarrow> ptr \<Rightarrow> ptr outcome) \<Rightarrow> u8 list \<Rightarrow> ptr \<Rightarrow> string outcome" where
  "get_string getter buf t = and_then (getter buf t) (c_string_at buf)"

definition get_optional ::
  "(u8 list \<Rightarrow> ptr \<Rightarrow> bool outcome) \<Rightarrow> (u8 list \<Rightarrow> ptr \<Rightarrow> 'a outcome) \<Rightarrow> u8 list \<Rightarrow> ptr \<Rightarrow>
   'a option outcome" where
  "get_optional is_present getter buf t =
     and_then (is_present buf t) (\<lambda>p.
       if p then and_then (getter buf t) (\<lambda>x. Inr (Some x)) else Inr None)"

definition read_login :: "u8 list \<Rightarrow> ptr \<Rightarrow> login_req outcome" where
  "read_login buf t =
     and_then (get_string Login_username_get buf t) (\<lambda>u.
     and_then (get_string Login_password_get buf t) (\<lambda>p.
       Inr \<lparr>lg_username = u, lg_password = p\<rparr>))"

definition read_register :: "u8 list \<Rightarrow> ptr \<Rightarrow> register_req outcome" where
  "read_register buf t =
     and_then (get_string Register_username_get buf t) (\<lambda>u.
     and_then (get_string Register_password_get buf t) (\<lambda>p.
     and_then (get_string Register_firstName_get buf t) (\<lambda>f.
     and_then (get_string Register_lastName_get buf t) (\<lambda>l.
       Inr \<lparr>rg_username = u, rg_password = p, rg_firstName = f, rg_lastName = l\<rparr>))))"

definition read_get_me :: "u8 list \<Rightarrow> ptr \<Rightarrow> get_me_req outcome" where
  "read_get_me buf t =
     and_then (get_string GetMe_token_get buf t) (\<lambda>k. Inr \<lparr>gm_token = k\<rparr>)"

definition read_edit_me :: "u8 list \<Rightarrow> ptr \<Rightarrow> edit_me_req outcome" where
  "read_edit_me buf t =
     and_then (get_string EditMe_token_get buf t) (\<lambda>k.
     and_then (EditMe_admin_get buf t) (\<lambda>a.
     and_then (get_optional EditMe_username_is_present (get_string EditMe_username_get) buf t) (\<lambda>u.
     and_then (get_optional EditMe_password_is_present (get_string EditMe_password_get) buf t) (\<lambda>p.
     and_then (get_optional EditMe_firstName_is_present (get_string EditMe_firstName_get) buf t) (\<lambda>f.
     and_then (get_optional EditMe_lastName_is_present (get_string EditMe_lastName_get) buf t) (\<lambda>l.
       Inr \<lparr>em_username = u, em_password = p, em_firstName = f, em_lastName = l, em_admin = a,
            em_token = k\<rparr>))))))"

definition get_bytes ::
  "(u8 list \<Rightarrow> ptr \<Rightarrow> ptr outcome) \<Rightarrow> u8 list \<Rightarrow> ptr \<Rightarrow> u8 list outcome" where
  "get_bytes getter buf t = and_then (getter buf t) (vec_bytes buf)"

definition read_request_contract :: "u8 list \<Rightarrow> ptr \<Rightarrow> request_contract_req outcome" where
  "read_request_contract buf t =
     and_then (get_string RequestContract_token_get buf t) (\<lambda>k.
     and_then (get_string RequestContract_name_get buf t) (\<lambda>n.
     and_then (RequestContract_price_get buf t) (\<lambda>pr.
     and_then (get_optional RequestContract_description_is_present
                 (get_string RequestContract_description_get) buf t) (\<lambda>d.
     and_then (get_optional RequestContract_attachment_is_present
                 (get_bytes RequestContract_attachment_get) buf t) (\<lambda>a.
       Inr \<lparr>rc_token = k, rc_name = n, rc_description = d, rc_price = pr, rc_attachment = a\<rparr>)))))"

definition read_list_contracts :: "u8 list \<Rightarrow> ptr \<Rightarrow> list_contracts_req outcome" where
  "read_list_contracts buf t =
     and_then (get_string ListContracts_token_get buf t) (\<lambda>k. Inr \<lparr>lc_token = k\<rparr>)"

text \<open>The handler uses the identifier only; the token is part of the record for the properties
  that say so.\<close>

definition read_check_contract :: "u8 list \<Rightarrow> ptr \<Rightarrow> check_contract_req outcome" where
  "read_check_contract buf t =
     and_then (get_string CheckContract_token_get buf t) (\<lambda>k.
     and_then (CheckContract_id_get buf t) (\<lambda>i. Inr \<lparr>ck_token = k, ck_id = i\<rparr>))"

text \<open>The \<open>switch\<close> of \<open>process\<close> on the union of the root table.\<close>

definition read_union :: "u8 list \<Rightarrow> fb_union \<Rightarrow> request outcome" where
  "read_union buf u =
     (let v = u_value u
      in if u_type u = 1 then and_then (read_login buf v) (\<lambda>r. Inr (Req_Login r))
         else if u_type u = 2 then and_then (read_register buf v) (\<lambda>r. Inr (Req_Register r))
         else if u_type u = 3 then and_then (read_get_me buf v) (\<lambda>r. Inr (Req_GetMe r))
         else if u_type u = 4 then and_then (read_edit_me buf v) (\<lambda>r. Inr (Req_EditMe r))
         else if u_type u = 5 then and_then (read_request_contract buf v) (\<lambda>r. Inr (Req_RequestContract r))
         else if u_type u = 6 then and_then (read_list_contracts buf v) (\<lambda>r. Inr (Req_ListContracts r))
         else if u_type u = 7 then and_then (read_check_contract buf v) (\<lambda>r. Inr (Req_CheckContract r))
         else Inr (Req_Other (of_nat (u_type u))))"

definition read_message :: "u8 list \<Rightarrow> request outcome" where
  "read_message buf =
     and_then (Message_as_root buf) (\<lambda>root.
     and_then (Message_msg_union buf root) (read_union buf))"

section \<open>The type hashes\<close>

lemmas type_hash_defs = Login_type_hash_def Register_type_hash_def GetMe_type_hash_def
  EditMe_type_hash_def RequestContract_type_hash_def ListContracts_type_hash_def
  CheckContract_type_hash_def Message_type_hash_def

lemmas type_identifier_defs = Login_type_identifier_def Register_type_identifier_def
  GetMe_type_identifier_def EditMe_type_identifier_def RequestContract_type_identifier_def
  ListContracts_type_identifier_def CheckContract_type_identifier_def Message_type_identifier_def

lemma identifier_of_hash:
  "type_hash_from_string Login_type_identifier = Login_type_hash"
  "type_hash_from_string Register_type_identifier = Register_type_hash"
  "type_hash_from_string GetMe_type_identifier = GetMe_type_hash"
  "type_hash_from_string EditMe_type_identifier = EditMe_type_hash"
  "type_hash_from_string RequestContract_type_identifier = RequestContract_type_hash"
  "type_hash_from_string ListContracts_type_identifier = ListContracts_type_hash"
  "type_hash_from_string CheckContract_type_identifier = CheckContract_type_hash"
  "type_hash_from_string Message_type_identifier = Message_type_hash"
  by (simp_all add: type_hash_from_string_def type_hash_defs type_identifier_defs of_char_def)

lemma hash_of_name:
  "unat (type_hash_from_name ''TomTomBackend.Request.Login'') = Login_type_hash"
  "unat (type_hash_from_name ''TomTomBackend.Request.Register'') = Register_type_hash"
  "unat (type_hash_from_name ''TomTomBackend.Request.GetMe'') = GetMe_type_hash"
  "unat (type_hash_from_name ''TomTomBackend.Request.EditMe'') = EditMe_type_hash"
  "unat (type_hash_from_name ''TomTomBackend.Request.RequestContract'') = RequestContract_type_hash"
  "unat (type_hash_from_name ''TomTomBackend.Request.ListContracts'') = ListContracts_type_hash"
  "unat (type_hash_from_name ''TomTomBackend.Request.CheckContract'') = CheckContract_type_hash"
  "unat (type_hash_from_name ''TomTomBackend.Request.Message'') = Message_type_hash"
  by (simp_all add: type_hash_from_name_def type_hash_defs)

text \<open>The type hash in each generated header is the FNV-1a hash of the qualified name of its
  table, the type identifier is that hash in wire order, and no two tables share it.\<close>

theorem type_hashes:
  "unat (type_hash_from_name ''TomTomBackend.Request.Login'') = Login_type_hash \<and>
     type_hash_from_string Login_type_identifier = Login_type_hash \<and>
   unat (type_hash_from_name ''TomTomBackend.Request.Register'') = Register_type_hash \<and>
     type_hash_from_string Register_type_identifier = Register_type_hash \<and>
   unat (type_hash_from_name ''TomTomBackend.Request.GetMe'') = GetMe_type_hash \<and>
     type_hash_from_string GetMe_type_identifier = GetMe_type_hash \<and>
   unat (type_hash_from_name ''TomTomBackend.Request.EditMe'') = EditMe_type_hash \<and>
     type_hash_from_string EditMe_type_identifier = EditMe_type_hash \<and>
   unat (type_hash_from_name ''TomTomBackend.Request.RequestContract'') = RequestContract_type_hash \<and>
     type_hash_from_string RequestContract_type_identifier = RequestContract_type_hash \<and>
   unat (type_hash_from_name ''TomTomBackend.Request.ListContracts'') = ListContracts_type_hash \<and>
     type_hash_from_string ListContracts_type_identifier = ListContracts_type_hash \<and>
   unat (type_hash_from_name ''TomTomBackend.Request.CheckContract'') = CheckContract_type_hash \<and>
     type_hash_from_string CheckContract_type_identifier = CheckContract_type_hash \<and>
   unat (type_hash_from_name ''TomTomBackend.Request.Message'') = Message_type_hash \<and>
     type_hash_from_string Message_type_identifier = Message_type_hash \<and>
   distinct [Login_type_hash, Register_type_hash, GetMe_type_hash, EditMe_type_hash,
     RequestContract_type_hash, ListContracts_type_hash, CheckContract_type_hash, Message_type_hash]"
  by (simp add: hash_of_name identifier_of_hash type_hash_defs)

text \<open>The type codes that have a name are exactly those that the reader knows, they are the
  codes 0 to 7, and the codes that reading a union turns into a request of a known kind are
  those between 1 and 7, under which the request is dispatched.\<close>

theorem known_types:
  "(MessageType_is_known_type ty \<longleftrightarrow> MessageType_type_name ty \<noteq> []) \<and>
   (MessageType_is_known_type ty \<longleftrightarrow> ty \<le> 7) \<and>
   (read_union buf \<lparr>u_type = ty, u_value = v\<rparr> = Inr req \<longrightarrow>
     union_type req = of_nat ty \<and> (ty = 0 \<or> 7 < ty \<longleftrightarrow> req = Req_Other (of_nat ty)))"
proof -
  have "union_type req = of_nat ty \<and> (ty = 0 \<or> 7 < ty \<longleftrightarrow> req = Req_Other (of_nat ty))"
    if "read_union buf \<lparr>u_type = ty, u_value = v\<rparr> = Inr req"
    using that by (auto simp: read_union_def Let_def and_then_Inr_iff split: if_splits)
  moreover have "MessageType_is_known_type ty \<longleftrightarrow> ty \<le> 7"
    by (auto simp: MessageType_is_known_type_def)
  moreover have "MessageType_type_name ty \<noteq> [] \<longleftrightarrow> ty \<le> 7"
    by (auto simp: MessageType_type_name_def)
  ultimately show ?thesis by blast
qed

theorem known_types_witness:
  "read_union [] \<lparr>u_type = 9, u_value = None\<rparr> = Inr (Req_Other 9) \<and>
   \<not> MessageType_is_known_type 9 \<and> union_type (Req_Other 9) = 9"
proof -
  have r: "read_union [] \<lparr>u_type = 9, u_value = None\<rparr> = Inr (Req_Other 9)" by (simp add: read_union_def)
  with known_types [of 9 "[]" None "Req_Other 9"] show ?thesis by (auto simp del: union_type.simps)
qed

end
