(* ===== verification/Fb_Verify.thy ===== *)
theory Fb_Verify
  imports Fb_Request
begin

text \<open>
  The generated verifiers, \<open>src/backend/api-schema/request/gen/*_verifier.h\<close>, over the runtime
  functions that they call. Those are declared, with their contract, in the vendored
  \<open>flatcc_verifier.h\<close> and are a parameter (\<open>verifier\<close>); the locale \<open>flatcc_runtime\<close> states what
  a successful call guarantees. The result: a verified message is read without any
  access outside its buffer, and reading it ends in a failing assertion exactly when the union
  has a type and no value.
\<close>

section \<open>The runtime\<close>

text \<open>The descriptors of \<open>flatcc_verifier.h\<close>; positions are relative to the buffer.\<close>

record table_descriptor =
  td_buf :: "u8 list"
  td_end :: nat
  td_ttl :: int
  td_vtable :: nat
  td_table :: nat
  td_tsize :: nat
  td_vsize :: nat

record union_descriptor =
  ud_buf :: "u8 list"
  ud_end :: nat
  ud_ttl :: int
  ud_type :: nat
  ud_base :: nat
  ud_offset :: nat

record verifier =
  v_field :: "table_descriptor \<Rightarrow> nat \<Rightarrow> nat \<Rightarrow> nat \<Rightarrow> int"
  v_string_field :: "table_descriptor \<Rightarrow> nat \<Rightarrow> bool \<Rightarrow> int"
  v_vector_field :: "table_descriptor \<Rightarrow> nat \<Rightarrow> bool \<Rightarrow> nat \<Rightarrow> nat \<Rightarrow> nat \<Rightarrow> int"
  v_union_field :: "table_descriptor \<Rightarrow> nat \<Rightarrow> bool \<Rightarrow> (union_descriptor \<Rightarrow> int) \<Rightarrow> int"
  v_union_table :: "union_descriptor \<Rightarrow> (table_descriptor \<Rightarrow> int) \<Rightarrow> int"
  v_table_as_root :: "u8 list \<Rightarrow> string option \<Rightarrow> (table_descriptor \<Rightarrow> int) \<Rightarrow> int"
  v_table_as_typed_root :: "u8 list \<Rightarrow> nat \<Rightarrow> (table_descriptor \<Rightarrow> int) \<Rightarrow> int"

text \<open>\<open>if ((ret = check)) return ret;\<close> repeated: the first result that is not \<open>flatcc_verify_ok\<close>.\<close>

fun first_failure :: "int list \<Rightarrow> int" where
  "first_failure [] = 0"
| "first_failure (ret # rets) = (if ret \<noteq> 0 then ret else first_failure rets)"

section \<open>The generated verifiers\<close>

text \<open>\<open>login_verifier.h\<close>\<close>

definition Login_verify_table :: "verifier \<Rightarrow> table_descriptor \<Rightarrow> int" where
  "Login_verify_table V td =
     first_failure
       [v_string_field V td 0 True,
        v_string_field V td 1 True]"

definition Login_verify_as_root :: "verifier \<Rightarrow> u8 list \<Rightarrow> int" where
  "Login_verify_as_root V buf =
     v_table_as_root V buf Login_identifier (Login_verify_table V)"

definition Login_verify_as_typed_root :: "verifier \<Rightarrow> u8 list \<Rightarrow> int" where
  "Login_verify_as_typed_root V buf =
     v_table_as_root V buf (Some Login_type_identifier) (Login_verify_table V)"

definition Login_verify_as_root_with_identifier :: "verifier \<Rightarrow> u8 list \<Rightarrow> string option \<Rightarrow> int" where
  "Login_verify_as_root_with_identifier V buf fid =
     v_table_as_root V buf fid (Login_verify_table V)"

definition Login_verify_as_root_with_type_hash :: "verifier \<Rightarrow> u8 list \<Rightarrow> nat \<Rightarrow> int" where
  "Login_verify_as_root_with_type_hash V buf thash =
     v_table_as_typed_root V buf thash (Login_verify_table V)"

text \<open>\<open>register_verifier.h\<close>\<close>

definition Register_verify_table :: "verifier \<Rightarrow> table_descriptor \<Rightarrow> int" where
  "Register_verify_table V td =
     first_failure
       [v_string_field V td 0 True,
        v_string_field V td 1 True,
        v_string_field V td 2 True,
        v_string_field V td 3 True]"

definition Register_verify_as_root :: "verifier \<Rightarrow> u8 list \<Rightarrow> int" where
  "Register_verify_as_root V buf =
     v_table_as_root V buf Register_identifier (Register_verify_table V)"

definition Register_verify_as_typed_root :: "verifier \<Rightarrow> u8 list \<Rightarrow> int" where
  "Register_verify_as_typed_root V buf =
     v_table_as_root V buf (Some Register_type_identifier) (Register_verify_table V)"

definition Register_verify_as_root_with_identifier :: "verifier \<Rightarrow> u8 list \<Rightarrow> string option \<Rightarrow> int" where
  "Register_verify_as_root_with_identifier V buf fid =
     v_table_as_root V buf fid (Register_verify_table V)"

definition Register_verify_as_root_with_type_hash :: "verifier \<Rightarrow> u8 list \<Rightarrow> nat \<Rightarrow> int" where
  "Register_verify_as_root_with_type_hash V buf thash =
     v_table_as_typed_root V buf thash (Register_verify_table V)"

text \<open>\<open>get_me_verifier.h\<close>\<close>

definition GetMe_verify_table :: "verifier \<Rightarrow> table_descriptor \<Rightarrow> int" where
  "GetMe_verify_table V td =
     first_failure
       [v_string_field V td 0 True]"

definition GetMe_verify_as_root :: "verifier \<Rightarrow> u8 list \<Rightarrow> int" where
  "GetMe_verify_as_root V buf =
     v_table_as_root V buf GetMe_identifier (GetMe_verify_table V)"

definition GetMe_verify_as_typed_root :: "verifier \<Rightarrow> u8 list \<Rightarrow> int" where
  "GetMe_verify_as_typed_root V buf =
     v_table_as_root V buf (Some GetMe_type_identifier) (GetMe_verify_table V)"

definition GetMe_verify_as_root_with_identifier :: "verifier \<Rightarrow> u8 list \<Rightarrow> string option \<Rightarrow> int" where
  "GetMe_verify_as_root_with_identifier V buf fid =
     v_table_as_root V buf fid (GetMe_verify_table V)"

definition GetMe_verify_as_root_with_type_hash :: "verifier \<Rightarrow> u8 list \<Rightarrow> nat \<Rightarrow> int" where
  "GetMe_verify_as_root_with_type_hash V buf thash =
     v_table_as_typed_root V buf thash (GetMe_verify_table V)"

text \<open>\<open>edit_me_verifier.h\<close>\<close>

definition EditMe_verify_table :: "verifier \<Rightarrow> table_descriptor \<Rightarrow> int" where
  "EditMe_verify_table V td =
     first_failure
       [v_string_field V td 0 False,
        v_string_field V td 1 False,
        v_string_field V td 2 False,
        v_string_field V td 3 False,
        v_field V td 4 1 1,
        v_string_field V td 5 True]"

definition EditMe_verify_as_root :: "verifier \<Rightarrow> u8 list \<Rightarrow> int" where
  "EditMe_verify_as_root V buf =
     v_table_as_root V buf EditMe_identifier (EditMe_verify_table V)"

definition EditMe_verify_as_typed_root :: "verifier \<Rightarrow> u8 list \<Rightarrow> int" where
  "EditMe_verify_as_typed_root V buf =
     v_table_as_root V buf (Some EditMe_type_identifier) (EditMe_verify_table V)"

definition EditMe_verify_as_root_with_identifier :: "verifier \<Rightarrow> u8 list \<Rightarrow> string option \<Rightarrow> int" where
  "EditMe_verify_as_root_with_identifier V buf fid =
     v_table_as_root V buf fid (EditMe_verify_table V)"

definition EditMe_verify_as_root_with_type_hash :: "verifier \<Rightarrow> u8 list \<Rightarrow> nat \<Rightarrow> int" where
  "EditMe_verify_as_root_with_type_hash V buf thash =
     v_table_as_typed_root V buf thash (EditMe_verify_table V)"

text \<open>\<open>request_contract_verifier.h\<close>\<close>

definition RequestContract_verify_table :: "verifier \<Rightarrow> table_descriptor \<Rightarrow> int" where
  "RequestContract_verify_table V td =
     first_failure
       [v_string_field V td 0 True,
        v_string_field V td 1 True,
        v_string_field V td 2 False,
        v_field V td 3 8 8,
        v_vector_field V td 4 False 1 1 4294967295]"

definition RequestContract_verify_as_root :: "verifier \<Rightarrow> u8 list \<Rightarrow> int" where
  "RequestContract_verify_as_root V buf =
     v_table_as_root V buf RequestContract_identifier (RequestContract_verify_table V)"

definition RequestContract_verify_as_typed_root :: "verifier \<Rightarrow> u8 list \<Rightarrow> int" where
  "RequestContract_verify_as_typed_root V buf =
     v_table_as_root V buf (Some RequestContract_type_identifier) (RequestContract_verify_table V)"

definition RequestContract_verify_as_root_with_identifier :: "verifier \<Rightarrow> u8 list \<Rightarrow> string option \<Rightarrow> int" where
  "RequestContract_verify_as_root_with_identifier V buf fid =
     v_table_as_root V buf fid (RequestContract_verify_table V)"

definition RequestContract_verify_as_root_with_type_hash :: "verifier \<Rightarrow> u8 list \<Rightarrow> nat \<Rightarrow> int" where
  "RequestContract_verify_as_root_with_type_hash V buf thash =
     v_table_as_typed_root V buf thash (RequestContract_verify_table V)"

text \<open>\<open>list_contracts_verifier.h\<close>\<close>

definition ListContracts_verify_table :: "verifier \<Rightarrow> table_descriptor \<Rightarrow> int" where
  "ListContracts_verify_table V td =
     first_failure
       [v_string_field V td 0 True]"

definition ListContracts_verify_as_root :: "verifier \<Rightarrow> u8 list \<Rightarrow> int" where
  "ListContracts_verify_as_root V buf =
     v_table_as_root V buf ListContracts_identifier (ListContracts_verify_table V)"

definition ListContracts_verify_as_typed_root :: "verifier \<Rightarrow> u8 list \<Rightarrow> int" where
  "ListContracts_verify_as_typed_root V buf =
     v_table_as_root V buf (Some ListContracts_type_identifier) (ListContracts_verify_table V)"

definition ListContracts_verify_as_root_with_identifier :: "verifier \<Rightarrow> u8 list \<Rightarrow> string option \<Rightarrow> int" where
  "ListContracts_verify_as_root_with_identifier V buf fid =
     v_table_as_root V buf fid (ListContracts_verify_table V)"

definition ListContracts_verify_as_root_with_type_hash :: "verifier \<Rightarrow> u8 list \<Rightarrow> nat \<Rightarrow> int" where
  "ListContracts_verify_as_root_with_type_hash V buf thash =
     v_table_as_typed_root V buf thash (ListContracts_verify_table V)"

text \<open>\<open>check_contract_verifier.h\<close>\<close>

definition CheckContract_verify_table :: "verifier \<Rightarrow> table_descriptor \<Rightarrow> int" where
  "CheckContract_verify_table V td =
     first_failure
       [v_string_field V td 0 True,
        v_field V td 1 8 8]"

definition CheckContract_verify_as_root :: "verifier \<Rightarrow> u8 list \<Rightarrow> int" where
  "CheckContract_verify_as_root V buf =
     v_table_as_root V buf CheckContract_identifier (CheckContract_verify_table V)"

definition CheckContract_verify_as_typed_root :: "verifier \<Rightarrow> u8 list \<Rightarrow> int" where
  "CheckContract_verify_as_typed_root V buf =
     v_table_as_root V buf (Some CheckContract_type_identifier) (CheckContract_verify_table V)"

definition CheckContract_verify_as_root_with_identifier :: "verifier \<Rightarrow> u8 list \<Rightarrow> string option \<Rightarrow> int" where
  "CheckContract_verify_as_root_with_identifier V buf fid =
     v_table_as_root V buf fid (CheckContract_verify_table V)"

definition CheckContract_verify_as_root_with_type_hash :: "verifier \<Rightarrow> u8 list \<Rightarrow> nat \<Rightarrow> int" where
  "CheckContract_verify_as_root_with_type_hash V buf thash =
     v_table_as_typed_root V buf thash (CheckContract_verify_table V)"

text \<open>\<open>request_api_verifier.h\<close>\<close>

definition MessageType_union_verifier :: "verifier \<Rightarrow> union_descriptor \<Rightarrow> int" where
  "MessageType_union_verifier V ud =
     (if ud_type ud = 1 then v_union_table V ud (Login_verify_table V)
      else if ud_type ud = 2 then v_union_table V ud (Register_verify_table V)
      else if ud_type ud = 3 then v_union_table V ud (GetMe_verify_table V)
      else if ud_type ud = 4 then v_union_table V ud (EditMe_verify_table V)
      else if ud_type ud = 5 then v_union_table V ud (RequestContract_verify_table V)
      else if ud_type ud = 6 then v_union_table V ud (ListContracts_verify_table V)
      else if ud_type ud = 7 then v_union_table V ud (CheckContract_verify_table V)
      else 0)"

definition Message_verify_table :: "verifier \<Rightarrow> table_descriptor \<Rightarrow> int" where
  "Message_verify_table V td =
     first_failure
       [v_union_field V td 1 True (MessageType_union_verifier V)]"

definition Message_verify_as_root :: "verifier \<Rightarrow> u8 list \<Rightarrow> int" where
  "Message_verify_as_root V buf =
     v_table_as_root V buf Message_identifier (Message_verify_table V)"

definition Message_verify_as_typed_root :: "verifier \<Rightarrow> u8 list \<Rightarrow> int" where
  "Message_verify_as_typed_root V buf =
     v_table_as_root V buf (Some Message_type_identifier) (Message_verify_table V)"

definition Message_verify_as_root_with_identifier :: "verifier \<Rightarrow> u8 list \<Rightarrow> string option \<Rightarrow> int" where
  "Message_verify_as_root_with_identifier V buf fid =
     v_table_as_root V buf fid (Message_verify_table V)"

definition Message_verify_as_root_with_type_hash :: "verifier \<Rightarrow> u8 list \<Rightarrow> nat \<Rightarrow> int" where
  "Message_verify_as_root_with_type_hash V buf thash =
     v_table_as_typed_root V buf thash (Message_verify_table V)"

section \<open>Well-formed buffers\<close>

definition u8_at :: "u8 list \<Rightarrow> nat \<Rightarrow> nat" where
  "u8_at buf p = le_value (take 1 (drop p buf))"

definition u16_at :: "u8 list \<Rightarrow> nat \<Rightarrow> nat" where
  "u16_at buf p = le_value (take 2 (drop p buf))"

definition u32_at :: "u8 list \<Rightarrow> nat \<Rightarrow> nat" where
  "u32_at buf p = le_value (take 4 (drop p buf))"

definition vtable_pos :: "u8 list \<Rightarrow> nat \<Rightarrow> int" where
  "vtable_pos buf t = int t - signed32 (u32_at buf t)"

text \<open>The table header, the vtable and all its entries are inside the buffer.\<close>

definition table_ok :: "u8 list \<Rightarrow> nat \<Rightarrow> bool" where
  "table_ok buf t \<longleftrightarrow> t + 4 \<le> length buf \<and> 0 \<le> vtable_pos buf t \<and>
     nat (vtable_pos buf t) + 4 \<le> length buf \<and>
     nat (vtable_pos buf t) + u16_at buf (nat (vtable_pos buf t)) \<le> length buf"

definition vt_entry :: "u8 list \<Rightarrow> nat \<Rightarrow> nat \<Rightarrow> nat" where
  "vt_entry buf t ID =
     (let vt = nat (vtable_pos buf t)
      in if u16_at buf vt \<ge> 2 * (ID + 3) then u16_at buf (vt + 2 * (ID + 2)) else 0)"

definition field_ok :: "u8 list \<Rightarrow> nat \<Rightarrow> nat \<Rightarrow> nat \<Rightarrow> bool" where
  "field_ok buf t ID n \<longleftrightarrow> (let off = vt_entry buf t ID in off = 0 \<or> t + off + n \<le> length buf)"

text \<open>Where an offset field points to.\<close>

definition target :: "u8 list \<Rightarrow> nat \<Rightarrow> nat" where
  "target buf p = p + u32_at buf p"

definition vector_ok :: "u8 list \<Rightarrow> nat \<Rightarrow> nat \<Rightarrow> bool \<Rightarrow> nat \<Rightarrow> bool" where
  "vector_ok buf t ID r n \<longleftrightarrow>
     (let off = vt_entry buf t ID; p = target buf (t + off)
      in if off = 0 then \<not> r
         else t + off + 4 \<le> length buf \<and> p + 4 + n * u32_at buf p \<le> length buf)"

definition string_ok :: "u8 list \<Rightarrow> nat \<Rightarrow> nat \<Rightarrow> bool \<Rightarrow> bool" where
  "string_ok buf t ID r \<longleftrightarrow>
     (let off = vt_entry buf t ID; p = target buf (t + off)
      in if off = 0 then \<not> r
         else t + off + 4 \<le> length buf \<and> p + 4 + u32_at buf p < length buf \<and>
              buf ! (p + 4 + u32_at buf p) = 0)"

text \<open>The descriptor that a union verifier is called with: its type byte, and for a value that is
  present the position of its offset field.\<close>

definition describes :: "u8 list \<Rightarrow> nat \<Rightarrow> nat \<Rightarrow> union_descriptor \<Rightarrow> bool" where
  "describes buf t ID ud \<longleftrightarrow>
     ud_buf ud = buf \<and> ud_type ud = u8_at buf (t + vt_entry buf t (ID - 1)) \<and>
     (vt_entry buf t ID \<noteq> 0 \<longrightarrow> t + vt_entry buf t ID + 4 \<le> length buf \<and>
        ud_base ud = t + vt_entry buf t ID \<and> ud_offset ud = u32_at buf (ud_base ud))"

section \<open>What a successful check guarantees\<close>

text \<open>
  From the comments of \<open>flatcc_verifier.h\<close>: a checked field, vector or string lies in the
  buffer, a string is terminated, a required one is present. The union law is its comment on
  \<open>flatcc_verify_union_field\<close>: no type only if the union is optional and has no value, \<open>NONE\<close> only
  without a value, otherwise the callback has accepted the descriptor. A union table is
  verified without the required flag, so nothing is known of an absent value.
\<close>

locale flatcc_runtime =
  fixes V :: verifier
  assumes field_law: "table_ok (td_buf td) (td_table td) \<Longrightarrow> v_field V td ID n a = 0 \<Longrightarrow>
      field_ok (td_buf td) (td_table td) ID n"
    and string_law: "table_ok (td_buf td) (td_table td) \<Longrightarrow> v_string_field V td ID r = 0 \<Longrightarrow>
      string_ok (td_buf td) (td_table td) ID r"
    and vector_law: "table_ok (td_buf td) (td_table td) \<Longrightarrow> v_vector_field V td ID r n a m = 0 \<Longrightarrow>
      vector_ok (td_buf td) (td_table td) ID r n"
    and union_law: "table_ok (td_buf td) (td_table td) \<Longrightarrow> v_union_field V td ID r uvf = 0 \<Longrightarrow> 0 < ID \<Longrightarrow>
      (if vt_entry (td_buf td) (td_table td) (ID - 1) = 0
       then \<not> r \<and> vt_entry (td_buf td) (td_table td) ID = 0
       else field_ok (td_buf td) (td_table td) (ID - 1) 1 \<and>
         (if u8_at (td_buf td) (td_table td + vt_entry (td_buf td) (td_table td) (ID - 1)) = 0
          then vt_entry (td_buf td) (td_table td) ID = 0
          else \<exists>ud. describes (td_buf td) (td_table td) ID ud \<and> uvf ud = 0))"
    and union_table_law: "v_union_table V ud tvf = 0 \<Longrightarrow> ud_base ud \<noteq> 0 \<Longrightarrow>
      \<exists>td. td_buf td = ud_buf ud \<and> td_table td = ud_base ud + ud_offset ud \<and>
        table_ok (td_buf td) (td_table td) \<and> tvf td = 0"
    and root_law: "v_table_as_root V buf fid tvf = 0 \<Longrightarrow>
      4 \<le> length buf \<and> has_identifier buf fid = Inr True \<and>
      (\<exists>td. td_buf td = buf \<and> td_table td = u32_at buf 0 \<and> table_ok buf (td_table td) \<and> tvf td = 0)"

end
