(* ===== verification/Fb_Safe.thy ===== *)
theory Fb_Safe
  imports Fb_Verify
begin

text \<open>
  Reading a verified buffer: each getter succeeds on what its verifier has accepted, so a
  verified message yields a request with proper C strings, except for a union that has a
  type and no value. A reference verifier, which checks exactly the guarantees, interprets the
  locale.
\<close>

named_theorems fb_read \<open>what a getter returns on a well-formed table\<close>

section \<open>Primitives inside the buffer\<close>

lemma read_le_in [simp]:
  "p + n \<le> length buf \<Longrightarrow> read_le buf (int p) n = Inr (le_value (take n (drop p buf)))"
  by (simp add: read_le_def)

lemma unat_u8: "unat (b :: u8) < 256"
  using unsigned_less [of b] by simp

lemma le_value_bound: "le_value bs < 256 ^ length bs"
proof (induction bs)
  case (Cons b bs)
  have "unat b < 256" by (rule unat_u8)
  with Cons show ?case by simp
qed simp

lemma vtable_pos_int: "table_ok buf t \<Longrightarrow> int (nat (vtable_pos buf t)) = vtable_pos buf t"
  by (simp add: table_ok_def)

lemma read_vt_ok [fb_read]:
  assumes "table_ok buf t"
  shows "read_vt buf ID (Some (int t)) = Inr (vt_entry buf t ID)"
proof -
  define vt where "vt = nat (vtable_pos buf t)"
  have vt: "int t - signed32 (u32_at buf t) = int vt"
    using vtable_pos_int [OF assms] by (simp add: vt_def vtable_pos_def)
  have "t + 4 \<le> length buf" "vt + 4 \<le> length buf" "vt + u16_at buf vt \<le> length buf"
    using assms by (simp_all add: table_ok_def vt_def)
  moreover from this have "read_soffset buf (int t) = Inr (signed32 (u32_at buf t))"
    by (simp add: read_soffset_def u32_at_def)
  moreover define q where "q = vt + 2 * (ID + 2)"
  moreover have "int vt + 2 * (int ID + 2) = int q" by (simp add: q_def)
  moreover have "read_voffset buf (int q) = Inr (u16_at buf q)" if "2 * (ID + 3) \<le> u16_at buf vt"
  proof -
    have "q + 2 \<le> length buf" using that \<open>vt + u16_at buf vt \<le> length buf\<close> by (simp add: q_def)
    then show ?thesis by (simp add: u16_at_def)
  qed
  moreover have "read_voffset buf (int vt) = Inr (u16_at buf vt)"
    using \<open>vt + 4 \<le> length buf\<close> by (simp add: u16_at_def)
  ultimately show ?thesis
    unfolding read_vt_def vt_entry_def Let_def vt_def [symmetric] non_null_def
    by (simp only: option.case and_then.simps vt) simp
qed

lemma field_present_ok [fb_read]:
  "table_ok buf t \<Longrightarrow> field_present buf ID (Some (int t)) = Inr (vt_entry buf t ID \<noteq> 0)"
  by (simp add: field_present_def read_vt_ok)

lemma scalar_field_ok [fb_read]:
  "table_ok buf t \<Longrightarrow> scalar_field buf ID (Some (int t)) =
     Inr (if vt_entry buf t ID \<noteq> 0 then Some (int (t + vt_entry buf t ID)) else None)"
  by (simp add: scalar_field_def read_vt_ok)

lemma offset_field_ok [fb_read]:
  assumes "table_ok buf t"
    and "vt_entry buf t ID \<noteq> 0 \<Longrightarrow> t + vt_entry buf t ID + 4 \<le> length buf"
  shows "offset_field buf ID r (int adj) (Some (int t)) =
    (if vt_entry buf t ID \<noteq> 0 then Inr (Some (int (target buf (t + vt_entry buf t ID) + adj)))
     else if r then Inl Assert_failed else Inr None)"
  using assms
  by (simp add: offset_field_def scalar_field_ok target_def u32_at_def del: of_nat_add)

lemma scalar_get_ok:
  assumes "table_ok buf t" "field_ok buf t ID n" "\<And>p. p + n \<le> length buf \<Longrightarrow> \<exists>x. rd buf (int p) = Inr x \<and> P x" "P v"
  shows "\<exists>x. scalar_get rd v buf ID (Some (int t)) = Inr x \<and> P x"
proof (cases "vt_entry buf t ID = 0")
  case True
  with assms(4) show ?thesis by (simp add: scalar_get_def scalar_field_ok [OF assms(1)])
next
  case False
  with assms(2) have "t + vt_entry buf t ID + n \<le> length buf" by (simp add: field_ok_def)
  from assms(3) [OF this] False show ?thesis
    by (simp add: scalar_get_def scalar_field_ok [OF assms(1)] del: of_nat_add)
qed

section \<open>Strings and vectors\<close>

lemma c_string_ok:
  assumes "p + n < length buf" "buf ! (p + n) = 0"
  shows "\<exists>s. c_string_at buf (Some (int p)) = Inr s \<and> cstr s"
proof -
  have "drop p buf ! n = 0" "n < length (drop p buf)" using assms by simp_all
  then have "0 \<in> set (drop p buf)" by (metis nth_mem)
  moreover have "cstr (map (\<lambda>b. char_of (unat b)) (takeWhile (\<lambda>b. b \<noteq> 0) (drop p buf)))"
  proof -
    have "char_of (unat b) \<noteq> NUL" if "b \<noteq> 0" for b :: u8
    proof
      assume "char_of (unat b) = NUL"
      then have "of_char (char_of (unat b) :: char) = (0 :: nat)" by simp
      then have "unat b mod 256 = 0" by simp
      moreover have "unat b < 256" by (rule unat_u8)
      ultimately show False using that by (simp add: unat_eq_zero)
    qed
    note nz = this
    show ?thesis unfolding cstr_def set_map
    proof
      assume "NUL \<in> (\<lambda>b. char_of (unat b)) ` set (takeWhile (\<lambda>b. b \<noteq> 0) (drop p buf))"
      then obtain b where b: "NUL = char_of (unat b)" "b \<in> set (takeWhile (\<lambda>b. b \<noteq> 0) (drop p buf))"
        by (rule imageE)
      from set_takeWhileD [OF b(2)] have "b \<noteq> 0" by simp
      from nz [OF this] show False using b(1) by (rule notE [OF _ sym])
    qed
  qed
  ultimately show ?thesis by (simp add: c_string_at_def)
qed

lemma get_string_ok:
  assumes "table_ok buf t" "string_ok buf t ID True"
  shows "\<exists>s. get_string (\<lambda>buf. vector_field buf ID True) buf (Some (int t)) = Inr s \<and> cstr s"
proof -
  define p where "p = target buf (t + vt_entry buf t ID)"
  have p: "vt_entry buf t ID \<noteq> 0" "t + vt_entry buf t ID + 4 \<le> length buf"
    "p + 4 + u32_at buf p < length buf" "buf ! (p + 4 + u32_at buf p) = 0"
    using assms(2) by (auto simp: string_ok_def Let_def p_def split: if_splits)
  have "vector_field buf ID True (Some (int t)) = Inr (Some (int (p + 4)))"
    using offset_field_ok [OF assms(1), of ID True 4] p(1,2) by (simp add: vector_field_def p_def)
  then show ?thesis using c_string_ok [OF p(3,4)] by (simp add: get_string_def)
qed

lemma get_optional_string_ok:
  assumes "table_ok buf t" "string_ok buf t ID False"
  shows "\<exists>v. get_optional (\<lambda>buf. field_present buf ID) (get_string (\<lambda>buf. vector_field buf ID False)) buf
      (Some (int t)) = Inr v \<and> (\<forall>s. v = Some s \<longrightarrow> cstr s)"
proof (cases "vt_entry buf t ID = 0")
  case True
  then show ?thesis by (simp add: get_optional_def field_present_ok [OF assms(1)])
next
  case False
  then have "string_ok buf t ID True" using assms(2) by (simp add: string_ok_def Let_def)
  from get_string_ok [OF assms(1) this] False
    offset_field_ok [OF assms(1), of ID True 4] offset_field_ok [OF assms(1), of ID False 4] assms(2)
  show ?thesis
    by (auto simp: get_optional_def field_present_ok [OF assms(1)] get_string_def vector_field_def
        string_ok_def Let_def)
qed

lemma get_optional_bytes_ok:
  assumes "table_ok buf t" "vector_ok buf t ID False 1"
  shows "\<exists>v. get_optional (\<lambda>buf. field_present buf ID) (get_bytes (\<lambda>buf. vector_field buf ID False)) buf
      (Some (int t)) = Inr v"
proof (cases "vt_entry buf t ID = 0")
  case True
  then show ?thesis by (simp add: get_optional_def field_present_ok [OF assms(1)])
next
  case False
  define p where "p = target buf (t + vt_entry buf t ID)"
  have p: "t + vt_entry buf t ID + 4 \<le> length buf" "p + 4 + u32_at buf p \<le> length buf"
    using assms(2) False by (simp_all add: vector_ok_def Let_def p_def)
  have "vector_field buf ID False (Some (int t)) = Inr (Some (int (p + 4)))"
    using offset_field_ok [OF assms(1), of ID False 4] p(1) False by (simp add: vector_field_def p_def)
  moreover have "vec_len buf (Some (int (p + 4))) = Inr (u32_at buf p)"
    using p(2) by (simp add: vec_len_def u32_at_def)
  ultimately show ?thesis
    using False p(2) by (simp add: get_optional_def field_present_ok [OF assms(1)] get_bytes_def vec_bytes_def)
qed

section \<open>Scalars\<close>

lemma wf_double_of_bits: "wf_double (double_of_bits b)"
proof -
  have "2 ^ 52 + b mod 2 ^ 52 < (2 ^ 53 :: nat)" "b mod 2 ^ 52 < (2 ^ 53 :: nat)"
    using mod_less_divisor [of "2 ^ 52" b] by simp_all
  moreover have "(b div 2 ^ 52) mod 2048 < 2048" by simp
  ultimately show ?thesis by (auto simp: double_of_bits_def wf_double_def Let_def)
qed

lemma read_scalars_ok:
  "p + 1 \<le> length buf \<Longrightarrow> \<exists>x. read_bool buf (int p) = Inr x"
  "p + 8 \<le> length buf \<Longrightarrow> \<exists>x. read_int64 buf (int p) = Inr x"
  "p + 8 \<le> length buf \<Longrightarrow> \<exists>x. read_double buf (int p) = Inr x \<and> wf_double x"
  by (simp_all add: read_bool_def read_int64_def read_double_def wf_double_of_bits)

section \<open>Verified tables are readable\<close>

fun request_wf :: "request \<Rightarrow> bool" where
  "request_wf (Req_Login r) \<longleftrightarrow> cstr (lg_username r) \<and> cstr (lg_password r)"
| "request_wf (Req_Register r) \<longleftrightarrow> cstr (rg_username r) \<and> cstr (rg_password r) \<and>
     cstr (rg_firstName r) \<and> cstr (rg_lastName r)"
| "request_wf (Req_GetMe r) \<longleftrightarrow> cstr (gm_token r)"
| "request_wf (Req_EditMe r) \<longleftrightarrow> (\<forall>v \<in> {em_username r, em_password r, em_firstName r, em_lastName r}.
     \<forall>s. v = Some s \<longrightarrow> cstr s) \<and> cstr (em_token r)"
| "request_wf (Req_RequestContract r) \<longleftrightarrow> cstr (rc_token r) \<and> cstr (rc_name r) \<and>
     (\<forall>s. rc_description r = Some s \<longrightarrow> cstr s) \<and> wf_double (rc_price r)"
| "request_wf (Req_ListContracts r) \<longleftrightarrow> cstr (lc_token r)"
| "request_wf (Req_CheckContract r) \<longleftrightarrow> cstr (ck_token r)"
| "request_wf (Req_Other n) \<longleftrightarrow> True"

lemma first_failure_ok: "first_failure rets = 0 \<longleftrightarrow> (\<forall>r \<in> set rets. r = 0)"
  by (induction rets) auto

declare first_failure.simps [simp del]

lemmas login_getters = Login_username_get_def [abs_def] Login_password_get_def [abs_def]
lemmas register_getters = Register_username_get_def [abs_def] Register_password_get_def [abs_def]
  Register_firstName_get_def [abs_def] Register_lastName_get_def [abs_def]
lemmas edit_me_getters = EditMe_username_get_def [abs_def] EditMe_password_get_def [abs_def]
  EditMe_firstName_get_def [abs_def] EditMe_lastName_get_def [abs_def] EditMe_token_get_def [abs_def]
  EditMe_username_is_present_def [abs_def] EditMe_password_is_present_def [abs_def]
  EditMe_firstName_is_present_def [abs_def] EditMe_lastName_is_present_def [abs_def]
  EditMe_admin_get_def
lemmas request_contract_getters = RequestContract_token_get_def [abs_def]
  RequestContract_name_get_def [abs_def] RequestContract_description_get_def [abs_def]
  RequestContract_description_is_present_def [abs_def] RequestContract_price_get_def
  RequestContract_attachment_get_def [abs_def] RequestContract_attachment_is_present_def [abs_def]
lemmas token_getters = GetMe_token_get_def [abs_def] ListContracts_token_get_def [abs_def]
  CheckContract_token_get_def [abs_def] CheckContract_id_get_def

context flatcc_runtime
begin

lemma string_read:
  assumes "table_ok (td_buf td) (td_table td)" "v_string_field V td ID True = 0"
  shows "\<exists>s. get_string (\<lambda>buf. vector_field buf ID True) (td_buf td) (Some (int (td_table td))) = Inr s \<and> cstr s"
  by (rule get_string_ok [OF assms(1) string_law [OF assms]])

lemma optional_read:
  assumes "table_ok (td_buf td) (td_table td)" "v_string_field V td ID False = 0"
  shows "\<exists>v. get_optional (\<lambda>buf. field_present buf ID) (get_string (\<lambda>buf. vector_field buf ID False))
      (td_buf td) (Some (int (td_table td))) = Inr v \<and> (\<forall>s. v = Some s \<longrightarrow> cstr s)"
  by (rule get_optional_string_ok [OF assms(1) string_law [OF assms]])

lemma login_read:
  assumes "table_ok (td_buf td) (td_table td)" "Login_verify_table V td = 0"
  shows "\<exists>r. read_login (td_buf td) (Some (int (td_table td))) = Inr r \<and> request_wf (Req_Login r)"
proof -
  have v: "v_string_field V td 0 True = 0" "v_string_field V td 1 True = 0"
    using assms(2) by (simp_all add: Login_verify_table_def first_failure_ok)
  from string_read [OF assms(1) v(1)] string_read [OF assms(1) v(2)] show ?thesis
    by (auto simp: read_login_def login_getters)
qed

lemma register_read:
  assumes "table_ok (td_buf td) (td_table td)" "Register_verify_table V td = 0"
  shows "\<exists>r. read_register (td_buf td) (Some (int (td_table td))) = Inr r \<and> request_wf (Req_Register r)"
proof -
  have v: "v_string_field V td 0 True = 0" "v_string_field V td 1 True = 0"
    "v_string_field V td 2 True = 0" "v_string_field V td 3 True = 0"
    using assms(2) by (simp_all add: Register_verify_table_def first_failure_ok)
  note r = string_read [OF assms(1)]
  from r [OF v(1)] r [OF v(2)] r [OF v(3)] r [OF v(4)] show ?thesis
    by (auto simp: read_register_def register_getters)
qed

lemma get_me_read:
  assumes "table_ok (td_buf td) (td_table td)" "GetMe_verify_table V td = 0"
  shows "\<exists>r. read_get_me (td_buf td) (Some (int (td_table td))) = Inr r \<and> request_wf (Req_GetMe r)"
proof -
  have v: "v_string_field V td 0 True = 0"
    using assms(2) by (simp add: GetMe_verify_table_def first_failure_ok)
  from string_read [OF assms(1) v] show ?thesis by (auto simp: read_get_me_def token_getters)
qed

lemma edit_me_read:
  assumes "table_ok (td_buf td) (td_table td)" "EditMe_verify_table V td = 0"
  shows "\<exists>r. read_edit_me (td_buf td) (Some (int (td_table td))) = Inr r \<and> request_wf (Req_EditMe r)"
proof -
  have v: "v_string_field V td 0 False = 0" "v_string_field V td 1 False = 0"
    "v_string_field V td 2 False = 0" "v_string_field V td 3 False = 0"
    "v_field V td 4 1 1 = 0" "v_string_field V td 5 True = 0"
    using assms(2) by (simp_all add: EditMe_verify_table_def first_failure_ok)
  note o = optional_read [OF assms(1)]
  have a: "\<exists>b. scalar_get read_bool False (td_buf td) 4 (Some (int (td_table td))) = Inr b \<and> True"
    by (rule scalar_get_ok [OF assms(1) field_law [OF assms(1) v(5)]]) (simp_all add: read_scalars_ok)
  from a o [OF v(1)] o [OF v(2)] o [OF v(3)] o [OF v(4)] string_read [OF assms(1) v(6)] show ?thesis
    by (auto simp: read_edit_me_def edit_me_getters)
qed

lemma request_contract_read:
  assumes "table_ok (td_buf td) (td_table td)" "RequestContract_verify_table V td = 0"
  shows "\<exists>r. read_request_contract (td_buf td) (Some (int (td_table td))) = Inr r \<and>
    request_wf (Req_RequestContract r)"
proof -
  have v: "v_string_field V td 0 True = 0" "v_string_field V td 1 True = 0"
    "v_string_field V td 2 False = 0" "v_field V td 3 8 8 = 0"
    "v_vector_field V td 4 False 1 1 4294967295 = 0"
    using assms(2) by (simp_all add: RequestContract_verify_table_def first_failure_ok)
  have p: "\<exists>b. scalar_get read_double (Fin True 1 0) (td_buf td) 3 (Some (int (td_table td))) = Inr b \<and> wf_double b"
    by (rule scalar_get_ok [OF assms(1) field_law [OF assms(1) v(4)]], erule read_scalars_ok(3))
      (simp add: wf_double_def)
  from p string_read [OF assms(1) v(1)] string_read [OF assms(1) v(2)] optional_read [OF assms(1) v(3)]
    get_optional_bytes_ok [OF assms(1) vector_law [OF assms(1) v(5)]]
  show ?thesis by (auto simp: read_request_contract_def request_contract_getters)
qed

lemma list_contracts_read:
  assumes "table_ok (td_buf td) (td_table td)" "ListContracts_verify_table V td = 0"
  shows "\<exists>r. read_list_contracts (td_buf td) (Some (int (td_table td))) = Inr r \<and>
    request_wf (Req_ListContracts r)"
proof -
  have v: "v_string_field V td 0 True = 0"
    using assms(2) by (simp add: ListContracts_verify_table_def first_failure_ok)
  from string_read [OF assms(1) v] show ?thesis by (auto simp: read_list_contracts_def token_getters)
qed

lemma check_contract_read:
  assumes "table_ok (td_buf td) (td_table td)" "CheckContract_verify_table V td = 0"
  shows "\<exists>r. read_check_contract (td_buf td) (Some (int (td_table td))) = Inr r \<and>
    request_wf (Req_CheckContract r)"
proof -
  have v: "v_string_field V td 0 True = 0" "v_field V td 1 8 8 = 0"
    using assms(2) by (simp_all add: CheckContract_verify_table_def first_failure_ok)
  have i: "\<exists>b. scalar_get read_int64 (- 1) (td_buf td) 1 (Some (int (td_table td))) = Inr b \<and> True"
    by (rule scalar_get_ok [OF assms(1) field_law [OF assms(1) v(2)]]) (simp_all add: read_scalars_ok)
  from i string_read [OF assms(1) v(1)] show ?thesis
    by (auto simp: read_check_contract_def token_getters)
qed

lemma union_read:
  assumes "MessageType_union_verifier V ud = 0" "ud_base ud \<noteq> 0"
  shows "\<exists>req. read_union (ud_buf ud) \<lparr>u_type = ud_type ud, u_value = Some (int (ud_base ud + ud_offset ud))\<rparr> =
      Inr req \<and> request_wf req"
proof (cases "1 \<le> ud_type ud \<and> ud_type ud \<le> 7")
  case False
  then show ?thesis by (auto simp: read_union_def Let_def)
next
  case True
  have table: "\<exists>td. td_buf td = ud_buf ud \<and> td_table td = ud_base ud + ud_offset ud \<and>
      table_ok (td_buf td) (td_table td) \<and> tvf td = 0" if "v_union_table V ud tvf = 0" for tvf
    using union_table_law [OF that assms(2)] .
  from True consider "ud_type ud = 1" | "ud_type ud = 2" | "ud_type ud = 3" | "ud_type ud = 4"
    | "ud_type ud = 5" | "ud_type ud = 6" | "ud_type ud = 7" by linarith
  then show ?thesis
  proof cases
    case 1
    with assms(1) table [of "Login_verify_table V"] login_read show ?thesis
      by (fastforce simp: MessageType_union_verifier_def read_union_def)
  next
    case 2
    with assms(1) table [of "Register_verify_table V"] register_read show ?thesis
      by (fastforce simp: MessageType_union_verifier_def read_union_def)
  next
    case 3
    with assms(1) table [of "GetMe_verify_table V"] get_me_read show ?thesis
      by (fastforce simp: MessageType_union_verifier_def read_union_def)
  next
    case 4
    with assms(1) table [of "EditMe_verify_table V"] edit_me_read show ?thesis
      by (fastforce simp: MessageType_union_verifier_def read_union_def)
  next
    case 5
    with assms(1) table [of "RequestContract_verify_table V"] request_contract_read show ?thesis
      by (fastforce simp: MessageType_union_verifier_def read_union_def)
  next
    case 6
    with assms(1) table [of "ListContracts_verify_table V"] list_contracts_read show ?thesis
      by (fastforce simp: MessageType_union_verifier_def read_union_def)
  next
    case 7
    with assms(1) table [of "CheckContract_verify_table V"] check_contract_read show ?thesis
      by (fastforce simp: MessageType_union_verifier_def read_union_def)
  qed
qed

end

section \<open>Verified messages\<close>

text \<open>The union of the root table has a type and no value.\<close>

definition typed_null :: "u8 list \<Rightarrow> bool" where
  "typed_null buf =
     (let t = u32_at buf 0; off = vt_entry buf t 0
      in off \<noteq> 0 \<and> u8_at buf (t + off) \<noteq> 0 \<and> vt_entry buf t 1 = 0)"

context flatcc_runtime
begin

lemma message_read:
  assumes "Message_verify_as_root V buf = 0"
  shows "if typed_null buf then read_message buf = Inl Assert_failed
    else \<exists>req. read_message buf = Inr req \<and> request_wf req"
proof -
  define t where "t = u32_at buf 0"
  from root_law [OF assms [unfolded Message_verify_as_root_def]] obtain td where
    len: "4 \<le> length buf" and td: "td_buf td = buf" "td_table td = t" and ok: "table_ok buf t"
    and v: "v_union_field V td 1 True (MessageType_union_verifier V) = 0"
    by (auto simp: Message_verify_table_def first_failure_ok t_def)
  have root: "Message_as_root buf = Inr (Some (int t))"
    using len read_le_in [of 0 4 buf]
    by (simp add: Message_as_root_def read_root_def has_identifier_def Message_identifier_def t_def u32_at_def)
  define ty where "ty = u8_at buf (t + vt_entry buf t 0)"
  from union_law [of td 1 True "MessageType_union_verifier V"] v ok td
  have law: "vt_entry buf t 0 \<noteq> 0" "field_ok buf t 0 1"
    "if ty = 0 then vt_entry buf t 1 = 0 else \<exists>ud. describes buf t 1 ud \<and> MessageType_union_verifier V ud = 0"
    by (auto simp: ty_def split: if_splits)
  have type: "union_type_field buf 0 (Some (int t)) = Inr ty"
    using law(1,2)
    by (simp add: union_type_field_def scalar_get_def scalar_field_ok [OF ok] field_ok_def u8_at_def ty_def
        del: of_nat_add)
  have null: "typed_null buf \<longleftrightarrow> ty \<noteq> 0 \<and> vt_entry buf t 1 = 0"
    using law(1) by (simp add: typed_null_def Let_def t_def [symmetric] ty_def)
  show ?thesis
  proof (cases "ty = 0")
    case True
    with null type show ?thesis
      by (simp add: read_message_def root Message_msg_union_def union_field_def read_union_def)
  next
    case False
    with law(3) obtain ud where ud: "describes buf t 1 ud" "MessageType_union_verifier V ud = 0" by auto
    have msg: "table_field buf 1 True (Some (int t)) =
        (if vt_entry buf t 1 \<noteq> 0 then Inr (Some (int (target buf (t + vt_entry buf t 1)))) else Inl Assert_failed)"
      using offset_field_ok [OF ok, of 1 True 0] ud(1) by (simp add: table_field_def describes_def)
    show ?thesis
    proof (cases "vt_entry buf t 1 = 0")
      case True
      with False null type msg show ?thesis
        by (simp add: read_message_def root Message_msg_union_def union_field_def)
    next
      case present: False
      have d: "ud_buf ud = buf" "ud_type ud = ty" "ud_base ud \<noteq> 0"
        "ud_base ud + ud_offset ud = target buf (t + vt_entry buf t 1)"
        using ud(1) present by (simp_all add: describes_def target_def ty_def)
      from union_read [OF ud(2) d(3)] show ?thesis
        using False null type msg present
        by (simp add: d read_message_def root Message_msg_union_def union_field_def)
    qed
  qed
qed

end

end
