(* ===== verification/Fb_Reference.thy ===== *)
theory Fb_Reference
  imports Fb_Safe
begin

text \<open>
  A reference verifier: every function checks exactly what \<open>flatcc_runtime\<close> promises, so it
  interprets the locale; two buffers as a client would send them; the codec of the generated
  code.
\<close>

section \<open>The reference verifier\<close>

definition check :: "bool \<Rightarrow> int" where
  "check b = (if b then 0 else 1)"

lemma check_0 [simp]: "check b = 0 \<longleftrightarrow> b"
  by (simp add: check_def)

definition rv_table :: "u8 list \<Rightarrow> nat \<Rightarrow> (table_descriptor \<Rightarrow> int) \<Rightarrow> int" where
  "rv_table buf t tvf =
     (if \<not> table_ok buf t then 1
      else let vt = nat (vtable_pos buf t)
           in tvf \<lparr>td_buf = buf, td_end = length buf, td_ttl = 99, td_vtable = vt, td_table = t,
                   td_tsize = u16_at buf (vt + 2), td_vsize = u16_at buf vt\<rparr>)"

definition rv_union_field ::
  "table_descriptor \<Rightarrow> nat \<Rightarrow> bool \<Rightarrow> (union_descriptor \<Rightarrow> int) \<Rightarrow> int" where
  "rv_union_field td ID r uvf =
     (let buf = td_buf td; t = td_table td;
          ty_off = vt_entry buf t (ID - 1); off = vt_entry buf t ID
      in if ty_off = 0 then check (\<not> r \<and> off = 0)
         else if \<not> field_ok buf t (ID - 1) 1 then 1
         else let ty = u8_at buf (t + ty_off)
              in if ty = 0 then check (off = 0)
                 else if \<not> field_ok buf t ID 4 then 1
                 else uvf \<lparr>ud_buf = buf, ud_end = length buf, ud_ttl = 99, ud_type = ty,
                           ud_base = (if off = 0 then 0 else t + off),
                           ud_offset = (if off = 0 then 0 else u32_at buf (t + off))\<rparr>)"

definition ref_verifier :: verifier where
  "ref_verifier =
     \<lparr>v_field = (\<lambda>td ID n a. check (field_ok (td_buf td) (td_table td) ID n)),
      v_string_field = (\<lambda>td ID r. check (string_ok (td_buf td) (td_table td) ID r)),
      v_vector_field = (\<lambda>td ID r n a m. check (vector_ok (td_buf td) (td_table td) ID r n)),
      v_union_field = rv_union_field,
      v_union_table = (\<lambda>ud tvf. if ud_base ud = 0 then 0
                                else rv_table (ud_buf ud) (ud_base ud + ud_offset ud) tvf),
      v_table_as_root = (\<lambda>buf fid tvf. if 4 \<le> length buf \<and> has_identifier buf fid = Inr True
                                       then rv_table buf (u32_at buf 0) tvf else 1),
      v_table_as_typed_root = (\<lambda>buf h tvf. if 8 \<le> length buf \<and> has_type_hash buf h = Inr True
                                           then rv_table buf (u32_at buf 0) tvf else 1)\<rparr>"

lemma rv_tableD: "rv_table buf t tvf = 0 \<Longrightarrow>
  \<exists>td. td_buf td = buf \<and> td_table td = t \<and> table_ok buf t \<and> tvf td = 0"
  by (auto simp: rv_table_def Let_def split: if_splits intro!: exI)

lemma rv_union_fieldD:
  assumes "rv_union_field td ID r uvf = 0"
  shows "if vt_entry (td_buf td) (td_table td) (ID - 1) = 0
    then \<not> r \<and> vt_entry (td_buf td) (td_table td) ID = 0
    else field_ok (td_buf td) (td_table td) (ID - 1) 1 \<and>
      (if u8_at (td_buf td) (td_table td + vt_entry (td_buf td) (td_table td) (ID - 1)) = 0
       then vt_entry (td_buf td) (td_table td) ID = 0
       else \<exists>ud. describes (td_buf td) (td_table td) ID ud \<and> uvf ud = 0)"
  using assms
  by (auto simp: rv_union_field_def Let_def describes_def field_ok_def split: if_splits intro!: exI)

interpretation rv: flatcc_runtime ref_verifier
proof unfold_locales
  fix ud tvf
  assume "v_union_table ref_verifier ud tvf = 0" "ud_base ud \<noteq> 0"
  then show "\<exists>td. td_buf td = ud_buf ud \<and> td_table td = ud_base ud + ud_offset ud \<and>
      table_ok (td_buf td) (td_table td) \<and> tvf td = 0"
    using rv_tableD [of "ud_buf ud" "ud_base ud + ud_offset ud" tvf] by (auto simp: ref_verifier_def)
next
  fix buf fid tvf
  assume "v_table_as_root ref_verifier buf fid tvf = 0"
  then show "4 \<le> length buf \<and> has_identifier buf fid = Inr True \<and>
      (\<exists>td. td_buf td = buf \<and> td_table td = u32_at buf 0 \<and> table_ok buf (td_table td) \<and> tvf td = 0)"
    using rv_tableD [of buf "u32_at buf 0" tvf] by (auto simp: ref_verifier_def split: if_splits)
next
  fix td ID r uvf
  assume "v_union_field ref_verifier td ID r uvf = 0"
  then have "rv_union_field td ID r uvf = 0" by (simp add: ref_verifier_def)
  from rv_union_fieldD [OF this]
  show "if vt_entry (td_buf td) (td_table td) (ID - 1) = 0
    then \<not> r \<and> vt_entry (td_buf td) (td_table td) ID = 0
    else field_ok (td_buf td) (td_table td) (ID - 1) 1 \<and>
      (if u8_at (td_buf td) (td_table td + vt_entry (td_buf td) (td_table td) (ID - 1)) = 0
       then vt_entry (td_buf td) (td_table td) ID = 0
       else \<exists>ud. describes (td_buf td) (td_table td) ID ud \<and> uvf ud = 0)" .
qed (simp_all add: ref_verifier_def)

section \<open>Two buffers\<close>

text \<open>A login request of user \<open>bob\<close>; and a message that says \<open>Login\<close> and has no table.\<close>

definition login_buffer :: "u8 list" where
  "login_buffer =
     [12, 0, 0, 0,  8, 0, 12, 0, 4, 0, 8, 0,  8, 0, 0, 0,  1, 0, 0, 0,  12, 0, 0, 0,
      8, 0, 12, 0, 4, 0, 8, 0,  8, 0, 0, 0,  8, 0, 0, 0,  12, 0, 0, 0,
      3, 0, 0, 0, 98, 111, 98, 0,  2, 0, 0, 0, 112, 119, 0, 0]"

definition null_buffer :: "u8 list" where
  "null_buffer = [12, 0, 0, 0,  8, 0, 8, 0, 4, 0, 0, 0,  8, 0, 0, 0,  1, 0, 0, 0]"

section \<open>The codec of the generated code\<close>

text \<open>\<open>finalize\<close> is the builder, whose runtime is a library.\<close>

definition generated_codec :: "verifier \<Rightarrow> (response \<Rightarrow> u8 list option) \<Rightarrow> codec" where
  "generated_codec V finalize =
     \<lparr>fb_verify = Message_verify_as_root V,
      fb_as_root = (\<lambda>buf. Message_as_root buf \<noteq> Inr None),
      fb_message = read_message,
      fb_finalize = finalize\<rparr>"

lemmas at_defs = u8_at_def u16_at_def u32_at_def vtable_pos_def signed32_def vt_entry_def target_def Let_def

lemmas verify_defs = Message_verify_as_root_def ref_verifier_def Message_identifier_def has_identifier_def
  rv_table_def Message_verify_table_def MessageType_union_verifier_def Login_verify_table_def
  first_failure.simps rv_union_field_def table_ok_def field_ok_def string_ok_def

lemmas read_defs = read_message_def Message_as_root_def read_root_def Message_identifier_def
  has_identifier_def Message_msg_union_def union_field_def union_type_field_def scalar_get_def
  scalar_field_def read_vt_def non_null_def read_soffset_def read_le_def table_field_def
  offset_field_def read_union_def read_login_def get_string_def vector_field_def c_string_at_def
  Login_username_get_def Login_password_get_def

lemma login_buffer_verified: "Message_verify_as_root ref_verifier login_buffer = 0"
  by (simp add: verify_defs at_defs login_buffer_def)

lemma login_buffer_at: "u32_at login_buffer 0 = 12" "vtable_pos login_buffer 12 = 4"
  "u16_at login_buffer 4 = 8" "u16_at login_buffer 10 = 8"
  by (simp_all add: at_defs login_buffer_def)

lemma login_buffer_not_null: "\<not> typed_null login_buffer"
  by (simp add: typed_null_def vt_entry_def login_buffer_at)

lemma null_buffer_verified: "Message_verify_as_root ref_verifier null_buffer = 0"
  by (simp add: verify_defs at_defs null_buffer_def)

lemma null_buffer_null: "typed_null null_buffer"
  by (simp add: typed_null_def at_defs null_buffer_def)

lemma login_buffer_read: "read_message login_buffer =
    Inr (Req_Login \<lparr>lg_username = ''bob'', lg_password = ''pw''\<rparr>)"
  by (simp add: read_defs at_defs login_buffer_def char_of_def bit_0)

section \<open>Properties\<close>

text \<open>C10: a message that the generated verifier accepts is read by the generated readers without
  leaving its buffer: every string is terminated, every number is a proper one; the only
  failure is the assertion on a required value, and it fails exactly when the union has a type
  and no value, which the verifier lets pass.\<close>

theorem verified_message_reads:
  assumes "flatcc_runtime V" "Message_verify_as_root V buf = 0"
  shows "if typed_null buf then read_message buf = Inl Assert_failed
    else \<exists>req. read_message buf = Inr req \<and> request_wf req"
  using flatcc_runtime.message_read [OF assms] .

theorem verified_message_reads_witness:
  "typed_null null_buffer \<and> read_message null_buffer = Inl Assert_failed \<and>
   (\<exists>req. read_message login_buffer = Inr req \<and> request_wf req)"
  using verified_message_reads [OF rv.flatcc_runtime_axioms login_buffer_verified]
    verified_message_reads [OF rv.flatcc_runtime_axioms null_buffer_verified]
    login_buffer_not_null null_buffer_null by simp

end
