(* ===== verification/Delivery.thy ===== *)
theory Delivery
  imports Inputs Fb_Reference
begin

text \<open>
  Properties of one HTTP session beyond the delivery of a reply: requests without an answer,
  empty bodies, a second request on the same session, failed writes, and the session on top of
  the generated readers and verifiers.
\<close>

section \<open>Requests without an answer\<close>

text \<open>C24: a request that the verifier rejects, or whose type is not implemented, changes nothing, and
  the connection is closed by the first writable callback without a byte of the body sent.\<close>

theorem unanswered_request_closed:
  assumes "concat body \<noteq> []" "lws_ok R"
    and "fb_verify C (received body) \<noteq> 0 \<or> \<not> fb_as_root C (received body) \<or>
      fb_message C (received body) = Inr (Req_Other ty)"
  shows "\<exists>p. run_callbacks E C salt (transaction R body 1) (w, Some fresh_pss) =
    Inr ((w, Some p), [Send_headers, Callback_on_writable], replicate (length body + 2) 0 @ [-1])"
proof -
  have len: "take (pss_data_len (received_pss body)) (received body) = received body"
    by (simp add: received_pss_def received_def)
  have "process E C salt w (received_pss body) = Inr (w, received_pss body)"
    using assms(3) len by (auto simp: process_def received_pss_def Let_def)
  from completion_after_body [OF assms(1), of E C salt R w, unfolded this]
  moreover have "pss_out_data (received_pss body) = None" by (simp add: received_pss_def fresh_pss_def)
  ultimately show ?thesis
    using assms(2) unfolding transaction_def
    by (simp add: run_callbacks_append run_body_callbacks on_http_def lws_ok_def replicate_append_same)
qed

theorem unanswered_request_closed_witness:
  "\<exists>p. run_callbacks ref_env (fixed_codec (Req_Other 9) [1]) ''weak'' (transaction good_lws [[1, 2], [3]] 1)
      (ref_start, Some fresh_pss) =
    Inr ((ref_start, Some p), [Send_headers, Callback_on_writable], [0, 0, 0, 0, -1])"
  using unanswered_request_closed [OF _ good_lws_ok, of "[[1, 2], [3]]" "fixed_codec (Req_Other 9) [1]" 9
      ref_env "''weak''" ref_start]
  by (simp add: fixed_codec_def eval_nat_numeral)

text \<open>A request without a body writes through a null pointer when its body is complete.\<close>

theorem empty_body_crashes:
  assumes "lws_ok R"
  shows "run_callbacks E C salt [(R, CB_HTTP ''api'' True), (R, CB_HTTP_BODY_COMPLETION)]
    (w, Some fresh_pss) = Inl Null_deref"
  using assms by (simp add: on_http_def lws_ok_def on_body_completion_def fresh_pss_def)

theorem empty_body_crashes_witness:
  "run_callbacks ref_env (fixed_codec (Req_Register bob) [1]) ''weak''
     [(good_lws, CB_HTTP ''api'' True), (good_lws, CB_HTTP_BODY_COMPLETION)]
     (ref_start, Some fresh_pss) = Inl Null_deref"
  by (rule empty_body_crashes [OF good_lws_ok])

section \<open>The state that is kept\<close>

text \<open>C28: a session that has already sent a reply of \<open>k\<close> chunks and is given another request keeps its
  chunk index: when the new reply is not longer than those chunks, the first writable callback
  reads outside it.\<close>

theorem second_request_overruns:
  assumes "pss_data p = None" "0 < pss_i p" "concat body \<noteq> []" "lws_ok R"
    and "fb_verify C (received body) = 0" "fb_as_root C (received body)"
    and "fb_message C (received body) = Inr req" "dispatch E salt w req = Inr (w', Some a)"
    and "fb_finalize C a = Some out" "length out \<le> full_chunk * pss_i p"
  shows "run_callbacks E C salt (transaction R body 1) (w, Some p) = Inl Out_of_bounds"
proof -
  have ne: "body \<noteq> []" using assms(3) by auto
  define q where "q = p\<lparr>pss_data := Some (received body), pss_data_len := length (concat body)\<rparr>"
  have len: "length (received body) = length (concat body)" by (simp add: received_def)
  have "process E C salt w q = Inr (w', store_response C a q)"
    using assms(5-8) len by (simp add: process_def q_def del: length_concat)
  moreover have fold: "fold on_body body p =
      p\<lparr>pss_data := Some (concat body), pss_data_len := length (concat body)\<rparr>"
    by (rule fold_on_body_first [OF assms(1) ne])
  moreover have "(fold on_body body p)\<lparr>pss_data := Some (received body)\<rparr> = q"
    unfolding fold q_def by simp
  moreover have "pss_data (fold on_body body p) = Some (concat body)"
    "pss_data_len (fold on_body body p) = length (concat body)" "length (concat body) \<noteq> 0"
    using assms(3) unfolding fold by (simp_all del: length_concat)
  ultimately have "http_callback E C salt R CB_HTTP_BODY_COMPLETION (w, Some (fold on_body body p)) =
      Inr ((w', Some ((store_response C a q)\<lparr>pss_data := None\<rparr>)), [Callback_on_writable], 0)"
    by (simp only: http_callback.simps deref_simps and_then.simps on_body_completion_def received_def
        simp_thms order_less_irrefl if_False prod.case)
  moreover have "on_writeable R w' ((store_response C a q)\<lparr>pss_data := None\<rparr>) out = Inl Out_of_bounds"
  proof -
    have f: "2031 \<le> full_chunk * pss_i p" using assms(2) by (simp add: full_chunk_eq)
    show ?thesis
    proof (cases "length out < full_chunk")
      case True
      then show ?thesis using assms(9) f
        by (simp add: on_writeable_def Let_def q_def full_chunk_eq)
    next
      case False
      then show ?thesis using assms(9,10)
        by (simp add: on_writeable_def Let_def q_def full_chunk_eq)
    qed
  qed
  ultimately show ?thesis
    using assms(4,9) unfolding transaction_def
    by (simp add: run_callbacks_append run_body_callbacks on_http_def lws_ok_def)
qed

theorem second_request_overruns_witness:
  "run_callbacks ref_env (fixed_codec (Req_Register bob) [1, 2, 3]) ''weak'' (transaction good_lws [[7], [8]] 1)
     (ref_start, Some (fresh_pss\<lparr>pss_i := 1\<rparr>)) = Inl Out_of_bounds"
proof -
  obtain w' a where d: "dispatch ref_env ''weak'' ref_start (Req_Register bob) = Inr (w', Some a)"
    using bob_registers by (auto simp: with_response_def)
  show ?thesis
    by (rule second_request_overruns [OF _ _ _ good_lws_ok _ _ _ d, where out = "[1, 2, 3]"])
      (simp_all add: fixed_codec_def fresh_pss_def full_chunk_eq)
qed

text \<open>\<open>lws_write\<close> reports a failure by a negative number, the callback tests for 0: a failed write
  is treated like a successful one, on every callback and in every state.\<close>

theorem write_failure_ignored:
  assumes "lws_written R \<noteq> 0" "n \<noteq> 0"
  shows "http_callback E C salt (R\<lparr>lws_written := n\<rparr>) ev s = http_callback E C salt R ev s"
  using assms
  by (cases "(E, C, salt, R, ev, s)" rule: http_callback.cases)
    (auto simp: on_http_def on_writeable_def Let_def split: option.splits)

theorem write_failure_ignored_witness:
  "http_callback ref_env (fixed_codec (Req_Register bob) [1]) ''weak'' (good_lws\<lparr>lws_written := - 1\<rparr>)
     CB_HTTP_WRITEABLE (ref_start, Some (fresh_pss\<lparr>pss_out_data := Some [5], pss_out_data_len := 1\<rparr>)) =
   http_callback ref_env (fixed_codec (Req_Register bob) [1]) ''weak'' good_lws
     CB_HTTP_WRITEABLE (ref_start, Some (fresh_pss\<lparr>pss_out_data := Some [5], pss_out_data_len := 1\<rparr>))"
  by (rule write_failure_ignored) (simp_all add: good_lws_def)

section \<open>The generated code in the session\<close>

text \<open>C9: with the generated verifier and readers, completing a body has three outcomes: it is rejected
  and nothing changes; it is a well-formed request, and its handler decides; or its union has
  a type and no value, and the process aborts.\<close>

theorem generated_request:
  assumes "flatcc_runtime V" "C = generated_codec V finalize" "concat body \<noteq> []"
  shows "if Message_verify_as_root V (received body) \<noteq> 0 then
      process E C salt w (received_pss body) = Inr (w, received_pss body)
    else if typed_null (received body) then
      http_callback E C salt R CB_HTTP_BODY_COMPLETION (w, Some (fold on_body body fresh_pss)) =
        Inl Assert_failed
    else \<exists>req. request_wf req \<and> process E C salt w (received_pss body) =
      and_then (dispatch E salt w req) (\<lambda>(w, reply).
        Inr (w, case reply of None \<Rightarrow> received_pss body | Some a \<Rightarrow> store_response C a (received_pss body)))"
proof -
  let ?buf = "received body"
  have len: "take (pss_data_len (received_pss body)) ?buf = ?buf" "pss_data (received_pss body) = Some ?buf"
    by (simp_all add: received_pss_def received_def)
  have root: "Message_as_root ?buf \<noteq> Inr None"
    by (auto simp: Message_as_root_def read_root_def has_identifier_def Message_identifier_def and_then_Inr_iff)
  have p: "process E C salt w (received_pss body) =
      (if Message_verify_as_root V ?buf \<noteq> 0 then Inr (w, received_pss body)
       else and_then (and_then (read_message ?buf) (dispatch E salt w)) (\<lambda>(w, reply).
         Inr (w, case reply of None \<Rightarrow> received_pss body | Some a \<Rightarrow> store_response C a (received_pss body))))"
  proof -
    have "fb_verify C = Message_verify_as_root V" "fb_as_root C = (\<lambda>buf. Message_as_root buf \<noteq> Inr None)"
      "fb_message C = read_message" by (simp_all add: assms(2) generated_codec_def)
    with root show ?thesis by (simp add: process_def len Let_def)
  qed
  have v: "if typed_null ?buf then read_message ?buf = Inl Assert_failed
      else \<exists>req. read_message ?buf = Inr req \<and> request_wf req" if "Message_verify_as_root V ?buf = 0"
    by (rule flatcc_runtime.message_read [OF assms(1) that])
  show ?thesis
  proof (cases "Message_verify_as_root V ?buf = 0")
    case True
    with v show ?thesis
      using completion_after_body [OF assms(3), of E C salt R w] p by (auto split: if_splits)
  qed (simp add: p)
qed

theorem generated_request_witness:
  "http_callback ref_env (generated_codec ref_verifier (\<lambda>_. None)) ''weak'' good_lws CB_HTTP_BODY_COMPLETION
     (ref_start, Some (fold on_body [take 5 null_buffer, drop 5 null_buffer] fresh_pss)) = Inl Assert_failed"
proof -
  have r: "received [take 5 null_buffer, drop 5 null_buffer] = null_buffer"
    by (simp add: received_def null_buffer_def)
  have "concat [take 5 null_buffer, drop 5 null_buffer] \<noteq> []" by (simp add: null_buffer_def)
  from generated_request [OF rv.flatcc_runtime_axioms refl this, where E = ref_env and salt = "''weak''"
      and w = ref_start and finalize = "\<lambda>_. None" and R = good_lws]
  show ?thesis using null_buffer_verified null_buffer_null by (simp add: r)
qed

end
