(* ===== verification/Fb_Response.thy ===== *)
theory Fb_Response
  imports Fb_Request
begin

text \<open>
  The generated readers of the responses, \<open>src/backend/api-schema/response/gen/*_reader.h\<close>: the
  accessors of the nine tables, names and known values of the enumeration and of the union. The common
  header of this directory is the one of \<open>Fb_Reader\<close>. \<open>read_response\<close> reads a whole response with
  these accessors, as a client does.
\<close>

section \<open>Scalars\<close>

definition read_uint8 :: "u8 list \<Rightarrow> int \<Rightarrow> u8 outcome" where
  "read_uint8 buf p = and_then (read_le buf p 1) (\<lambda>v. Inr (of_nat v))"

text \<open>The literal \<open>-1.000000\<close>.\<close>

definition minus_one :: double where
  "minus_one = double_of_bits 0xBFF0000000000000"

lemma minus_one_eq: "minus_one = Fin True (2 ^ 52) (- 52)"
  by (simp add: minus_one_def double_of_bits_def)

section \<open>The accessors\<close>

text \<open>\<open>r_check_contract_reader.h\<close>\<close>

definition Response_User_identifier :: "string option" where
  "Response_User_identifier = None"

definition Response_User_type_hash :: "nat" where
  "Response_User_type_hash = 0x60378249"

definition Response_User_type_identifier :: "string" where
  "Response_User_type_identifier = [CHR 0x49, CHR 0x82, CHR 0x37, CHR 0x60]"

definition Response_User_vec_len :: "u8 list \<Rightarrow> ptr \<Rightarrow> nat outcome" where
  "Response_User_vec_len buf vec = vec_len buf vec"

definition Response_User_vec_at :: "u8 list \<Rightarrow> ptr \<Rightarrow> nat \<Rightarrow> ptr outcome" where
  "Response_User_vec_at buf vec i = offset_vec_at buf 0 vec i"

definition Response_User_as_root :: "u8 list \<Rightarrow> ptr outcome" where
  "Response_User_as_root buf = read_root buf Response_User_identifier"

definition Response_User_as_typed_root :: "u8 list \<Rightarrow> ptr outcome" where
  "Response_User_as_typed_root buf = read_typed_root buf Response_User_type_hash"

definition Response_User_username_get :: "u8 list \<Rightarrow> ptr \<Rightarrow> ptr outcome" where
  "Response_User_username_get buf t = vector_field buf 0 True t"

definition Response_User_firstName_get :: "u8 list \<Rightarrow> ptr \<Rightarrow> ptr outcome" where
  "Response_User_firstName_get buf t = vector_field buf 1 True t"

definition Response_User_lastName_get :: "u8 list \<Rightarrow> ptr \<Rightarrow> ptr outcome" where
  "Response_User_lastName_get buf t = vector_field buf 2 True t"

definition Response_CheckContract_identifier :: "string option" where
  "Response_CheckContract_identifier = None"

definition Response_CheckContract_type_hash :: "nat" where
  "Response_CheckContract_type_hash = 0xaf01bbb4"

definition Response_CheckContract_type_identifier :: "string" where
  "Response_CheckContract_type_identifier = [CHR 0xB4, CHR 0xBB, CHR 0x01, CHR 0xAF]"

definition Response_CheckContract_vec_len :: "u8 list \<Rightarrow> ptr \<Rightarrow> nat outcome" where
  "Response_CheckContract_vec_len buf vec = vec_len buf vec"

definition Response_CheckContract_vec_at :: "u8 list \<Rightarrow> ptr \<Rightarrow> nat \<Rightarrow> ptr outcome" where
  "Response_CheckContract_vec_at buf vec i = offset_vec_at buf 0 vec i"

definition Response_CheckContract_as_root :: "u8 list \<Rightarrow> ptr outcome" where
  "Response_CheckContract_as_root buf = read_root buf Response_CheckContract_identifier"

definition Response_CheckContract_as_typed_root :: "u8 list \<Rightarrow> ptr outcome" where
  "Response_CheckContract_as_typed_root buf = read_typed_root buf Response_CheckContract_type_hash"

definition Response_CheckContract_id_get :: "u8 list \<Rightarrow> ptr \<Rightarrow> u64 outcome" where
  "Response_CheckContract_id_get buf t = scalar_get read_int64 (- 1) buf 0 t"

definition Response_CheckContract_name_get :: "u8 list \<Rightarrow> ptr \<Rightarrow> ptr outcome" where
  "Response_CheckContract_name_get buf t = vector_field buf 1 True t"

definition Response_CheckContract_description_get :: "u8 list \<Rightarrow> ptr \<Rightarrow> ptr outcome" where
  "Response_CheckContract_description_get buf t = vector_field buf 2 False t"

definition Response_CheckContract_description_is_present :: "u8 list \<Rightarrow> ptr \<Rightarrow> bool outcome" where
  "Response_CheckContract_description_is_present buf t = field_present buf 2 t"

definition Response_CheckContract_price_get :: "u8 list \<Rightarrow> ptr \<Rightarrow> double outcome" where
  "Response_CheckContract_price_get buf t = scalar_get read_double minus_one buf 3 t"

definition Response_CheckContract_attachment_get :: "u8 list \<Rightarrow> ptr \<Rightarrow> ptr outcome" where
  "Response_CheckContract_attachment_get buf t = vector_field buf 4 False t"

definition Response_CheckContract_attachment_is_present :: "u8 list \<Rightarrow> ptr \<Rightarrow> bool outcome" where
  "Response_CheckContract_attachment_is_present buf t = field_present buf 4 t"

definition Response_CheckContract_status_get :: "u8 list \<Rightarrow> ptr \<Rightarrow> u8 outcome" where
  "Response_CheckContract_status_get buf t = scalar_get read_uint8 status_Processing buf 5 t"

definition Response_CheckContract_created_at_get :: "u8 list \<Rightarrow> ptr \<Rightarrow> u64 outcome" where
  "Response_CheckContract_created_at_get buf t = scalar_get read_int64 0 buf 6 t"

definition Response_CheckContract_by_user_get :: "u8 list \<Rightarrow> ptr \<Rightarrow> ptr outcome" where
  "Response_CheckContract_by_user_get buf t = table_field buf 7 True t"

text \<open>\<open>r_login_reader.h\<close>\<close>

definition Response_Login_identifier :: "string option" where
  "Response_Login_identifier = None"

definition Response_Login_type_hash :: "nat" where
  "Response_Login_type_hash = 0xed90eb13"

definition Response_Login_type_identifier :: "string" where
  "Response_Login_type_identifier = [CHR 0x13, CHR 0xEB, CHR 0x90, CHR 0xED]"

definition Response_Login_vec_len :: "u8 list \<Rightarrow> ptr \<Rightarrow> nat outcome" where
  "Response_Login_vec_len buf vec = vec_len buf vec"

definition Response_Login_vec_at :: "u8 list \<Rightarrow> ptr \<Rightarrow> nat \<Rightarrow> ptr outcome" where
  "Response_Login_vec_at buf vec i = offset_vec_at buf 0 vec i"

definition Response_Login_as_root :: "u8 list \<Rightarrow> ptr outcome" where
  "Response_Login_as_root buf = read_root buf Response_Login_identifier"

definition Response_Login_as_typed_root :: "u8 list \<Rightarrow> ptr outcome" where
  "Response_Login_as_typed_root buf = read_typed_root buf Response_Login_type_hash"

definition Response_Login_token_get :: "u8 list \<Rightarrow> ptr \<Rightarrow> ptr outcome" where
  "Response_Login_token_get buf t = vector_field buf 0 True t"

text \<open>\<open>r_register_reader.h\<close>\<close>

definition Response_Register_identifier :: "string option" where
  "Response_Register_identifier = None"

definition Response_Register_type_hash :: "nat" where
  "Response_Register_type_hash = 0xd67c777f"

definition Response_Register_type_identifier :: "string" where
  "Response_Register_type_identifier = [CHR 0x7F, CHR 0x77, CHR 0x7C, CHR 0xD6]"

definition Response_Register_vec_len :: "u8 list \<Rightarrow> ptr \<Rightarrow> nat outcome" where
  "Response_Register_vec_len buf vec = vec_len buf vec"

definition Response_Register_vec_at :: "u8 list \<Rightarrow> ptr \<Rightarrow> nat \<Rightarrow> ptr outcome" where
  "Response_Register_vec_at buf vec i = offset_vec_at buf 0 vec i"

definition Response_Register_as_root :: "u8 list \<Rightarrow> ptr outcome" where
  "Response_Register_as_root buf = read_root buf Response_Register_identifier"

definition Response_Register_as_typed_root :: "u8 list \<Rightarrow> ptr outcome" where
  "Response_Register_as_typed_root buf = read_typed_root buf Response_Register_type_hash"

definition Response_Register_token_get :: "u8 list \<Rightarrow> ptr \<Rightarrow> ptr outcome" where
  "Response_Register_token_get buf t = vector_field buf 0 True t"

text \<open>\<open>r_get_me_reader.h\<close>\<close>

definition Response_GetMe_identifier :: "string option" where
  "Response_GetMe_identifier = None"

definition Response_GetMe_type_hash :: "nat" where
  "Response_GetMe_type_hash = 0xc3465938"

definition Response_GetMe_type_identifier :: "string" where
  "Response_GetMe_type_identifier = [CHR 0x38, CHR 0x59, CHR 0x46, CHR 0xC3]"

definition Response_GetMe_vec_len :: "u8 list \<Rightarrow> ptr \<Rightarrow> nat outcome" where
  "Response_GetMe_vec_len buf vec = vec_len buf vec"

definition Response_GetMe_vec_at :: "u8 list \<Rightarrow> ptr \<Rightarrow> nat \<Rightarrow> ptr outcome" where
  "Response_GetMe_vec_at buf vec i = offset_vec_at buf 0 vec i"

definition Response_GetMe_as_root :: "u8 list \<Rightarrow> ptr outcome" where
  "Response_GetMe_as_root buf = read_root buf Response_GetMe_identifier"

definition Response_GetMe_as_typed_root :: "u8 list \<Rightarrow> ptr outcome" where
  "Response_GetMe_as_typed_root buf = read_typed_root buf Response_GetMe_type_hash"

definition Response_GetMe_username_get :: "u8 list \<Rightarrow> ptr \<Rightarrow> ptr outcome" where
  "Response_GetMe_username_get buf t = vector_field buf 0 True t"

definition Response_GetMe_password_get :: "u8 list \<Rightarrow> ptr \<Rightarrow> ptr outcome" where
  "Response_GetMe_password_get buf t = vector_field buf 1 True t"

definition Response_GetMe_firstName_get :: "u8 list \<Rightarrow> ptr \<Rightarrow> ptr outcome" where
  "Response_GetMe_firstName_get buf t = vector_field buf 2 True t"

definition Response_GetMe_lastName_get :: "u8 list \<Rightarrow> ptr \<Rightarrow> ptr outcome" where
  "Response_GetMe_lastName_get buf t = vector_field buf 3 True t"

definition Response_GetMe_admin_get :: "u8 list \<Rightarrow> ptr \<Rightarrow> bool outcome" where
  "Response_GetMe_admin_get buf t = scalar_get read_bool False buf 4 t"

text \<open>\<open>r_edit_me_reader.h\<close>\<close>

definition Response_EditMe_identifier :: "string option" where
  "Response_EditMe_identifier = None"

definition Response_EditMe_type_hash :: "nat" where
  "Response_EditMe_type_hash = 0xf768060"

definition Response_EditMe_type_identifier :: "string" where
  "Response_EditMe_type_identifier = [CHR 0x60, CHR 0x80, CHR 0x76, CHR 0x0F]"

definition Response_EditMe_vec_len :: "u8 list \<Rightarrow> ptr \<Rightarrow> nat outcome" where
  "Response_EditMe_vec_len buf vec = vec_len buf vec"

definition Response_EditMe_vec_at :: "u8 list \<Rightarrow> ptr \<Rightarrow> nat \<Rightarrow> ptr outcome" where
  "Response_EditMe_vec_at buf vec i = offset_vec_at buf 0 vec i"

definition Response_EditMe_as_root :: "u8 list \<Rightarrow> ptr outcome" where
  "Response_EditMe_as_root buf = read_root buf Response_EditMe_identifier"

definition Response_EditMe_as_typed_root :: "u8 list \<Rightarrow> ptr outcome" where
  "Response_EditMe_as_typed_root buf = read_typed_root buf Response_EditMe_type_hash"

definition Response_EditMe_token_get :: "u8 list \<Rightarrow> ptr \<Rightarrow> ptr outcome" where
  "Response_EditMe_token_get buf t = vector_field buf 0 True t"

text \<open>\<open>r_request_contract_reader.h\<close>\<close>

definition Response_RequestContract_identifier :: "string option" where
  "Response_RequestContract_identifier = None"

definition Response_RequestContract_type_hash :: "nat" where
  "Response_RequestContract_type_hash = 0x9a0f30e5"

definition Response_RequestContract_type_identifier :: "string" where
  "Response_RequestContract_type_identifier = [CHR 0xE5, CHR 0x30, CHR 0x0F, CHR 0x9A]"

definition Response_RequestContract_vec_len :: "u8 list \<Rightarrow> ptr \<Rightarrow> nat outcome" where
  "Response_RequestContract_vec_len buf vec = vec_len buf vec"

definition Response_RequestContract_vec_at :: "u8 list \<Rightarrow> ptr \<Rightarrow> nat \<Rightarrow> ptr outcome" where
  "Response_RequestContract_vec_at buf vec i = offset_vec_at buf 0 vec i"

definition Response_RequestContract_as_root :: "u8 list \<Rightarrow> ptr outcome" where
  "Response_RequestContract_as_root buf = read_root buf Response_RequestContract_identifier"

definition Response_RequestContract_as_typed_root :: "u8 list \<Rightarrow> ptr outcome" where
  "Response_RequestContract_as_typed_root buf = read_typed_root buf Response_RequestContract_type_hash"

definition Response_RequestContract_result_get :: "u8 list \<Rightarrow> ptr \<Rightarrow> ptr outcome" where
  "Response_RequestContract_result_get buf t = table_field buf 0 True t"

text \<open>\<open>r_list_contracts_reader.h\<close>\<close>

definition Response_ListContracts_identifier :: "string option" where
  "Response_ListContracts_identifier = None"

definition Response_ListContracts_type_hash :: "nat" where
  "Response_ListContracts_type_hash = 0xe87fadf9"

definition Response_ListContracts_type_identifier :: "string" where
  "Response_ListContracts_type_identifier = [CHR 0xF9, CHR 0xAD, CHR 0x7F, CHR 0xE8]"

definition Response_ListContracts_vec_len :: "u8 list \<Rightarrow> ptr \<Rightarrow> nat outcome" where
  "Response_ListContracts_vec_len buf vec = vec_len buf vec"

definition Response_ListContracts_vec_at :: "u8 list \<Rightarrow> ptr \<Rightarrow> nat \<Rightarrow> ptr outcome" where
  "Response_ListContracts_vec_at buf vec i = offset_vec_at buf 0 vec i"

definition Response_ListContracts_as_root :: "u8 list \<Rightarrow> ptr outcome" where
  "Response_ListContracts_as_root buf = read_root buf Response_ListContracts_identifier"

definition Response_ListContracts_as_typed_root :: "u8 list \<Rightarrow> ptr outcome" where
  "Response_ListContracts_as_typed_root buf = read_typed_root buf Response_ListContracts_type_hash"

definition Response_ListContracts_contracts_get :: "u8 list \<Rightarrow> ptr \<Rightarrow> ptr outcome" where
  "Response_ListContracts_contracts_get buf t = vector_field buf 0 True t"

text \<open>\<open>response_api_reader.h\<close>\<close>

definition Response_Message_identifier :: "string option" where
  "Response_Message_identifier = None"

definition Response_Message_type_hash :: "nat" where
  "Response_Message_type_hash = 0xd3fe0735"

definition Response_Message_type_identifier :: "string" where
  "Response_Message_type_identifier = [CHR 0x35, CHR 0x07, CHR 0xFE, CHR 0xD3]"

definition Response_Message_vec_len :: "u8 list \<Rightarrow> ptr \<Rightarrow> nat outcome" where
  "Response_Message_vec_len buf vec = vec_len buf vec"

definition Response_Message_vec_at :: "u8 list \<Rightarrow> ptr \<Rightarrow> nat \<Rightarrow> ptr outcome" where
  "Response_Message_vec_at buf vec i = offset_vec_at buf 0 vec i"

definition Response_Message_as_root :: "u8 list \<Rightarrow> ptr outcome" where
  "Response_Message_as_root buf = read_root buf Response_Message_identifier"

definition Response_Message_as_typed_root :: "u8 list \<Rightarrow> ptr outcome" where
  "Response_Message_as_typed_root buf = read_typed_root buf Response_Message_type_hash"

definition Response_Message_msg_type_get :: "u8 list \<Rightarrow> ptr \<Rightarrow> nat outcome" where
  "Response_Message_msg_type_get buf t = union_type_field buf (1 - 1) t"

definition Response_Message_msg_get :: "u8 list \<Rightarrow> ptr \<Rightarrow> ptr outcome" where
  "Response_Message_msg_get buf t = table_field buf 1 False t"

definition Response_Message_msg_union :: "u8 list \<Rightarrow> ptr \<Rightarrow> fb_union outcome" where
  "Response_Message_msg_union buf t = union_field buf 1 False t"

definition Response_Message_msg_is_present :: "u8 list \<Rightarrow> ptr \<Rightarrow> bool outcome" where
  "Response_Message_msg_is_present buf t = field_present buf 1 t"

definition Response_Message_error_get :: "u8 list \<Rightarrow> ptr \<Rightarrow> bool outcome" where
  "Response_Message_error_get buf t = scalar_get read_bool False buf 2 t"

definition Response_Message_errorDescription_get :: "u8 list \<Rightarrow> ptr \<Rightarrow> ptr outcome" where
  "Response_Message_errorDescription_get buf t = vector_field buf 3 False t"

definition Response_Message_errorDescription_is_present :: "u8 list \<Rightarrow> ptr \<Rightarrow> bool outcome" where
  "Response_Message_errorDescription_is_present buf t = field_present buf 3 t"

text \<open>The enumeration \<open>Status\<close> and the union \<open>MessageType\<close>.\<close>

definition Response_Status_name :: "u8 \<Rightarrow> string" where
  "Response_Status_name v =
     (if v = 1 then ''Processing'' else if v = 2 then ''Accepted'' else if v = 3 then ''Rejected'' else [])"

definition Response_Status_is_known_value :: "u8 \<Rightarrow> bool" where
  "Response_Status_is_known_value v =
     (if v = 1 then True else if v = 2 then True else if v = 3 then True else False)"

definition Response_MessageType_type_name :: "nat \<Rightarrow> string" where
  "Response_MessageType_type_name ty =
     (if ty = 0 then ''NONE'' else if ty = 1 then ''Login'' else if ty = 2 then ''Register''
      else if ty = 3 then ''GetMe'' else if ty = 4 then ''EditMe''
      else if ty = 5 then ''RequestContract'' else if ty = 6 then ''ListContracts''
      else if ty = 7 then ''CheckContract'' else [])"

definition Response_MessageType_is_known_type :: "nat \<Rightarrow> bool" where
  "Response_MessageType_is_known_type ty =
     (if ty = 0 then True else if ty = 1 then True else if ty = 2 then True
      else if ty = 3 then True else if ty = 4 then True else if ty = 5 then True
      else if ty = 6 then True else if ty = 7 then True else False)"

section \<open>Reading a response\<close>

definition read_user :: "u8 list \<Rightarrow> ptr \<Rightarrow> user_info outcome" where
  "read_user buf t =
     and_then (get_string Response_User_username_get buf t) (\<lambda>u.
     and_then (get_string Response_User_firstName_get buf t) (\<lambda>f.
     and_then (get_string Response_User_lastName_get buf t) (\<lambda>l.
       Inr \<lparr>ui_username = u, ui_firstName = f, ui_lastName = l\<rparr>)))"

definition read_contract :: "u8 list \<Rightarrow> ptr \<Rightarrow> contract_info outcome" where
  "read_contract buf t =
     and_then (Response_CheckContract_id_get buf t) (\<lambda>i.
     and_then (get_string Response_CheckContract_name_get buf t) (\<lambda>n.
     and_then (get_optional Response_CheckContract_description_is_present
                 (get_string Response_CheckContract_description_get) buf t) (\<lambda>d.
     and_then (Response_CheckContract_price_get buf t) (\<lambda>p.
     and_then (get_optional Response_CheckContract_attachment_is_present
                 (get_bytes Response_CheckContract_attachment_get) buf t) (\<lambda>a.
     and_then (Response_CheckContract_status_get buf t) (\<lambda>s.
     and_then (Response_CheckContract_created_at_get buf t) (\<lambda>c.
     and_then (Response_CheckContract_by_user_get buf t) (\<lambda>v.
     and_then (read_user buf v) (\<lambda>u.
       Inr \<lparr>ci_id = i, ci_name = n, ci_description = d, ci_price = p, ci_attachment = a,
            ci_status = s, ci_created_at = c, ci_by_user = u\<rparr>)))))))))"

fun read_contracts :: "u8 list \<Rightarrow> ptr \<Rightarrow> nat list \<Rightarrow> contract_info list outcome" where
  "read_contracts buf vec [] = Inr []"
| "read_contracts buf vec (i # is) =
     and_then (Response_CheckContract_vec_at buf vec i) (\<lambda>t.
     and_then (read_contract buf t) (\<lambda>c.
     and_then (read_contracts buf vec is) (\<lambda>cs. Inr (c # cs))))"

definition read_me :: "u8 list \<Rightarrow> ptr \<Rightarrow> me_info outcome" where
  "read_me buf t =
     and_then (get_string Response_GetMe_username_get buf t) (\<lambda>u.
     and_then (get_string Response_GetMe_password_get buf t) (\<lambda>p.
     and_then (get_string Response_GetMe_firstName_get buf t) (\<lambda>f.
     and_then (get_string Response_GetMe_lastName_get buf t) (\<lambda>l.
     and_then (Response_GetMe_admin_get buf t) (\<lambda>a.
       Inr \<lparr>mi_username = u, mi_password = p, mi_firstName = f, mi_lastName = l, mi_admin = a\<rparr>)))))"

text \<open>The value of the union; a type that the reader does not know has none.\<close>

definition read_body :: "u8 list \<Rightarrow> fb_union \<Rightarrow> response_body option outcome" where
  "read_body buf u =
     (let v = u_value u
      in if u_type u = 1 then and_then (get_string Response_Login_token_get buf v) (\<lambda>s. Inr (Some (Res_Login s)))
         else if u_type u = 2 then and_then (get_string Response_Register_token_get buf v) (\<lambda>s. Inr (Some (Res_Register s)))
         else if u_type u = 3 then and_then (read_me buf v) (\<lambda>m. Inr (Some (Res_GetMe m)))
         else if u_type u = 4 then and_then (get_string Response_EditMe_token_get buf v) (\<lambda>s. Inr (Some (Res_EditMe s)))
         else if u_type u = 5 then
           and_then (Response_RequestContract_result_get buf v) (\<lambda>t.
           and_then (read_contract buf t) (\<lambda>c. Inr (Some (Res_RequestContract c))))
         else if u_type u = 6 then
           and_then (Response_ListContracts_contracts_get buf v) (\<lambda>vec.
           and_then (Response_CheckContract_vec_len buf vec) (\<lambda>n.
           and_then (read_contracts buf vec [0..<n]) (\<lambda>cs. Inr (Some (Res_ListContracts cs)))))
         else if u_type u = 7 then and_then (read_contract buf v) (\<lambda>c. Inr (Some (Res_CheckContract c)))
         else Inr None)"

definition read_response :: "u8 list \<Rightarrow> response outcome" where
  "read_response buf =
     and_then (Response_Message_as_root buf) (\<lambda>t.
     and_then (Response_Message_error_get buf t) (\<lambda>e.
     and_then (get_optional Response_Message_errorDescription_is_present
                 (get_string Response_Message_errorDescription_get) buf t) (\<lambda>d.
     and_then (Response_Message_msg_union buf t) (\<lambda>u.
     and_then (read_body buf u) (\<lambda>m.
       Inr \<lparr>r_error = e, r_errorDescription = d, r_msg = m\<rparr>)))))"

end
