(* ===== verification/Fb_Builder.thy ===== *)
theory Fb_Builder
  imports Fb_Response
begin

text \<open>
  The generated builders of the responses,
  \<open>src/backend/api-schema/response/gen/*_builder.h\<close>: the macros of the common header and one group of
  functions per table, over the runtime that they call. The runtime is declared in the
  vendored \<open>flatcc_builder.h\<close> and is a parameter, \<open>builder_runtime\<close>, on its own state. A reference
  is a number, 0 when it is null; a pointer to a place in the open table is a number as well. Scalars are
  little-endian, as the native order of the target is. A failing \<open>assert\<close> is an outcome.
\<close>

section \<open>The runtime\<close>

record 'b builder_runtime =
  rt_init :: 'b
  rt_start_buffer :: "string option \<Rightarrow> 'b \<Rightarrow> 'b \<times> int"
  rt_end_buffer :: "nat \<Rightarrow> 'b \<Rightarrow> 'b \<times> nat"
  rt_start_table :: "nat \<Rightarrow> 'b \<Rightarrow> 'b \<times> int"
  rt_check_required :: "nat list \<Rightarrow> 'b \<Rightarrow> bool"
  rt_end_table :: "'b \<Rightarrow> 'b \<times> nat"
  rt_table_add :: "nat \<Rightarrow> nat \<Rightarrow> nat \<Rightarrow> 'b \<Rightarrow> 'b \<times> nat option" \<comment> \<open>id, size, alignment\<close>
  rt_table_add_offset :: "nat \<Rightarrow> 'b \<Rightarrow> 'b \<times> nat option"
  rt_store :: "nat \<Rightarrow> u8 list \<Rightarrow> 'b \<Rightarrow> 'b option" \<comment> \<open>\<open>*p = v\<close> for a scalar; nothing when \<open>p\<close> is no longer valid\<close>
  rt_store_ref :: "nat \<Rightarrow> nat \<Rightarrow> 'b \<Rightarrow> 'b" \<comment> \<open>\<open>*p = ref\<close>\<close>
  rt_create_string_str :: "string \<Rightarrow> 'b \<Rightarrow> 'b \<times> nat"
  rt_create_vector :: "u8 list \<Rightarrow> nat \<Rightarrow> nat \<Rightarrow> 'b \<Rightarrow> 'b \<times> nat" \<comment> \<open>data, size and alignment of an element\<close>
  rt_start_offset_vector :: "'b \<Rightarrow> 'b \<times> int"
  rt_offset_vector_push :: "nat \<Rightarrow> 'b \<Rightarrow> 'b \<times> nat option"
  rt_end_offset_vector :: "'b \<Rightarrow> 'b \<times> nat"
  rt_finalize_aligned_buffer :: "'b \<Rightarrow> u8 list option"

section \<open>Sequences of calls\<close>

type_synonym ('b, 'r) build = "'b \<Rightarrow> ('b \<times> 'r) outcome"

definition build_return :: "'r \<Rightarrow> ('b, 'r) build" where
  "build_return r = (\<lambda>b. Inr (b, r))"

definition build_call :: "('b \<Rightarrow> 'b \<times> 'r) \<Rightarrow> ('b, 'r) build" where
  "build_call f = (\<lambda>b. Inr (f b))"

definition build_do :: "('b \<Rightarrow> 'b) \<Rightarrow> ('b, unit) build" where
  "build_do f = (\<lambda>b. Inr (f b, ()))"

text \<open>A store through a pointer into the open table, undefined when the pointer did not survive.\<close>

definition build_store :: "('b \<Rightarrow> 'b option) \<Rightarrow> ('b, unit) build" where
  "build_store f = (\<lambda>b. case f b of None \<Rightarrow> Inl Dangling | Some b' \<Rightarrow> Inr (b', ()))"

definition build_then :: "('b, 'r) build \<Rightarrow> ('r \<Rightarrow> ('b, 's) build) \<Rightarrow> ('b, 's) build" where
  "build_then m f = (\<lambda>b. and_then (m b) (\<lambda>(b, r). f r b))"

text \<open>\<open>a || b || ...\<close> on integer results: the rest is not called after the first that is not 0.\<close>

fun any_failed :: "('b, int) build list \<Rightarrow> ('b, bool) build" where
  "any_failed [] = build_return False"
| "any_failed (m # ms) = build_then m (\<lambda>rc. if rc \<noteq> 0 then build_return True else any_failed ms)"

section \<open>Scalars in wire order\<close>

definition le_bytes :: "nat \<Rightarrow> nat \<Rightarrow> u8 list" where
  "le_bytes n v = map (\<lambda>i. of_nat (v div 256 ^ i)) [0..<n]"

text \<open>The bits of a \<open>binary64\<close>: sign, biased exponent, fraction.\<close>

definition bits_of_double :: "double \<Rightarrow> nat" where
  "bits_of_double x =
     (let sgn = (\<lambda>s. if s then 2 ^ 63 else 0)
      in case x of
           Inf s \<Rightarrow> sgn s + 2047 * 2 ^ 52
         | NaN s \<Rightarrow> sgn s + 2047 * 2 ^ 52 + 2 ^ 51
         | Fin s m e \<Rightarrow>
             if m = 0 then sgn s
             else
               let k = bit_len m; top = e + int k - 1
               in if - 1022 \<le> top
                  then sgn s + nat (top + 1023) * 2 ^ 52 + (m * 2 ^ (53 - k) - 2 ^ 52)
                  else sgn s + m * 2 ^ nat (e + 1074))"

text \<open>\<open>==\<close> on doubles: both zeros are equal, a NaN equals nothing.\<close>

definition double_eq :: "double \<Rightarrow> double \<Rightarrow> bool" where
  "double_eq x y =
     (case (x, y) of
        (Fin s m e, Fin s' m' e') \<Rightarrow>
          m = 0 \<and> m' = 0 \<or> s = s' \<and> numer m e * denom e' = numer m' e' * denom e
      | (Inf s, Inf s') \<Rightarrow> s = s'
      | _ \<Rightarrow> False)"

definition bool_bytes :: "bool \<Rightarrow> u8 list" where
  "bool_bytes v = [if v then 1 else 0]"

definition uint8_bytes :: "u8 \<Rightarrow> u8 list" where
  "uint8_bytes v = [v]"

definition int64_bytes :: "u64 \<Rightarrow> u8 list" where
  "int64_bytes v = le_bytes 8 (unat v)"

definition double_bytes :: "double \<Rightarrow> u8 list" where
  "double_bytes v = le_bytes 8 (bits_of_double v)"

section \<open>The macros\<close>

definition buffer_start :: "'b builder_runtime \<Rightarrow> string option \<Rightarrow> ('b, int) build" where
  "buffer_start R fid = build_call (rt_start_buffer R fid)"

definition buffer_end :: "'b builder_runtime \<Rightarrow> nat \<Rightarrow> ('b, nat) build" where
  "buffer_end R root = build_call (rt_end_buffer R root)"

definition string_create_str :: "'b builder_runtime \<Rightarrow> string \<Rightarrow> ('b, nat) build" where
  "string_create_str R s = build_call (rt_create_string_str R s)"

text \<open>\<open>__flatbuffers_build_table\<close>\<close>

definition table_start :: "'b builder_runtime \<Rightarrow> nat \<Rightarrow> ('b, int) build" where
  "table_start R K = build_call (rt_start_table R K)"

definition table_end :: "'b builder_runtime \<Rightarrow> nat list \<Rightarrow> ('b, nat) build" where
  "table_end R required = (\<lambda>b.
     if rt_check_required R required b then Inr (rt_end_table R b) else Inl Assert_failed)"

text \<open>\<open>_start_as_root\<close>, \<open>_start_as_typed_root\<close>, \<open>_end_as_root\<close> and \<open>_create\<close>\<close>

definition start_as_root :: "'b builder_runtime \<Rightarrow> string option \<Rightarrow> ('b, int) build \<Rightarrow> ('b, int) build" where
  "start_as_root R fid start =
     build_then (buffer_start R fid) (\<lambda>rc. if rc \<noteq> 0 then build_return (- 1) else start)"

definition end_as_root :: "'b builder_runtime \<Rightarrow> ('b, nat) build \<Rightarrow> ('b, nat) build" where
  "end_as_root R finish = build_then finish (buffer_end R)"

definition create_as_root :: "'b builder_runtime \<Rightarrow> string option \<Rightarrow> ('b, nat) build \<Rightarrow> ('b, nat) build" where
  "create_as_root R fid create =
     build_then (buffer_start R fid) (\<lambda>rc.
       if rc \<noteq> 0 then build_return 0 else build_then create (buffer_end R))"

definition table_create :: "('b, int) build list \<Rightarrow> ('b, nat) build \<Rightarrow> ('b, nat) build" where
  "table_create adds finish =
     build_then (any_failed adds) (\<lambda>failed. if failed then build_return 0 else finish)"

text \<open>\<open>_add\<close> of a table, string, vector or offset vector field.\<close>

definition offset_add :: "'b builder_runtime \<Rightarrow> nat \<Rightarrow> nat \<Rightarrow> ('b, int) build" where
  "offset_add R ID ref =
     (if ref = 0 then build_return (- 1)
      else build_then (build_call (rt_table_add_offset R ID)) (\<lambda>p.
        case p of
          None \<Rightarrow> build_return (- 1)
        | Some p \<Rightarrow> build_then (build_do (rt_store_ref R p ref)) (\<lambda>_. build_return 0)))"

text \<open>\<open>_add\<close> and \<open>_force_add\<close> of a scalar field: \<open>is_default\<close> is \<open>v == V\<close>.\<close>

definition scalar_force_add :: "'b builder_runtime \<Rightarrow> nat \<Rightarrow> nat \<Rightarrow> nat \<Rightarrow> u8 list \<Rightarrow> ('b, int) build" where
  "scalar_force_add R ID S A v =
     build_then (build_call (rt_table_add R ID S A)) (\<lambda>p.
       case p of
         None \<Rightarrow> build_return (- 1)
       | Some p \<Rightarrow> build_then (build_store (rt_store R p v)) (\<lambda>_. build_return 0))"

definition scalar_add :: "'b builder_runtime \<Rightarrow> nat \<Rightarrow> nat \<Rightarrow> nat \<Rightarrow> bool \<Rightarrow> u8 list \<Rightarrow> ('b, int) build" where
  "scalar_add R ID S A is_default v =
     (if is_default then build_return 0 else scalar_force_add R ID S A v)"

text \<open>\<open>_add\<close>, \<open>_add_type\<close> and \<open>_add_value\<close> of a union field; a union reference is a type and a
  reference.\<close>

type_synonym union_ref = "nat \<times> nat"

definition union_add :: "'b builder_runtime \<Rightarrow> nat \<Rightarrow> union_ref \<Rightarrow> ('b, int) build" where
  "union_add R ID uref =
     (case uref of (ty, v) \<Rightarrow>
        if ty = 0 then build_return 0
        else if v = 0 then build_return (- 1)
        else build_then (build_call (rt_table_add R (ID - 1) 1 1)) (\<lambda>pt.
          case pt of
            None \<Rightarrow> build_return (- 1)
          | Some pt \<Rightarrow> build_then (build_call (rt_table_add_offset R ID)) (\<lambda>p.
              case p of
                None \<Rightarrow> build_return (- 1)
              | Some p \<Rightarrow>
                  build_then (build_store (rt_store R pt [of_nat ty])) (\<lambda>_.
                  build_then (build_do (rt_store_ref R p v)) (\<lambda>_. build_return 0)))))"

definition union_add_type :: "'b builder_runtime \<Rightarrow> nat \<Rightarrow> nat \<Rightarrow> ('b, int) build" where
  "union_add_type R ID ty =
     (if ty = 0 then build_return 0 else scalar_force_add R (ID - 1) 1 1 [of_nat ty])"

definition union_add_value :: "'b builder_runtime \<Rightarrow> nat \<Rightarrow> union_ref \<Rightarrow> ('b, int) build" where
  "union_add_value R ID uref =
     (case uref of (ty, v) \<Rightarrow>
        if ty = 0 then build_return 0
        else build_then (build_call (rt_table_add_offset R ID)) (\<lambda>p.
          case p of
            None \<Rightarrow> build_return (- 1)
          | Some p \<Rightarrow> build_then (build_do (rt_store_ref R p v)) (\<lambda>_. build_return 0)))"

text \<open>Vectors: of bytes, and of references.\<close>

definition uint8_vec_create :: "'b builder_runtime \<Rightarrow> u8 list \<Rightarrow> ('b, nat) build" where
  "uint8_vec_create R data = build_call (rt_create_vector R data 1 1)"

definition offset_vec_start :: "'b builder_runtime \<Rightarrow> ('b, int) build" where
  "offset_vec_start R = build_call (rt_start_offset_vector R)"

definition offset_vec_push :: "'b builder_runtime \<Rightarrow> nat \<Rightarrow> ('b, nat option) build" where
  "offset_vec_push R ref =
     (if ref = 0 then build_return None else build_call (rt_offset_vector_push R ref))"

definition offset_vec_end :: "'b builder_runtime \<Rightarrow> ('b, nat) build" where
  "offset_vec_end R = build_call (rt_end_offset_vector R)"

section \<open>The generated functions\<close>

text \<open>\<open>r_check_contract_builder.h\<close>\<close>

definition Response_User_required :: "nat list" where
  "Response_User_required = [0, 1, 2]"

definition Response_User_start :: "'b builder_runtime \<Rightarrow> ('b, int) build" where
  "Response_User_start R = table_start R 3"

definition Response_User_end :: "'b builder_runtime \<Rightarrow> ('b, nat) build" where
  "Response_User_end R = table_end R Response_User_required"

definition Response_User_username_add :: "'b builder_runtime \<Rightarrow> nat \<Rightarrow> ('b, int) build" where
  "Response_User_username_add R v = offset_add R 0 v"

definition Response_User_firstName_add :: "'b builder_runtime \<Rightarrow> nat \<Rightarrow> ('b, int) build" where
  "Response_User_firstName_add R v = offset_add R 1 v"

definition Response_User_lastName_add :: "'b builder_runtime \<Rightarrow> nat \<Rightarrow> ('b, int) build" where
  "Response_User_lastName_add R v = offset_add R 2 v"

definition Response_User_create :: "'b builder_runtime \<Rightarrow> nat \<Rightarrow> nat \<Rightarrow> nat \<Rightarrow> ('b, nat) build" where
  "Response_User_create R v0 v1 v2 = 
     table_create
       [Response_User_start R,
        Response_User_username_add R v0,
        Response_User_firstName_add R v1,
        Response_User_lastName_add R v2]
       (Response_User_end R)"

definition Response_User_start_as_root :: "'b builder_runtime \<Rightarrow> ('b, int) build" where
  "Response_User_start_as_root R = start_as_root R Response_User_identifier (Response_User_start R)"

definition Response_User_start_as_typed_root :: "'b builder_runtime \<Rightarrow> ('b, int) build" where
  "Response_User_start_as_typed_root R = start_as_root R (Some Response_User_type_identifier) (Response_User_start R)"

definition Response_User_end_as_root :: "'b builder_runtime \<Rightarrow> ('b, nat) build" where
  "Response_User_end_as_root R = end_as_root R (Response_User_end R)"

definition Response_User_create_as_root :: "'b builder_runtime \<Rightarrow> nat \<Rightarrow> nat \<Rightarrow> nat \<Rightarrow> ('b, nat) build" where
  "Response_User_create_as_root R v0 v1 v2 = create_as_root R Response_User_identifier (Response_User_create R v0 v1 v2)"

definition Response_CheckContract_required :: "nat list" where
  "Response_CheckContract_required = [1, 7]"

definition Response_CheckContract_start :: "'b builder_runtime \<Rightarrow> ('b, int) build" where
  "Response_CheckContract_start R = table_start R 8"

definition Response_CheckContract_end :: "'b builder_runtime \<Rightarrow> ('b, nat) build" where
  "Response_CheckContract_end R = table_end R Response_CheckContract_required"

definition Response_CheckContract_id_add :: "'b builder_runtime \<Rightarrow> u64 \<Rightarrow> ('b, int) build" where
  "Response_CheckContract_id_add R v = scalar_add R 0 8 8 (v = - 1) (int64_bytes v)"

definition Response_CheckContract_name_add :: "'b builder_runtime \<Rightarrow> nat \<Rightarrow> ('b, int) build" where
  "Response_CheckContract_name_add R v = offset_add R 1 v"

definition Response_CheckContract_description_add :: "'b builder_runtime \<Rightarrow> nat \<Rightarrow> ('b, int) build" where
  "Response_CheckContract_description_add R v = offset_add R 2 v"

definition Response_CheckContract_price_add :: "'b builder_runtime \<Rightarrow> double \<Rightarrow> ('b, int) build" where
  "Response_CheckContract_price_add R v = scalar_add R 3 8 8 (double_eq v minus_one) (double_bytes v)"

definition Response_CheckContract_attachment_add :: "'b builder_runtime \<Rightarrow> nat \<Rightarrow> ('b, int) build" where
  "Response_CheckContract_attachment_add R v = offset_add R 4 v"

definition Response_CheckContract_status_add :: "'b builder_runtime \<Rightarrow> u8 \<Rightarrow> ('b, int) build" where
  "Response_CheckContract_status_add R v = scalar_add R 5 1 1 (v = status_Processing) (uint8_bytes v)"

definition Response_CheckContract_created_at_add :: "'b builder_runtime \<Rightarrow> u64 \<Rightarrow> ('b, int) build" where
  "Response_CheckContract_created_at_add R v = scalar_add R 6 8 8 (v = 0) (int64_bytes v)"

definition Response_CheckContract_by_user_add :: "'b builder_runtime \<Rightarrow> nat \<Rightarrow> ('b, int) build" where
  "Response_CheckContract_by_user_add R v = offset_add R 7 v"

definition Response_CheckContract_create :: "'b builder_runtime \<Rightarrow> u64 \<Rightarrow> nat \<Rightarrow> nat \<Rightarrow> double \<Rightarrow> nat \<Rightarrow> u8 \<Rightarrow> u64 \<Rightarrow> nat \<Rightarrow> ('b, nat) build" where
  "Response_CheckContract_create R v0 v1 v2 v3 v4 v5 v6 v7 = 
     table_create
       [Response_CheckContract_start R,
        Response_CheckContract_id_add R v0,
        Response_CheckContract_price_add R v3,
        Response_CheckContract_created_at_add R v6,
        Response_CheckContract_name_add R v1,
        Response_CheckContract_description_add R v2,
        Response_CheckContract_attachment_add R v4,
        Response_CheckContract_by_user_add R v7,
        Response_CheckContract_status_add R v5]
       (Response_CheckContract_end R)"

definition Response_CheckContract_start_as_root :: "'b builder_runtime \<Rightarrow> ('b, int) build" where
  "Response_CheckContract_start_as_root R = start_as_root R Response_CheckContract_identifier (Response_CheckContract_start R)"

definition Response_CheckContract_start_as_typed_root :: "'b builder_runtime \<Rightarrow> ('b, int) build" where
  "Response_CheckContract_start_as_typed_root R = start_as_root R (Some Response_CheckContract_type_identifier) (Response_CheckContract_start R)"

definition Response_CheckContract_end_as_root :: "'b builder_runtime \<Rightarrow> ('b, nat) build" where
  "Response_CheckContract_end_as_root R = end_as_root R (Response_CheckContract_end R)"

definition Response_CheckContract_create_as_root :: "'b builder_runtime \<Rightarrow> u64 \<Rightarrow> nat \<Rightarrow> nat \<Rightarrow> double \<Rightarrow> nat \<Rightarrow> u8 \<Rightarrow> u64 \<Rightarrow> nat \<Rightarrow> ('b, nat) build" where
  "Response_CheckContract_create_as_root R v0 v1 v2 v3 v4 v5 v6 v7 = create_as_root R Response_CheckContract_identifier (Response_CheckContract_create R v0 v1 v2 v3 v4 v5 v6 v7)"

text \<open>\<open>r_login_builder.h\<close>\<close>

definition Response_Login_required :: "nat list" where
  "Response_Login_required = [0]"

definition Response_Login_start :: "'b builder_runtime \<Rightarrow> ('b, int) build" where
  "Response_Login_start R = table_start R 1"

definition Response_Login_end :: "'b builder_runtime \<Rightarrow> ('b, nat) build" where
  "Response_Login_end R = table_end R Response_Login_required"

definition Response_Login_token_add :: "'b builder_runtime \<Rightarrow> nat \<Rightarrow> ('b, int) build" where
  "Response_Login_token_add R v = offset_add R 0 v"

definition Response_Login_create :: "'b builder_runtime \<Rightarrow> nat \<Rightarrow> ('b, nat) build" where
  "Response_Login_create R v0 = 
     table_create
       [Response_Login_start R,
        Response_Login_token_add R v0]
       (Response_Login_end R)"

definition Response_Login_start_as_root :: "'b builder_runtime \<Rightarrow> ('b, int) build" where
  "Response_Login_start_as_root R = start_as_root R Response_Login_identifier (Response_Login_start R)"

definition Response_Login_start_as_typed_root :: "'b builder_runtime \<Rightarrow> ('b, int) build" where
  "Response_Login_start_as_typed_root R = start_as_root R (Some Response_Login_type_identifier) (Response_Login_start R)"

definition Response_Login_end_as_root :: "'b builder_runtime \<Rightarrow> ('b, nat) build" where
  "Response_Login_end_as_root R = end_as_root R (Response_Login_end R)"

definition Response_Login_create_as_root :: "'b builder_runtime \<Rightarrow> nat \<Rightarrow> ('b, nat) build" where
  "Response_Login_create_as_root R v0 = create_as_root R Response_Login_identifier (Response_Login_create R v0)"

text \<open>\<open>r_register_builder.h\<close>\<close>

definition Response_Register_required :: "nat list" where
  "Response_Register_required = [0]"

definition Response_Register_start :: "'b builder_runtime \<Rightarrow> ('b, int) build" where
  "Response_Register_start R = table_start R 1"

definition Response_Register_end :: "'b builder_runtime \<Rightarrow> ('b, nat) build" where
  "Response_Register_end R = table_end R Response_Register_required"

definition Response_Register_token_add :: "'b builder_runtime \<Rightarrow> nat \<Rightarrow> ('b, int) build" where
  "Response_Register_token_add R v = offset_add R 0 v"

definition Response_Register_create :: "'b builder_runtime \<Rightarrow> nat \<Rightarrow> ('b, nat) build" where
  "Response_Register_create R v0 = 
     table_create
       [Response_Register_start R,
        Response_Register_token_add R v0]
       (Response_Register_end R)"

definition Response_Register_start_as_root :: "'b builder_runtime \<Rightarrow> ('b, int) build" where
  "Response_Register_start_as_root R = start_as_root R Response_Register_identifier (Response_Register_start R)"

definition Response_Register_start_as_typed_root :: "'b builder_runtime \<Rightarrow> ('b, int) build" where
  "Response_Register_start_as_typed_root R = start_as_root R (Some Response_Register_type_identifier) (Response_Register_start R)"

definition Response_Register_end_as_root :: "'b builder_runtime \<Rightarrow> ('b, nat) build" where
  "Response_Register_end_as_root R = end_as_root R (Response_Register_end R)"

definition Response_Register_create_as_root :: "'b builder_runtime \<Rightarrow> nat \<Rightarrow> ('b, nat) build" where
  "Response_Register_create_as_root R v0 = create_as_root R Response_Register_identifier (Response_Register_create R v0)"

text \<open>\<open>r_get_me_builder.h\<close>\<close>

definition Response_GetMe_required :: "nat list" where
  "Response_GetMe_required = [0, 1, 2, 3]"

definition Response_GetMe_start :: "'b builder_runtime \<Rightarrow> ('b, int) build" where
  "Response_GetMe_start R = table_start R 5"

definition Response_GetMe_end :: "'b builder_runtime \<Rightarrow> ('b, nat) build" where
  "Response_GetMe_end R = table_end R Response_GetMe_required"

definition Response_GetMe_username_add :: "'b builder_runtime \<Rightarrow> nat \<Rightarrow> ('b, int) build" where
  "Response_GetMe_username_add R v = offset_add R 0 v"

definition Response_GetMe_password_add :: "'b builder_runtime \<Rightarrow> nat \<Rightarrow> ('b, int) build" where
  "Response_GetMe_password_add R v = offset_add R 1 v"

definition Response_GetMe_firstName_add :: "'b builder_runtime \<Rightarrow> nat \<Rightarrow> ('b, int) build" where
  "Response_GetMe_firstName_add R v = offset_add R 2 v"

definition Response_GetMe_lastName_add :: "'b builder_runtime \<Rightarrow> nat \<Rightarrow> ('b, int) build" where
  "Response_GetMe_lastName_add R v = offset_add R 3 v"

definition Response_GetMe_admin_add :: "'b builder_runtime \<Rightarrow> bool \<Rightarrow> ('b, int) build" where
  "Response_GetMe_admin_add R v = scalar_add R 4 1 1 (\<not> v) (bool_bytes v)"

definition Response_GetMe_create :: "'b builder_runtime \<Rightarrow> nat \<Rightarrow> nat \<Rightarrow> nat \<Rightarrow> nat \<Rightarrow> bool \<Rightarrow> ('b, nat) build" where
  "Response_GetMe_create R v0 v1 v2 v3 v4 = 
     table_create
       [Response_GetMe_start R,
        Response_GetMe_username_add R v0,
        Response_GetMe_password_add R v1,
        Response_GetMe_firstName_add R v2,
        Response_GetMe_lastName_add R v3,
        Response_GetMe_admin_add R v4]
       (Response_GetMe_end R)"

definition Response_GetMe_start_as_root :: "'b builder_runtime \<Rightarrow> ('b, int) build" where
  "Response_GetMe_start_as_root R = start_as_root R Response_GetMe_identifier (Response_GetMe_start R)"

definition Response_GetMe_start_as_typed_root :: "'b builder_runtime \<Rightarrow> ('b, int) build" where
  "Response_GetMe_start_as_typed_root R = start_as_root R (Some Response_GetMe_type_identifier) (Response_GetMe_start R)"

definition Response_GetMe_end_as_root :: "'b builder_runtime \<Rightarrow> ('b, nat) build" where
  "Response_GetMe_end_as_root R = end_as_root R (Response_GetMe_end R)"

definition Response_GetMe_create_as_root :: "'b builder_runtime \<Rightarrow> nat \<Rightarrow> nat \<Rightarrow> nat \<Rightarrow> nat \<Rightarrow> bool \<Rightarrow> ('b, nat) build" where
  "Response_GetMe_create_as_root R v0 v1 v2 v3 v4 = create_as_root R Response_GetMe_identifier (Response_GetMe_create R v0 v1 v2 v3 v4)"

text \<open>\<open>r_edit_me_builder.h\<close>\<close>

definition Response_EditMe_required :: "nat list" where
  "Response_EditMe_required = [0]"

definition Response_EditMe_start :: "'b builder_runtime \<Rightarrow> ('b, int) build" where
  "Response_EditMe_start R = table_start R 1"

definition Response_EditMe_end :: "'b builder_runtime \<Rightarrow> ('b, nat) build" where
  "Response_EditMe_end R = table_end R Response_EditMe_required"

definition Response_EditMe_token_add :: "'b builder_runtime \<Rightarrow> nat \<Rightarrow> ('b, int) build" where
  "Response_EditMe_token_add R v = offset_add R 0 v"

definition Response_EditMe_create :: "'b builder_runtime \<Rightarrow> nat \<Rightarrow> ('b, nat) build" where
  "Response_EditMe_create R v0 = 
     table_create
       [Response_EditMe_start R,
        Response_EditMe_token_add R v0]
       (Response_EditMe_end R)"

definition Response_EditMe_start_as_root :: "'b builder_runtime \<Rightarrow> ('b, int) build" where
  "Response_EditMe_start_as_root R = start_as_root R Response_EditMe_identifier (Response_EditMe_start R)"

definition Response_EditMe_start_as_typed_root :: "'b builder_runtime \<Rightarrow> ('b, int) build" where
  "Response_EditMe_start_as_typed_root R = start_as_root R (Some Response_EditMe_type_identifier) (Response_EditMe_start R)"

definition Response_EditMe_end_as_root :: "'b builder_runtime \<Rightarrow> ('b, nat) build" where
  "Response_EditMe_end_as_root R = end_as_root R (Response_EditMe_end R)"

definition Response_EditMe_create_as_root :: "'b builder_runtime \<Rightarrow> nat \<Rightarrow> ('b, nat) build" where
  "Response_EditMe_create_as_root R v0 = create_as_root R Response_EditMe_identifier (Response_EditMe_create R v0)"

text \<open>\<open>r_request_contract_builder.h\<close>\<close>

definition Response_RequestContract_required :: "nat list" where
  "Response_RequestContract_required = [0]"

definition Response_RequestContract_start :: "'b builder_runtime \<Rightarrow> ('b, int) build" where
  "Response_RequestContract_start R = table_start R 1"

definition Response_RequestContract_end :: "'b builder_runtime \<Rightarrow> ('b, nat) build" where
  "Response_RequestContract_end R = table_end R Response_RequestContract_required"

definition Response_RequestContract_result_add :: "'b builder_runtime \<Rightarrow> nat \<Rightarrow> ('b, int) build" where
  "Response_RequestContract_result_add R v = offset_add R 0 v"

definition Response_RequestContract_create :: "'b builder_runtime \<Rightarrow> nat \<Rightarrow> ('b, nat) build" where
  "Response_RequestContract_create R v0 = 
     table_create
       [Response_RequestContract_start R,
        Response_RequestContract_result_add R v0]
       (Response_RequestContract_end R)"

definition Response_RequestContract_start_as_root :: "'b builder_runtime \<Rightarrow> ('b, int) build" where
  "Response_RequestContract_start_as_root R = start_as_root R Response_RequestContract_identifier (Response_RequestContract_start R)"

definition Response_RequestContract_start_as_typed_root :: "'b builder_runtime \<Rightarrow> ('b, int) build" where
  "Response_RequestContract_start_as_typed_root R = start_as_root R (Some Response_RequestContract_type_identifier) (Response_RequestContract_start R)"

definition Response_RequestContract_end_as_root :: "'b builder_runtime \<Rightarrow> ('b, nat) build" where
  "Response_RequestContract_end_as_root R = end_as_root R (Response_RequestContract_end R)"

definition Response_RequestContract_create_as_root :: "'b builder_runtime \<Rightarrow> nat \<Rightarrow> ('b, nat) build" where
  "Response_RequestContract_create_as_root R v0 = create_as_root R Response_RequestContract_identifier (Response_RequestContract_create R v0)"

text \<open>\<open>r_list_contracts_builder.h\<close>\<close>

definition Response_ListContracts_required :: "nat list" where
  "Response_ListContracts_required = [0]"

definition Response_ListContracts_start :: "'b builder_runtime \<Rightarrow> ('b, int) build" where
  "Response_ListContracts_start R = table_start R 1"

definition Response_ListContracts_end :: "'b builder_runtime \<Rightarrow> ('b, nat) build" where
  "Response_ListContracts_end R = table_end R Response_ListContracts_required"

definition Response_ListContracts_contracts_add :: "'b builder_runtime \<Rightarrow> nat \<Rightarrow> ('b, int) build" where
  "Response_ListContracts_contracts_add R v = offset_add R 0 v"

definition Response_ListContracts_create :: "'b builder_runtime \<Rightarrow> nat \<Rightarrow> ('b, nat) build" where
  "Response_ListContracts_create R v0 = 
     table_create
       [Response_ListContracts_start R,
        Response_ListContracts_contracts_add R v0]
       (Response_ListContracts_end R)"

definition Response_ListContracts_start_as_root :: "'b builder_runtime \<Rightarrow> ('b, int) build" where
  "Response_ListContracts_start_as_root R = start_as_root R Response_ListContracts_identifier (Response_ListContracts_start R)"

definition Response_ListContracts_start_as_typed_root :: "'b builder_runtime \<Rightarrow> ('b, int) build" where
  "Response_ListContracts_start_as_typed_root R = start_as_root R (Some Response_ListContracts_type_identifier) (Response_ListContracts_start R)"

definition Response_ListContracts_end_as_root :: "'b builder_runtime \<Rightarrow> ('b, nat) build" where
  "Response_ListContracts_end_as_root R = end_as_root R (Response_ListContracts_end R)"

definition Response_ListContracts_create_as_root :: "'b builder_runtime \<Rightarrow> nat \<Rightarrow> ('b, nat) build" where
  "Response_ListContracts_create_as_root R v0 = create_as_root R Response_ListContracts_identifier (Response_ListContracts_create R v0)"

text \<open>\<open>response_api_builder.h\<close>\<close>

definition Response_Message_required :: "nat list" where
  "Response_Message_required = []"

definition Response_Message_start :: "'b builder_runtime \<Rightarrow> ('b, int) build" where
  "Response_Message_start R = table_start R 4"

definition Response_Message_end :: "'b builder_runtime \<Rightarrow> ('b, nat) build" where
  "Response_Message_end R = table_end R Response_Message_required"

definition Response_MessageType_as_Login :: "nat \<Rightarrow> union_ref" where
  "Response_MessageType_as_Login ref = (1, ref)"

definition Response_MessageType_as_Register :: "nat \<Rightarrow> union_ref" where
  "Response_MessageType_as_Register ref = (2, ref)"

definition Response_MessageType_as_GetMe :: "nat \<Rightarrow> union_ref" where
  "Response_MessageType_as_GetMe ref = (3, ref)"

definition Response_MessageType_as_EditMe :: "nat \<Rightarrow> union_ref" where
  "Response_MessageType_as_EditMe ref = (4, ref)"

definition Response_MessageType_as_RequestContract :: "nat \<Rightarrow> union_ref" where
  "Response_MessageType_as_RequestContract ref = (5, ref)"

definition Response_MessageType_as_ListContracts :: "nat \<Rightarrow> union_ref" where
  "Response_MessageType_as_ListContracts ref = (6, ref)"

definition Response_MessageType_as_CheckContract :: "nat \<Rightarrow> union_ref" where
  "Response_MessageType_as_CheckContract ref = (7, ref)"

definition Response_MessageType_as_NONE :: "union_ref" where
  "Response_MessageType_as_NONE = (0, 0)"

definition Response_Message_msg_add :: "'b builder_runtime \<Rightarrow> union_ref \<Rightarrow> ('b, int) build" where
  "Response_Message_msg_add R v = union_add R 1 v"

definition Response_Message_msg_add_type :: "'b builder_runtime \<Rightarrow> nat \<Rightarrow> ('b, int) build" where
  "Response_Message_msg_add_type R v = union_add_type R 1 v"

definition Response_Message_msg_add_value :: "'b builder_runtime \<Rightarrow> union_ref \<Rightarrow> ('b, int) build" where
  "Response_Message_msg_add_value R v = union_add_value R 1 v"

definition Response_Message_error_add :: "'b builder_runtime \<Rightarrow> bool \<Rightarrow> ('b, int) build" where
  "Response_Message_error_add R v = scalar_add R 2 1 1 (\<not> v) (bool_bytes v)"

definition Response_Message_errorDescription_add :: "'b builder_runtime \<Rightarrow> nat \<Rightarrow> ('b, int) build" where
  "Response_Message_errorDescription_add R v = offset_add R 3 v"

definition Response_Message_errorDescription_create_str :: "'b builder_runtime \<Rightarrow> string \<Rightarrow> ('b, int) build" where
  "Response_Message_errorDescription_create_str R s = build_then (string_create_str R s) (Response_Message_errorDescription_add R)"

definition Response_Message_create :: "'b builder_runtime \<Rightarrow> union_ref \<Rightarrow> bool \<Rightarrow> nat \<Rightarrow> ('b, nat) build" where
  "Response_Message_create R v1 v2 v3 = 
     table_create
       [Response_Message_start R,
        Response_Message_msg_add_value R v1,
        Response_Message_errorDescription_add R v3,
        Response_Message_error_add R v2,
        Response_Message_msg_add_type R (fst v1)]
       (Response_Message_end R)"

definition Response_Message_start_as_root :: "'b builder_runtime \<Rightarrow> ('b, int) build" where
  "Response_Message_start_as_root R = start_as_root R Response_Message_identifier (Response_Message_start R)"

definition Response_Message_start_as_typed_root :: "'b builder_runtime \<Rightarrow> ('b, int) build" where
  "Response_Message_start_as_typed_root R = start_as_root R (Some Response_Message_type_identifier) (Response_Message_start R)"

definition Response_Message_end_as_root :: "'b builder_runtime \<Rightarrow> ('b, nat) build" where
  "Response_Message_end_as_root R = end_as_root R (Response_Message_end R)"

definition Response_Message_create_as_root :: "'b builder_runtime \<Rightarrow> union_ref \<Rightarrow> bool \<Rightarrow> nat \<Rightarrow> ('b, nat) build" where
  "Response_Message_create_as_root R v1 v2 v3 = create_as_root R Response_Message_identifier (Response_Message_create R v1 v2 v3)"

text \<open>The vector operations of \<open>CheckContract\<close>.\<close>

definition Response_CheckContract_vec_start :: "'b builder_runtime \<Rightarrow> ('b, int) build" where
  "Response_CheckContract_vec_start R = offset_vec_start R"

definition Response_CheckContract_vec_push :: "'b builder_runtime \<Rightarrow> nat \<Rightarrow> ('b, nat option) build" where
  "Response_CheckContract_vec_push R ref = offset_vec_push R ref"

definition Response_CheckContract_vec_end :: "'b builder_runtime \<Rightarrow> ('b, nat) build" where
  "Response_CheckContract_vec_end R = offset_vec_end R"

section \<open>The calls of the handlers\<close>

text \<open>\<open>X_add (b, create_str (b, s))\<close>, the result of the field function ignored.\<close>

definition add_string :: "'b builder_runtime \<Rightarrow> (nat \<Rightarrow> ('b, int) build) \<Rightarrow> string \<Rightarrow> ('b, int) build" where
  "add_string R add s = build_then (string_create_str R s) add"

abbreviation and_next :: "('b, 'r) build \<Rightarrow> ('b, 's) build \<Rightarrow> ('b, 's) build" where
  "and_next m m' \<equiv> build_then m (\<lambda>_. m')"

text \<open>The error branches of every handler.\<close>

definition build_error :: "'b builder_runtime \<Rightarrow> string \<Rightarrow> ('b, nat) build" where
  "build_error R d =
     and_next (Response_Message_start_as_root R)
    (and_next (Response_Message_error_add R True)
    (and_next (Response_Message_errorDescription_create_str R d)
              (Response_Message_end_as_root R)))"

text \<open>The success branch: \<open>body\<close> builds the value of the union. \<open>list_contracts\<close> and
  \<open>check_contract\<close> do not add the error flag, whose default is false.\<close>

definition build_value :: "'b builder_runtime \<Rightarrow> ('b, union_ref) build \<Rightarrow> ('b, nat) build" where
  "build_value R body =
     build_then body (\<lambda>msg_u.
     and_next (Response_Message_msg_add R msg_u)
              (Response_Message_end_as_root R))"

definition build_ok :: "'b builder_runtime \<Rightarrow> ('b, union_ref) build \<Rightarrow> ('b, nat) build" where
  "build_ok R body =
     and_next (Response_Message_start_as_root R)
    (and_next (Response_Message_error_add R False) (build_value R body))"

definition build_ok_unflagged :: "'b builder_runtime \<Rightarrow> ('b, union_ref) build \<Rightarrow> ('b, nat) build" where
  "build_ok_unflagged R body =
     and_next (Response_Message_start_as_root R) (build_value R body)"

definition build_login :: "'b builder_runtime \<Rightarrow> string \<Rightarrow> ('b, union_ref) build" where
  "build_login R token =
     build_then (build_then (string_create_str R token) (Response_Login_create R)) (\<lambda>msg_r.
     build_return (Response_MessageType_as_Login msg_r))"

definition build_register :: "'b builder_runtime \<Rightarrow> string \<Rightarrow> ('b, union_ref) build" where
  "build_register R token =
     build_then (build_then (string_create_str R token) (Response_Register_create R)) (\<lambda>msg_r.
     build_return (Response_MessageType_as_Register msg_r))"

definition build_edit_me :: "'b builder_runtime \<Rightarrow> string \<Rightarrow> ('b, union_ref) build" where
  "build_edit_me R token =
     build_then (build_then (string_create_str R token) (Response_EditMe_create R)) (\<lambda>msg_r.
     build_return (Response_MessageType_as_EditMe msg_r))"

text \<open>The arguments of the call in C have no fixed order; here it is from left to right.\<close>

definition build_get_me :: "'b builder_runtime \<Rightarrow> me_info \<Rightarrow> ('b, union_ref) build" where
  "build_get_me R m =
     build_then (string_create_str R (mi_username m)) (\<lambda>u.
     build_then (string_create_str R (mi_password m)) (\<lambda>p.
     build_then (string_create_str R (mi_firstName m)) (\<lambda>f.
     build_then (string_create_str R (mi_lastName m)) (\<lambda>l.
     build_then (Response_GetMe_create R u p f l (mi_admin m)) (\<lambda>msg_r.
     build_return (Response_MessageType_as_GetMe msg_r))))))"

definition build_user :: "'b builder_runtime \<Rightarrow> user_info \<Rightarrow> ('b, nat) build" where
  "build_user R u =
     and_next (Response_User_start R)
    (and_next (add_string R (Response_User_username_add R) (ui_username u))
    (and_next (add_string R (Response_User_firstName_add R) (ui_firstName u))
    (and_next (add_string R (Response_User_lastName_add R) (ui_lastName u))
              (Response_User_end R))))"

definition build_description :: "'b builder_runtime \<Rightarrow> string option \<Rightarrow> ('b, int) build" where
  "build_description R d =
     (case d of None \<Rightarrow> build_return 0
      | Some s \<Rightarrow> add_string R (Response_CheckContract_description_add R) s)"

definition build_attachment :: "'b builder_runtime \<Rightarrow> u8 list option \<Rightarrow> ('b, int) build" where
  "build_attachment R a =
     (case a of None \<Rightarrow> build_return 0
      | Some v \<Rightarrow> build_then (uint8_vec_create R v) (Response_CheckContract_attachment_add R))"

text \<open>One row, as \<open>check_contract\<close> and the loop of \<open>list_contracts\<close> build it.\<close>

definition build_row :: "'b builder_runtime \<Rightarrow> contract_info \<Rightarrow> ('b, nat) build" where
  "build_row R c =
     and_next (Response_CheckContract_start R)
    (and_next (add_string R (Response_CheckContract_name_add R) (ci_name c))
    (and_next (build_description R (ci_description c))
    (and_next (Response_CheckContract_price_add R (ci_price c))
    (and_next (build_attachment R (ci_attachment c))
    (and_next (Response_CheckContract_status_add R (ci_status c))
    (and_next (Response_CheckContract_created_at_add R (ci_created_at c))
    (and_next (Response_CheckContract_id_add R (ci_id c))
    (build_then (build_user R (ci_by_user c)) (\<lambda>user.
     and_next (Response_CheckContract_by_user_add R user)
              (Response_CheckContract_end R))))))))))"

text \<open>The order of \<open>request_contract\<close>.\<close>

definition build_requested :: "'b builder_runtime \<Rightarrow> contract_info \<Rightarrow> ('b, nat) build" where
  "build_requested R c =
     and_next (Response_CheckContract_start R)
    (and_next (Response_CheckContract_id_add R (ci_id c))
    (and_next (add_string R (Response_CheckContract_name_add R) (ci_name c))
    (and_next (build_description R (ci_description c))
    (and_next (Response_CheckContract_price_add R (ci_price c))
    (and_next (build_attachment R (ci_attachment c))
    (and_next (Response_CheckContract_status_add R (ci_status c))
    (and_next (Response_CheckContract_created_at_add R (ci_created_at c))
    (build_then (build_user R (ci_by_user c)) (\<lambda>user.
     and_next (Response_CheckContract_by_user_add R user)
              (Response_CheckContract_end R))))))))))"

definition build_check_contract :: "'b builder_runtime \<Rightarrow> contract_info \<Rightarrow> ('b, union_ref) build" where
  "build_check_contract R c =
     build_then (build_row R c) (\<lambda>msg_r. build_return (Response_MessageType_as_CheckContract msg_r))"

definition build_request_contract :: "'b builder_runtime \<Rightarrow> contract_info \<Rightarrow> ('b, union_ref) build" where
  "build_request_contract R c =
     build_then (build_then (build_requested R c) (Response_RequestContract_create R)) (\<lambda>msg_r.
     build_return (Response_MessageType_as_RequestContract msg_r))"

fun build_rows :: "'b builder_runtime \<Rightarrow> contract_info list \<Rightarrow> ('b, unit) build" where
  "build_rows R [] = build_return ()"
| "build_rows R (c # cs) =
     build_then (build_row R c) (\<lambda>element.
     and_next (Response_CheckContract_vec_push R element) (build_rows R cs))"

definition build_list_contracts :: "'b builder_runtime \<Rightarrow> contract_info list \<Rightarrow> ('b, union_ref) build" where
  "build_list_contracts R cs =
     and_next (Response_CheckContract_vec_start R)
    (and_next (build_rows R cs)
    (build_then (Response_CheckContract_vec_end R) (\<lambda>array.
     build_then (Response_ListContracts_create R array) (\<lambda>msg_r.
     build_return (Response_MessageType_as_ListContracts msg_r)))))"

fun build_message :: "'b builder_runtime \<Rightarrow> response_body \<Rightarrow> ('b, nat) build" where
  "build_message R (Res_Login t) = build_ok R (build_login R t)"
| "build_message R (Res_Register t) = build_ok R (build_register R t)"
| "build_message R (Res_GetMe m) = build_ok R (build_get_me R m)"
| "build_message R (Res_EditMe t) = build_ok R (build_edit_me R t)"
| "build_message R (Res_RequestContract c) = build_ok R (build_request_contract R c)"
| "build_message R (Res_ListContracts cs) = build_ok_unflagged R (build_list_contracts R cs)"
| "build_message R (Res_CheckContract c) = build_ok_unflagged R (build_check_contract R c)"

text \<open>What the handler of a request does for its answer: an error has a description and no
  value.\<close>

definition build_response :: "'b builder_runtime \<Rightarrow> response \<Rightarrow> ('b, nat) build" where
  "build_response R a =
     (case r_msg a of
        None \<Rightarrow> build_error R (case r_errorDescription a of Some d \<Rightarrow> d | None \<Rightarrow> [])
      | Some m \<Rightarrow> build_message R m)"

text \<open>\<open>flatcc_builder_init\<close>, the calls, \<open>flatcc_builder_finalize_aligned_buffer\<close>.\<close>

definition finished :: "'b builder_runtime \<Rightarrow> response \<Rightarrow> u8 list option outcome" where
  "finished R a =
     and_then (build_response R a (rt_init R)) (\<lambda>(b, _). Inr (rt_finalize_aligned_buffer R b))"

end
