(* ===== verification/Fb_Scalars.thy ===== *)
theory Fb_Scalars
  imports Fb_Builder Fb_Safe
begin

text \<open>
  Scalars on the wire: what the readers make of the bytes that the builders store. A double comes back as
  its canonical form, which is equal to it.
\<close>

section \<open>Little-endian numbers\<close>

lemma length_le_bytes [simp]: "length (le_bytes n v) = n"
  by (simp add: le_bytes_def)

lemma le_bytes_Suc: "le_bytes (Suc n) v = of_nat v # le_bytes n (v div 256)"
  unfolding le_bytes_def upt_conv_Cons [OF zero_less_Suc] map_Suc_upt [symmetric]
  by (simp add: div_mult2_eq)

lemma le_value_le_bytes: "le_value (le_bytes n v) = v mod 256 ^ n"
proof (induction n arbitrary: v)
  case 0
  show ?case by (simp add: le_bytes_def)
next
  case (Suc n)
  have "v mod 256 ^ Suc n = v mod 256 + 256 * (v div 256 mod 256 ^ n)"
    by (simp add: mod_mult2_eq)
  with Suc show ?case by (simp add: le_bytes_Suc unat_of_nat)
qed

lemma length_scalar_bytes [simp]:
  "length (bool_bytes x) = 1" "length (uint8_bytes y) = 1" "length (int64_bytes z) = 8"
  "length (double_bytes d) = 8"
  by (simp_all add: bool_bytes_def uint8_bytes_def int64_bytes_def double_bytes_def)

lemma le_value_scalar [simp]:
  "le_value (bool_bytes x) = (if x then 1 else 0)" "le_value (uint8_bytes y) = unat y"
  "le_value (int64_bytes z) = unat z"
proof -
  have "unat z < 2 ^ 64" using unsigned_less [of z] by simp
  then show "le_value (int64_bytes z) = unat z" by (simp add: int64_bytes_def le_value_le_bytes)
qed (simp_all add: bool_bytes_def uint8_bytes_def)

section \<open>Doubles\<close>

lemma bit_len_bounds: "0 < n \<Longrightarrow> 2 ^ (bit_len n - 1) \<le> n \<and> n < 2 ^ bit_len n \<and> 0 < bit_len n"
proof (induction n rule: bit_len.induct)
  case (1 n)
  show ?case
  proof (cases "n div 2 = 0")
    case True
    with 1 have "n = 1" by simp
    then show ?thesis by (simp add: bit_len.simps)
  next
    case False
    with 1 have IH: "2 ^ (bit_len (n div 2) - 1) \<le> n div 2" "n div 2 < 2 ^ bit_len (n div 2)"
      "0 < bit_len (n div 2)" by simp_all
    then obtain k where k: "bit_len (n div 2) = Suc k" using gr0_implies_Suc by blast
    have "bit_len n = Suc (Suc k)" using 1(2) k by (subst bit_len.simps) simp
    with IH k show ?thesis by auto
  qed
qed

lemma bit_len_eq: "2 ^ k \<le> n \<Longrightarrow> n < 2 ^ Suc k \<Longrightarrow> bit_len n = Suc k"
proof -
  assume n: "2 ^ k \<le> n" "n < 2 ^ Suc k"
  then have "0 < n" by (metis gr0I le_zero_eq power_not_zero zero_neq_numeral)
  from bit_len_bounds [OF this] have b: "2 ^ (bit_len n - 1) \<le> n" "n < 2 ^ bit_len n" "0 < bit_len n" by simp_all
  have "(2::nat) ^ k < 2 ^ bit_len n" using n(1) b(2) by (rule le_less_trans)
  then have "k < bit_len n" by (rule power_less_imp_less_exp [rotated]) simp
  moreover have "(2::nat) ^ (bit_len n - 1) < 2 ^ Suc k" using b(1) n(2) by (rule le_less_trans)
  then have "bit_len n - 1 < Suc k" by (rule power_less_imp_less_exp [rotated]) simp
  ultimately show ?thesis by simp
qed

text \<open>A finite double is stored as the significand of 53 bits with the highest one set, or with
  the least exponent.\<close>

definition canonical :: "double \<Rightarrow> double" where
  "canonical x = double_of_bits (bits_of_double x)"

lemma double_of_parts:
  "b div 2 ^ 52 mod 2048 = E \<Longrightarrow> b mod 2 ^ 52 = f \<Longrightarrow> (2 ^ 63 \<le> b) = s \<Longrightarrow>
   double_of_bits b = (if E = 2047 then (if f = 0 then Inf s else NaN s)
     else if E = 0 then Fin s f (- 1074) else Fin s (2 ^ 52 + f) (int E - 1075))"
  by (simp add: double_of_bits_def)

lemma double_of_fields:
  assumes "f < 2 ^ 52" "E < 2048"
  shows "double_of_bits ((if s then 2 ^ 63 else 0) + E * 2 ^ 52 + f) =
    (if E = 2047 then (if f = 0 then Inf s else NaN s)
     else if E = 0 then Fin s f (- 1074) else Fin s (2 ^ 52 + f) (int E - 1075))"
    "(if s then 2 ^ 63 else 0) + E * 2 ^ 52 + f < 2 ^ 64"
proof -
  let ?b = "(if s then 2 ^ 63 else 0) + E * 2 ^ 52 + f"
  define S where "S = (if s then 2048 else 0 :: nat)"
  have b: "?b = (S + E) * 2 ^ 52 + f" by (simp add: S_def)
  have "(A * P + f) div P = A" "(A * P + f) mod P = f" if "f < P" for A P :: nat
    using that by simp_all
  from this [OF assms(1)] have "?b div 2 ^ 52 = S + E" "?b mod 2 ^ 52 = f"
    unfolding b by blast+
  moreover have "(S + E) mod 2048 = E" using assms(2) by (simp add: S_def)
  moreover have "E * 2 ^ 52 \<le> 2047 * 2 ^ 52" using assms(2) by simp
  then have "2 ^ 63 \<le> ?b \<longleftrightarrow> s" "?b < 2 ^ 64" using assms(1) by simp_all
  ultimately show "double_of_bits ?b = (if E = 2047 then (if f = 0 then Inf s else NaN s)
     else if E = 0 then Fin s f (- 1074) else Fin s (2 ^ 52 + f) (int E - 1075))" "?b < 2 ^ 64"
    using double_of_parts [of ?b E f s] by simp_all
qed

lemma canonical_finite:
  assumes "m < 2 ^ 53" "- 1074 \<le> e" "e \<le> 971"
  shows "\<exists>m' e'. canonical (Fin s m e) = Fin s m' e' \<and> - 1074 \<le> e' \<and>
      m' * 2 ^ nat (e' + 1074) = m * 2 ^ nat (e + 1074)"
    "bits_of_double (Fin s m e) < 2 ^ 64"
proof -
  define k where "k = bit_len m"
  consider (zero) "m = 0" | (normal) "0 < m" "- 1022 \<le> e + int k - 1" | (small) "0 < m" "e + int k - 1 < - 1022"
    by linarith
  then have "(\<exists>m' e'. canonical (Fin s m e) = Fin s m' e' \<and> - 1074 \<le> e' \<and>
      m' * 2 ^ nat (e' + 1074) = m * 2 ^ nat (e + 1074)) \<and> bits_of_double (Fin s m e) < 2 ^ 64"
  proof cases
    case zero
    then have b: "bits_of_double (Fin s m e) = (if s then 2 ^ 63 else 0) + 0 * 2 ^ 52 + 0"
      by (simp add: bits_of_double_def)
    show ?thesis unfolding canonical_def b using double_of_fields [of 0 0 s] zero by simp
  next
    case normal
    from bit_len_bounds [OF normal(1)] have k: "2 ^ (k - 1) \<le> m" "m < 2 ^ k" "0 < k" by (simp_all add: k_def)
    have "(2::nat) ^ (k - 1) < 2 ^ 53" using k(1) assms(1) by (rule le_less_trans)
    then have "k - 1 < 53" by (rule power_less_imp_less_exp [rotated]) simp
    with k(3) have k53: "k \<le> 53" by simp
    define M where "M = m * 2 ^ (53 - k)"
    have "2 ^ (k - 1) * 2 ^ (53 - k) \<le> M" "M < 2 ^ k * 2 ^ (53 - k)"
      using k(1,2) unfolding M_def by simp_all
    moreover have "(2::nat) ^ (k - 1) * 2 ^ (53 - k) = 2 ^ 52" "(2::nat) ^ k * 2 ^ (53 - k) = 2 ^ 53"
      using k(3) k53 by (simp_all flip: power_add)
    ultimately have M: "2 ^ 52 \<le> M" "M < 2 ^ 53" by (simp_all only:)
    define E where "E = nat (e + int k - 1 + 1023)"
    have E: "0 < E" "E < 2047" "int E - 1075 = e + int k - 53" using normal(2) assms(3) k53 by (auto simp: E_def)
    have b: "bits_of_double (Fin s m e) = (if s then 2 ^ 63 else 0) + E * 2 ^ 52 + (M - 2 ^ 52)"
      using normal by (simp add: bits_of_double_def Let_def k_def E_def M_def)
    have f: "M - 2 ^ 52 < 2 ^ 52" using M by simp
    have "canonical (Fin s m e) = Fin s M (e + int k - 53)"
      unfolding canonical_def b using double_of_fields(1) [OF f, of E s] E M(1) by simp
    moreover have "nat (e + 1074) = (53 - k) + nat (e + int k - 53 + 1074)" using normal(2) k53 by simp
    then have "M * 2 ^ nat (e + int k - 53 + 1074) = m * 2 ^ nat (e + 1074)" by (simp add: M_def power_add)
    ultimately show ?thesis using normal(2) double_of_fields(2) [OF f, of E s] E unfolding b by simp
  next
    case small
    define f where "f = m * 2 ^ nat (e + 1074)"
    have "m < 2 ^ k" using bit_len_bounds [OF small(1)] by (simp add: k_def)
    then have "f < 2 ^ k * 2 ^ nat (e + 1074)" by (simp add: f_def)
    also have "\<dots> = 2 ^ (k + nat (e + 1074))" by (simp add: power_add)
    also have "\<dots> \<le> 2 ^ 52" using small(2) assms(2) by (intro power_increasing) simp_all
    finally have f: "f < 2 ^ 52" .
    have b: "bits_of_double (Fin s m e) = (if s then 2 ^ 63 else 0) + 0 * 2 ^ 52 + f"
      using small by (simp add: bits_of_double_def Let_def k_def f_def)
    show ?thesis unfolding canonical_def b using double_of_fields [OF f, of 0 s] by (simp add: f_def)
  qed
  then show "\<exists>m' e'. canonical (Fin s m e) = Fin s m' e' \<and> - 1074 \<le> e' \<and>
      m' * 2 ^ nat (e' + 1074) = m * 2 ^ nat (e + 1074)" "bits_of_double (Fin s m e) < 2 ^ 64" by blast+
qed

text \<open>Values over the common denominator \<open>2 ^ 1074\<close>.\<close>

lemma numer_denom:
  assumes "- int N \<le> e"
  shows "numer m e * 2 ^ N = denom e * (m * 2 ^ nat (e + int N))"
proof (cases "0 \<le> e")
  case True
  then have "nat (e + int N) = nat e + N" by simp
  with True show ?thesis by (simp add: numer_def denom_def power_add)
next
  case False
  with assms have "N = nat (- e) + nat (e + int N)" by simp
  then have "(2::nat) ^ N = 2 ^ nat (- e) * 2 ^ nat (e + int N)" by (metis power_add)
  with False show ?thesis by (simp add: numer_def denom_def)
qed

lemma double_eq_finite:
  assumes "- 1074 \<le> e" "- 1074 \<le> e'"
  shows "double_eq (Fin s m e) (Fin s' m' e') \<longleftrightarrow>
    m = 0 \<and> m' = 0 \<or> s = s' \<and> m * 2 ^ nat (e + 1074) = m' * 2 ^ nat (e' + 1074)"
proof -
  let ?X = "m * 2 ^ nat (e + 1074)" and ?Y = "m' * 2 ^ nat (e' + 1074)"
  have n: "numer m e * 2 ^ 1074 = denom e * ?X" "numer m' e' * 2 ^ 1074 = denom e' * ?Y"
    using numer_denom [of 1074 e m] numer_denom [of 1074 e' m'] assms by simp_all
  have "numer m e * denom e' = numer m' e' * denom e \<longleftrightarrow>
      numer m e * denom e' * 2 ^ 1074 = numer m' e' * denom e * 2 ^ 1074" by simp
  also have "\<dots> \<longleftrightarrow> numer m e * 2 ^ 1074 * denom e' = numer m' e' * 2 ^ 1074 * denom e"
    by (simp only: mult.assoc mult.commute mult.left_commute)
  also have "\<dots> \<longleftrightarrow> denom e * denom e' * ?X = denom e * denom e' * ?Y"
    unfolding n by (simp only: mult.assoc mult.commute mult.left_commute)
  also have "\<dots> \<longleftrightarrow> ?X = ?Y" by (simp add: denom_def)
  finally show ?thesis by (simp only: double_eq_def prod.case double.case)
qed

lemma bits_of_double_bound: "wf_double x \<Longrightarrow> bits_of_double x < 2 ^ 64"
proof (cases x)
  case (Fin s m e)
  assume "wf_double x"
  then show ?thesis using canonical_finite(2) [of m e s] by (simp add: Fin wf_double_def)
qed (simp_all add: bits_of_double_def)

lemma canonical_special: "canonical (Inf s) = Inf s" "canonical (NaN s) = NaN s"
  using double_of_fields(1) [of 0 2047 s] double_of_fields(1) [of "2 ^ 51" 2047 s]
  by (simp_all add: canonical_def bits_of_double_def)

lemma canonical_equal:
  assumes "wf_double x" "\<And>s. x \<noteq> NaN s"
  shows "double_eq (canonical x) x"
proof (cases x)
  case (Fin s m e)
  with assms have e: "m < 2 ^ 53" "- 1074 \<le> e" "e \<le> 971" by (simp_all add: wf_double_def)
  from canonical_finite(1) [OF this, of s] e show ?thesis by (auto simp: Fin double_eq_finite)
next
  case (Inf s)
  then show ?thesis by (simp add: canonical_special double_eq_def)
next
  case (NaN s)
  with assms(2) [of s] show ?thesis by simp
qed

lemma canonical_minus_one:
  assumes "wf_double x" "double_eq x minus_one"
  shows "canonical x = minus_one"
proof (cases x)
  case (Fin s m e)
  with assms(1) have w: "m < 2 ^ 53" "- 1074 \<le> e" "e \<le> 971" by (simp_all add: wf_double_def)
  define a where "a = nat (e + 1074)"
  have "double_eq (Fin s m e) (Fin True (2 ^ 52) (- 52))" using assms(2) by (simp add: Fin minus_one_eq)
  then have s: s and eq: "m * 2 ^ a = 2 ^ 52 * 2 ^ 1022"
    unfolding double_eq_finite [OF w(2), of "- 52", simplified] a_def by auto
  have eq: "m * 2 ^ a = 2 ^ 1074" using eq by (simp flip: power_add)
  have "a \<le> 1074"
  proof (rule ccontr)
    assume "\<not> a \<le> 1074"
    then have "(2::nat) ^ 1074 < 2 ^ a" by (intro power_strict_increasing) simp_all
    moreover have "0 < m" using eq by (metis gr0I mult_zero_left power_not_zero zero_neq_numeral)
    ultimately have "(2::nat) ^ 1074 < m * 2 ^ a" by (metis less_le_trans mult_le_mono1 One_nat_def Suc_leI mult_1)
    with eq show False by simp
  qed
  define j where "j = 1074 - a"
  have "m * 2 ^ a = 2 ^ j * 2 ^ a" using eq \<open>a \<le> 1074\<close> by (simp add: j_def flip: power_add)
  then have m: "m = 2 ^ j" by simp
  have e: "e = - int j" using \<open>a \<le> 1074\<close> w(2) by (simp add: j_def a_def)
  have "(2::nat) ^ j < 2 ^ 53" using w(1) m by simp
  then have j: "j < 53" by (rule power_less_imp_less_exp [rotated]) simp
  have "bit_len m = Suc j" by (rule bit_len_eq) (simp_all add: m)
  moreover have "(2::nat) ^ j * 2 ^ (52 - j) = 2 ^ 52" using j by (simp flip: power_add)
  ultimately have "bits_of_double x = 0xBFF0000000000000"
    using s by (simp add: Fin bits_of_double_def Let_def e m)
  then show ?thesis by (simp add: canonical_def minus_one_def)
qed (use assms(2) in \<open>simp_all add: minus_one_eq double_eq_def\<close>)

section \<open>Reading what was stored\<close>

lemma read_stored:
  assumes "p + length v \<le> length buf" "take (length v) (drop p buf) = v"
  shows "v = bool_bytes x \<Longrightarrow> read_bool buf (int p) = Inr x"
    "v = uint8_bytes y \<Longrightarrow> read_uint8 buf (int p) = Inr y"
    "v = int64_bytes z \<Longrightarrow> read_int64 buf (int p) = Inr z"
    "v = double_bytes d \<Longrightarrow> wf_double d \<Longrightarrow> read_double buf (int p) = Inr (canonical d)"
proof -
  have r: "read_le buf (int p) (length v) = Inr (le_value v)" using assms by simp
  show "v = bool_bytes x \<Longrightarrow> read_bool buf (int p) = Inr x"
    using r by (simp add: read_bool_def)
  show "v = uint8_bytes y \<Longrightarrow> read_uint8 buf (int p) = Inr y"
    using r by (simp add: read_uint8_def)
  show "v = int64_bytes z \<Longrightarrow> read_int64 buf (int p) = Inr z"
    using r by (simp add: read_int64_def)
  assume d: "v = double_bytes d" "wf_double d"
  from bits_of_double_bound [OF d(2)] have "le_value v = bits_of_double d"
    by (simp add: d(1) double_bytes_def le_value_le_bytes)
  with r d(1) show "read_double buf (int p) = Inr (canonical d)"
    by (simp add: read_double_def canonical_def)
qed

end
