(* ===== verification/Fb_Format.thy ===== *)
theory Fb_Format
  imports Fb_Scalars
begin

text \<open>
  The FlatBuffers format as a relation: \<open>represents buf p x\<close> says that the bytes of \<open>buf\<close> from position
  \<open>p\<close> on are the object \<open>x\<close>, a tree of tables, strings and vectors. The lemmas say what the generated
  readers return on a represented object; together they read back a whole response.
\<close>

section \<open>Objects\<close>

datatype fb_obj =
    FB_string "u8 list"
  | FB_bytes "u8 list"
  | FB_offsets "fb_obj list"
  | FB_table "(nat \<times> fb_field) list"
and fb_field =
    FB_inline "u8 list"
  | FB_ref fb_obj

definition bytes_at :: "u8 list \<Rightarrow> nat \<Rightarrow> u8 list \<Rightarrow> bool" where
  "bytes_at buf p bs \<longleftrightarrow> p + length bs \<le> length buf \<and> take (length bs) (drop p buf) = bs"

inductive represents :: "u8 list \<Rightarrow> nat \<Rightarrow> fb_obj \<Rightarrow> bool" for buf where
  rep_string: "p + 4 \<le> length buf \<Longrightarrow> u32_at buf p = length s \<Longrightarrow> bytes_at buf (p + 4) (s @ [0]) \<Longrightarrow>
    represents buf p (FB_string s)"
| rep_bytes: "p + 4 \<le> length buf \<Longrightarrow> u32_at buf p = length bs \<Longrightarrow> bytes_at buf (p + 4) bs \<Longrightarrow>
    represents buf p (FB_bytes bs)"
| rep_offsets: "p + 4 + 4 * length xs \<le> length buf \<Longrightarrow> u32_at buf p = length xs \<Longrightarrow>
    (\<And>i. i < length xs \<Longrightarrow> represents buf (target buf (p + 4 + 4 * i)) (xs ! i)) \<Longrightarrow>
    represents buf p (FB_offsets xs)"
| rep_table: "table_ok buf p \<Longrightarrow>
    (\<And>ID. ID \<notin> fst ` set fs \<Longrightarrow> vt_entry buf p ID = 0) \<Longrightarrow>
    (\<And>ID bs. (ID, FB_inline bs) \<in> set fs \<Longrightarrow>
      vt_entry buf p ID \<noteq> 0 \<and> bytes_at buf (p + vt_entry buf p ID) bs) \<Longrightarrow>
    (\<And>ID x. (ID, FB_ref x) \<in> set fs \<Longrightarrow>
      vt_entry buf p ID \<noteq> 0 \<and> p + vt_entry buf p ID + 4 \<le> length buf \<and>
      represents buf (target buf (p + vt_entry buf p ID)) x) \<Longrightarrow>
    represents buf p (FB_table fs)"

inductive_cases rep_stringE: "represents buf p (FB_string s)"
inductive_cases rep_bytesE: "represents buf p (FB_bytes bs)"
inductive_cases rep_offsetsE: "represents buf p (FB_offsets xs)"
inductive_cases rep_tableE: "represents buf p (FB_table fs)"

text \<open>Only the set of fields matters, not the order in which they were added.\<close>

lemma represents_reorder:
  assumes "represents buf p (FB_table fs)" "set fs' = set fs"
  shows "represents buf p (FB_table fs')"
  using assms(1) by (rule rep_tableE) (rule rep_table, simp_all add: assms(2))

section \<open>Reading a represented table\<close>

lemma table_facts:
  assumes "represents buf p (FB_table fs)"
  shows "table_ok buf p"
    "map_of fs ID = None \<Longrightarrow> vt_entry buf p ID = 0"
    "map_of fs ID = Some (FB_inline bs) \<Longrightarrow> vt_entry buf p ID \<noteq> 0 \<and> bytes_at buf (p + vt_entry buf p ID) bs"
    "map_of fs ID = Some (FB_ref x) \<Longrightarrow> vt_entry buf p ID \<noteq> 0 \<and> p + vt_entry buf p ID + 4 \<le> length buf \<and>
      represents buf (target buf (p + vt_entry buf p ID)) x"
  using assms by (elim rep_tableE; auto simp: map_of_eq_None_iff dest: map_of_SomeD)+

text \<open>A field that is left out, or stored when it is not the default.\<close>

definition stored :: "bool \<Rightarrow> u8 list \<Rightarrow> fb_field option" where
  "stored is_default bs = (if is_default then None else Some (FB_inline bs))"

lemma read_scalar:
  assumes t: "represents buf p (FB_table fs)" and f: "map_of fs ID = stored d bs"
    and v: "d \<Longrightarrow> v = x" and rd: "\<And>q. bytes_at buf q bs \<Longrightarrow> rd buf (int q) = Inr x"
  shows "scalar_get rd v buf ID (Some (int p)) = Inr x"
proof (cases d)
  case True
  with f table_facts(2) [OF t, of ID] v show ?thesis
    by (simp add: stored_def scalar_get_def scalar_field_ok [OF table_facts(1) [OF t]])
next
  case False
  with f table_facts(3) [OF t, of ID bs]
  have "vt_entry buf p ID \<noteq> 0" "bytes_at buf (p + vt_entry buf p ID) bs" by (simp_all add: stored_def)
  with rd [of "p + vt_entry buf p ID"] show ?thesis
    by (simp add: scalar_get_def scalar_field_ok [OF table_facts(1) [OF t]] del: of_nat_add)
qed

lemma read_stored_at:
  assumes "bytes_at buf q bs"
  shows "bs = bool_bytes x \<Longrightarrow> read_bool buf (int q) = Inr x"
    "bs = uint8_bytes y \<Longrightarrow> read_uint8 buf (int q) = Inr y"
    "bs = int64_bytes z \<Longrightarrow> read_int64 buf (int q) = Inr z"
    "bs = double_bytes d \<Longrightarrow> wf_double d \<Longrightarrow> read_double buf (int q) = Inr (canonical d)"
  using assms read_stored [of q bs buf] unfolding bytes_at_def by blast+

lemma read_scalars:
  assumes "represents buf p (FB_table fs)"
  shows "map_of fs ID = stored (b = c) (bool_bytes b) \<Longrightarrow> scalar_get read_bool c buf ID (Some (int p)) = Inr b"
    "map_of fs ID = stored (k = l) (uint8_bytes k) \<Longrightarrow> scalar_get read_uint8 l buf ID (Some (int p)) = Inr k"
    "map_of fs ID = stored (n = m) (int64_bytes n) \<Longrightarrow> scalar_get read_int64 m buf ID (Some (int p)) = Inr n"
    "map_of fs ID = stored (double_eq x minus_one) (double_bytes x) \<Longrightarrow> wf_double x \<Longrightarrow>
      scalar_get read_double minus_one buf ID (Some (int p)) = Inr (canonical x)"
  by (rule read_scalar [OF assms], assumption, simp, simp add: read_stored_at)+
    (rule read_scalar [OF assms], assumption, simp add: canonical_minus_one, simp add: read_stored_at)

text \<open>References.\<close>

lemma read_ref:
  assumes "represents buf p (FB_table fs)" "map_of fs ID = Some (FB_ref x)"
  shows "\<exists>q. represents buf q x \<and>
    offset_field buf ID r (int adj) (Some (int p)) = Inr (Some (int (q + adj)))"
  using table_facts(4) [OF assms] offset_field_ok [OF table_facts(1) [OF assms(1)], of ID r adj]
  by (auto simp del: of_nat_add)

lemma read_absent:
  assumes "represents buf p (FB_table fs)" "map_of fs ID = None"
  shows "field_present buf ID (Some (int p)) = Inr False"
  using table_facts(2) [OF assms] by (simp add: field_present_ok [OF table_facts(1) [OF assms(1)]])

lemma read_present:
  assumes "represents buf p (FB_table fs)" "map_of fs ID = Some f"
  shows "field_present buf ID (Some (int p)) = Inr True"
  using table_facts(3,4) [OF assms(1)] assms(2)
  by (cases f) (simp_all add: field_present_ok [OF table_facts(1) [OF assms(1)]])

section \<open>Strings and vectors\<close>

definition text_bytes :: "string \<Rightarrow> u8 list" where
  "text_bytes s = map of_char s"

lemma unat_of_char: "unat (of_char c :: u8) = (of_char c :: nat)"
proof -
  have "(of_char c :: u8) = of_nat (of_char c)" by (rule of_nat_of_char [symmetric])
  moreover have "(of_char c :: nat) < 256" by (rule nat_of_char_less_256)
  ultimately show ?thesis by (simp add: unat_of_nat)
qed

lemma text_bytes_nonzero: "cstr s \<Longrightarrow> 0 \<notin> set (text_bytes s)"
proof
  assume s: "cstr s" and "0 \<in> set (text_bytes s)"
  then obtain c where c: "c \<in> set s" "of_char c = (0 :: u8)" by (auto simp: text_bytes_def)
  from c(2) have "(of_char c :: nat) = of_char NUL" using unat_of_char [of c] by simp
  then have "c = NUL" by (simp only: of_char_eq_iff)
  with s c(1) show False by (simp add: cstr_def)
qed

lemma read_text:
  assumes "represents buf q (FB_string (text_bytes s))" "cstr s"
  shows "c_string_at buf (Some (int (q + 4))) = Inr s"
proof -
  from assms(1) have b: "q + 4 + Suc (length s) \<le> length buf"
    "take (Suc (length s)) (drop (q + 4) buf) = text_bytes s @ [0]"
    by (auto elim!: rep_stringE simp: bytes_at_def text_bytes_def)
  then obtain t where t: "drop (q + 4) buf = text_bytes s @ 0 # t"
    by (metis append.assoc append_Cons append_Nil append_take_drop_id)
  have "takeWhile (\<lambda>b. b \<noteq> 0) (text_bytes s @ 0 # t) = text_bytes s"
    using text_bytes_nonzero [OF assms(2)] by (subst takeWhile_append2) auto
  moreover have "map (\<lambda>b. char_of (unat b)) (text_bytes s) = s"
    by (simp add: text_bytes_def comp_def unat_of_char)
  ultimately show ?thesis by (simp add: c_string_at_def t del: of_nat_add)
qed

lemma read_string:
  assumes "represents buf p (FB_table fs)" "map_of fs ID = Some (FB_ref (FB_string (text_bytes s)))" "cstr s"
  shows "get_string (\<lambda>buf t. vector_field buf ID r t) buf (Some (int p)) = Inr s"
  using read_ref [OF assms(1,2), of r 4] read_text [OF _ assms(3), of buf]
  by (auto simp: get_string_def vector_field_def)

definition opt_text :: "string option \<Rightarrow> fb_field option" where
  "opt_text v = map_option (\<lambda>s. FB_ref (FB_string (text_bytes s))) v"

lemma read_optional_string:
  assumes "represents buf p (FB_table fs)" "map_of fs ID = opt_text v" "\<And>s. v = Some s \<Longrightarrow> cstr s"
  shows "get_optional (\<lambda>buf t. field_present buf ID t) (get_string (\<lambda>buf t. vector_field buf ID r t)) buf
    (Some (int p)) = Inr v"
proof (cases v)
  case None
  with assms(2) read_absent [OF assms(1), of ID] show ?thesis by (simp add: opt_text_def get_optional_def)
next
  case (Some s)
  with assms(2) have f: "map_of fs ID = Some (FB_ref (FB_string (text_bytes s)))" by (simp add: opt_text_def)
  from read_present [OF assms(1) f] read_string [OF assms(1) f assms(3) [OF Some], of r] Some show ?thesis
    by (simp add: get_optional_def)
qed

definition opt_bytes :: "u8 list option \<Rightarrow> fb_field option" where
  "opt_bytes v = map_option (\<lambda>b. FB_ref (FB_bytes b)) v"

lemma read_bytes:
  assumes "represents buf q (FB_bytes bs)"
  shows "vec_bytes buf (Some (int (q + 4))) = Inr bs"
proof -
  from assms have b: "q + 4 + length bs \<le> length buf" "take (length bs) (drop (q + 4) buf) = bs"
    "u32_at buf q = length bs" by (auto elim!: rep_bytesE simp: bytes_at_def)
  have "vec_len buf (Some (int (q + 4))) = Inr (length bs)"
    using b by (simp add: vec_len_def u32_at_def)
  with b show ?thesis by (simp add: vec_bytes_def del: of_nat_add)
qed

lemma read_optional_bytes:
  assumes "represents buf p (FB_table fs)" "map_of fs ID = opt_bytes v"
  shows "get_optional (\<lambda>buf t. field_present buf ID t) (get_bytes (\<lambda>buf t. vector_field buf ID r t)) buf
    (Some (int p)) = Inr v"
proof (cases v)
  case None
  with assms(2) read_absent [OF assms(1), of ID] show ?thesis by (simp add: opt_bytes_def get_optional_def)
next
  case (Some b)
  with assms(2) have f: "map_of fs ID = Some (FB_ref (FB_bytes b))" by (simp add: opt_bytes_def)
  from read_present [OF assms(1) f] read_ref [OF assms(1) f, of r 4] read_bytes [of buf _ b] Some show ?thesis
    by (auto simp: get_optional_def get_bytes_def vector_field_def)
qed

lemma read_table:
  assumes "represents buf p (FB_table fs)" "map_of fs ID = Some (FB_ref x)"
  obtains q where "table_field buf ID r (Some (int p)) = Inr (Some (int q))" "represents buf q x"
  using read_ref [OF assms, of r 0] by (auto simp: table_field_def)

lemma offset_elements:
  assumes "represents buf q (FB_offsets xs)"
  shows "vec_len buf (Some (int (q + 4))) = Inr (length xs)"
    "i < length xs \<Longrightarrow>
      \<exists>t. offset_vec_at buf 0 (Some (int (q + 4))) i = Inr (Some (int t)) \<and> represents buf t (xs ! i)"
proof -
  from assms have o: "q + 4 + 4 * length xs \<le> length buf" "u32_at buf q = length xs"
    "\<And>i. i < length xs \<Longrightarrow> represents buf (target buf (q + 4 + 4 * i)) (xs ! i)"
    by (auto elim!: rep_offsetsE)
  show len: "vec_len buf (Some (int (q + 4))) = Inr (length xs)" using o(1,2) by (simp add: vec_len_def u32_at_def)
  assume i: "i < length xs"
  have e: "int (q + 4) + 4 * int i = int (q + 4 + 4 * i)" by simp
  have "q + 4 + 4 * i + 4 \<le> length buf" using i o(1) by simp
  then have "read_uoffset buf (int (q + 4 + 4 * i)) = Inr (u32_at buf (q + 4 + 4 * i))"
    unfolding u32_at_def by (rule read_le_in)
  then have "offset_vec_at buf 0 (Some (int (q + 4))) i = Inr (Some (int (target buf (q + 4 + 4 * i))))"
    using i unfolding offset_vec_at_def len and_then.simps deref_simps e Let_def
    by (simp add: target_def del: of_nat_add)
  with o(3) [OF i] show "\<exists>t. offset_vec_at buf 0 (Some (int (q + 4))) i = Inr (Some (int t)) \<and> represents buf t (xs ! i)"
    by blast
qed

lemma read_vector:
  assumes "represents buf p (FB_table fs)" "map_of fs ID = Some (FB_ref (FB_offsets xs))"
  obtains q where "vector_field buf ID r (Some (int p)) = Inr (Some (int q))"
    "vec_len buf (Some (int q)) = Inr (length xs)"
    "\<And>i. i < length xs \<Longrightarrow> \<exists>t. offset_vec_at buf 0 (Some (int q)) i = Inr (Some (int t)) \<and> represents buf t (xs ! i)"
proof -
  from read_ref [OF assms, of r 4] obtain q where q: "represents buf q (FB_offsets xs)"
    "vector_field buf ID r (Some (int p)) = Inr (Some (int (q + 4)))" by (auto simp: vector_field_def)
  from that [OF q(2)] offset_elements [OF q(1)] show ?thesis by blast
qed

lemma read_union_field:
  assumes "represents buf p (FB_table fs)" "0 < ID"
  shows "map_of fs (ID - 1) = None \<Longrightarrow>
      union_field buf ID r (Some (int p)) = Inr \<lparr>u_type = 0, u_value = None\<rparr>"
    "map_of fs (ID - 1) = Some (FB_inline [of_nat ty]) \<Longrightarrow> map_of fs ID = Some (FB_ref x) \<Longrightarrow> 0 < ty \<Longrightarrow> ty < 256 \<Longrightarrow>
      \<exists>q. union_field buf ID r (Some (int p)) = Inr \<lparr>u_type = ty, u_value = Some (int q)\<rparr> \<and> represents buf q x"
proof -
  have t: "scalar_get read_utype 0 buf (ID - 1) (Some (int p)) = Inr k"
    if "map_of fs (ID - 1) = stored (k = 0) [of_nat k]" "k < 256" for k
    using that by (intro read_scalar [OF assms(1)]) (auto simp: bytes_at_def unat_of_nat)
  show "map_of fs (ID - 1) = None \<Longrightarrow>
      union_field buf ID r (Some (int p)) = Inr \<lparr>u_type = 0, u_value = None\<rparr>"
    using t [of 0] by (simp add: union_field_def union_type_field_def stored_def)
  assume f: "map_of fs (ID - 1) = Some (FB_inline [of_nat ty])" "map_of fs ID = Some (FB_ref x)" "0 < ty" "ty < 256"
  from read_table [OF assms(1) f(2), of r] obtain q where
    "table_field buf ID r (Some (int p)) = Inr (Some (int q))" "represents buf q x" .
  with t [of ty] f show "\<exists>q. union_field buf ID r (Some (int p)) = Inr \<lparr>u_type = ty, u_value = Some (int q)\<rparr> \<and> represents buf q x"
    by (simp add: union_field_def union_type_field_def stored_def)
qed

end
