(* ===== verification/Fb_Content.thy ===== *)
theory Fb_Content
  imports Fb_Format
begin

text \<open>
  The content of a response as an object of the format, and the reading lemma: a buffer that
  represents it is read back by the generated readers as the response, every price in canonical
  form.
\<close>

section \<open>The objects\<close>

definition text_field :: "nat \<Rightarrow> string \<Rightarrow> nat \<times> fb_field" where
  "text_field ID s = (ID, FB_ref (FB_string (text_bytes s)))"

definition opt_field :: "nat \<Rightarrow> fb_field option \<Rightarrow> (nat \<times> fb_field) list" where
  "opt_field ID f = (case f of None \<Rightarrow> [] | Some x \<Rightarrow> [(ID, x)])"

definition user_obj :: "user_info \<Rightarrow> fb_obj" where
  "user_obj u = FB_table [text_field 0 (ui_username u), text_field 1 (ui_firstName u), text_field 2 (ui_lastName u)]"

definition id_field :: "contract_info \<Rightarrow> (nat \<times> fb_field) list" where
  "id_field c = opt_field 0 (stored (ci_id c = - 1) (int64_bytes (ci_id c)))"

definition detail_fields :: "contract_info \<Rightarrow> (nat \<times> fb_field) list" where
  "detail_fields c =
     text_field 1 (ci_name c) #
     opt_field 2 (opt_text (ci_description c)) @
     opt_field 3 (stored (double_eq (ci_price c) minus_one) (double_bytes (ci_price c))) @
     opt_field 4 (opt_bytes (ci_attachment c)) @
     opt_field 5 (stored (ci_status c = status_Processing) (uint8_bytes (ci_status c))) @
     opt_field 6 (stored (ci_created_at c = 0) (int64_bytes (ci_created_at c)))"

definition user_field :: "contract_info \<Rightarrow> (nat \<times> fb_field) list" where
  "user_field c = [(7, FB_ref (user_obj (ci_by_user c)))]"

text \<open>The order of \<open>request_contract\<close>, and that of the two other handlers.\<close>

definition requested_obj :: "contract_info \<Rightarrow> fb_obj" where
  "requested_obj c = FB_table (id_field c @ detail_fields c @ user_field c)"

definition row_obj :: "contract_info \<Rightarrow> fb_obj" where
  "row_obj c = FB_table (detail_fields c @ id_field c @ user_field c)"

definition me_obj :: "me_info \<Rightarrow> fb_obj" where
  "me_obj m = FB_table ([text_field 0 (mi_username m), text_field 1 (mi_password m),
     text_field 2 (mi_firstName m), text_field 3 (mi_lastName m)] @
     opt_field 4 (stored (\<not> mi_admin m) (bool_bytes (mi_admin m))))"

fun body_type :: "response_body \<Rightarrow> nat" where
  "body_type (Res_Login _) = 1"
| "body_type (Res_Register _) = 2"
| "body_type (Res_GetMe _) = 3"
| "body_type (Res_EditMe _) = 4"
| "body_type (Res_RequestContract _) = 5"
| "body_type (Res_ListContracts _) = 6"
| "body_type (Res_CheckContract _) = 7"

fun body_obj :: "response_body \<Rightarrow> fb_obj" where
  "body_obj (Res_Login t) = FB_table [text_field 0 t]"
| "body_obj (Res_Register t) = FB_table [text_field 0 t]"
| "body_obj (Res_GetMe m) = me_obj m"
| "body_obj (Res_EditMe t) = FB_table [text_field 0 t]"
| "body_obj (Res_RequestContract c) = FB_table [(0, FB_ref (requested_obj c))]"
| "body_obj (Res_ListContracts cs) = FB_table [(0, FB_ref (FB_offsets (map row_obj cs)))]"
| "body_obj (Res_CheckContract c) = row_obj c"

definition value_fields :: "response_body option \<Rightarrow> (nat \<times> fb_field) list" where
  "value_fields m =
     (case m of None \<Rightarrow> []
      | Some m \<Rightarrow> [(0, FB_inline [of_nat (body_type m)]), (1, FB_ref (body_obj m))])"

definition message_obj :: "response \<Rightarrow> fb_obj" where
  "message_obj a = FB_table
     (opt_field 2 (stored (\<not> r_error a) (bool_bytes (r_error a))) @
      opt_field 3 (opt_text (r_errorDescription a)) @ value_fields (r_msg a))"

section \<open>Values that a handler can put into a response\<close>

definition user_wf :: "user_info \<Rightarrow> bool" where
  "user_wf u \<longleftrightarrow> cstr (ui_username u) \<and> cstr (ui_firstName u) \<and> cstr (ui_lastName u)"

definition contract_wf :: "contract_info \<Rightarrow> bool" where
  "contract_wf c \<longleftrightarrow> cstr (ci_name c) \<and> (\<forall>s. ci_description c = Some s \<longrightarrow> cstr s) \<and>
     wf_double (ci_price c) \<and> user_wf (ci_by_user c)"

fun body_wf :: "response_body \<Rightarrow> bool" where
  "body_wf (Res_Login t) \<longleftrightarrow> cstr t"
| "body_wf (Res_Register t) \<longleftrightarrow> cstr t"
| "body_wf (Res_GetMe m) \<longleftrightarrow>
     cstr (mi_username m) \<and> cstr (mi_password m) \<and> cstr (mi_firstName m) \<and> cstr (mi_lastName m)"
| "body_wf (Res_EditMe t) \<longleftrightarrow> cstr t"
| "body_wf (Res_RequestContract c) \<longleftrightarrow> contract_wf c"
| "body_wf (Res_ListContracts cs) \<longleftrightarrow> (\<forall>c \<in> set cs. contract_wf c)"
| "body_wf (Res_CheckContract c) \<longleftrightarrow> contract_wf c"

definition response_wf :: "response \<Rightarrow> bool" where
  "response_wf a \<longleftrightarrow> (\<forall>d. r_errorDescription a = Some d \<longrightarrow> cstr d) \<and> (\<forall>m. r_msg a = Some m \<longrightarrow> body_wf m)"

definition contract_sent :: "contract_info \<Rightarrow> contract_info" where
  "contract_sent c = c\<lparr>ci_price := canonical (ci_price c)\<rparr>"

fun body_sent :: "response_body \<Rightarrow> response_body" where
  "body_sent (Res_RequestContract c) = Res_RequestContract (contract_sent c)"
| "body_sent (Res_ListContracts cs) = Res_ListContracts (map contract_sent cs)"
| "body_sent (Res_CheckContract c) = Res_CheckContract (contract_sent c)"
| "body_sent m = m"

text \<open>What the client reads.\<close>

definition response_sent :: "response \<Rightarrow> response" where
  "response_sent a = a\<lparr>r_msg := map_option body_sent (r_msg a)\<rparr>"

section \<open>Looking up a field\<close>

lemma map_of_opt_field:
  "j \<noteq> i \<Longrightarrow> map_of (opt_field i f @ xs) j = map_of xs j"
  "map_of xs i = None \<Longrightarrow> map_of (opt_field i f @ xs) i = f"
  by (auto simp: opt_field_def split: option.splits)

lemma map_of_text_field:
  "map_of (text_field i s # xs) j = (if j = i then Some (FB_ref (FB_string (text_bytes s))) else map_of xs j)"
  by (simp add: text_field_def)

lemma map_of_pair: "map_of ((i, x) # xs) j = (if j = i then Some x else map_of xs j)"
  by simp

lemma map_of_last: "map_of (opt_field i f) j = (if j = i then f else None)"
  using map_of_opt_field [where xs = "[]"] by auto

lemmas lookup_simps = map_of_opt_field map_of_text_field map_of_pair map_of_last

lemma contract_lookup:
  defines "fs \<equiv> \<lambda>c. id_field c @ detail_fields c @ user_field c"
  shows "map_of (fs c) 0 = stored (ci_id c = - 1) (int64_bytes (ci_id c))"
    "map_of (fs c) 1 = Some (FB_ref (FB_string (text_bytes (ci_name c))))"
    "map_of (fs c) 2 = opt_text (ci_description c)"
    "map_of (fs c) 3 = stored (double_eq (ci_price c) minus_one) (double_bytes (ci_price c))"
    "map_of (fs c) 4 = opt_bytes (ci_attachment c)"
    "map_of (fs c) 5 = stored (ci_status c = status_Processing) (uint8_bytes (ci_status c))"
    "map_of (fs c) 6 = stored (ci_created_at c = 0) (int64_bytes (ci_created_at c))"
    "map_of (fs c) 7 = Some (FB_ref (user_obj (ci_by_user c)))"
  unfolding fs_def id_field_def detail_fields_def user_field_def append.simps append_assoc
  by (simp_all add: lookup_simps del: map_of.simps(2) map_of_append One_nat_def)

lemma row_requested: "represents buf p (row_obj c) \<Longrightarrow> represents buf p (requested_obj c)"
  unfolding row_obj_def requested_obj_def by (erule represents_reorder) auto

section \<open>Reading\<close>

lemmas user_getters = Response_User_username_get_def [abs_def] Response_User_firstName_get_def [abs_def]
  Response_User_lastName_get_def [abs_def]

lemma read_user_obj:
  assumes "represents buf p (user_obj u)" "user_wf u"
  shows "read_user buf (Some (int p)) = Inr u"
proof -
  note r = read_string [OF assms(1) [unfolded user_obj_def], where r = True]
  have "get_string Response_User_username_get buf (Some (int p)) = Inr (ui_username u)"
    "get_string Response_User_firstName_get buf (Some (int p)) = Inr (ui_firstName u)"
    "get_string Response_User_lastName_get buf (Some (int p)) = Inr (ui_lastName u)"
    unfolding user_getters using assms(2)
    by (intro r; simp add: lookup_simps user_wf_def del: map_of.simps(2) One_nat_def)+
  then show ?thesis by (simp add: read_user_def)
qed

lemmas contract_getters = Response_CheckContract_id_get_def [abs_def] Response_CheckContract_name_get_def [abs_def]
  Response_CheckContract_description_get_def [abs_def] Response_CheckContract_description_is_present_def [abs_def]
  Response_CheckContract_price_get_def [abs_def] Response_CheckContract_attachment_get_def [abs_def]
  Response_CheckContract_attachment_is_present_def [abs_def] Response_CheckContract_status_get_def [abs_def]
  Response_CheckContract_created_at_get_def [abs_def] Response_CheckContract_by_user_get_def [abs_def]

lemma read_contract_obj:
  assumes "represents buf p (requested_obj c)" "contract_wf c"
  shows "read_contract buf (Some (int p)) = Inr (contract_sent c)"
proof -
  note t = assms(1) [unfolded requested_obj_def]
  from read_table [OF t contract_lookup(8), of True] obtain q where
    q: "table_field buf 7 True (Some (int p)) = Inr (Some (int q))" "represents buf q (user_obj (ci_by_user c))" .
  have u: "read_user buf (Some (int q)) = Inr (ci_by_user c)"
    using read_user_obj [OF q(2)] assms(2) by (simp add: contract_wf_def)
  show ?thesis
    using assms(2)
    by (simp add: read_contract_def contract_getters contract_wf_def q(1) u contract_sent_def
        read_scalars(2) [OF t contract_lookup(6)] read_scalars(3) [OF t contract_lookup(1)]
        read_scalars(3) [OF t contract_lookup(7)] read_scalars(4) [OF t contract_lookup(4)]
        read_string [OF t contract_lookup(2)] read_optional_string [OF t contract_lookup(3)]
        read_optional_bytes [OF t contract_lookup(5)] del: One_nat_def)
qed

lemma read_contracts_objs:
  assumes "\<And>i. i \<in> set is \<Longrightarrow> \<exists>t. offset_vec_at buf 0 vec i = Inr (Some (int t)) \<and> represents buf t (row_obj (f i)) \<and>
    contract_wf (f i)"
  shows "read_contracts buf vec is = Inr (map (\<lambda>i. contract_sent (f i)) is)"
  using assms
proof (induction "is")
  case (Cons i "is")
  from Cons.prems [of i] obtain t where
    "offset_vec_at buf 0 vec i = Inr (Some (int t))" "represents buf t (row_obj (f i))" "contract_wf (f i)" by auto
  with Cons read_contract_obj [OF row_requested] show ?case
    by (simp add: Response_CheckContract_vec_at_def)
qed simp

lemma read_me_obj:
  assumes "represents buf p (me_obj m)" "body_wf (Res_GetMe m)"
  shows "read_me buf (Some (int p)) = Inr m"
proof -
  note t = assms(1) [unfolded me_obj_def]
  have "get_string Response_GetMe_username_get buf (Some (int p)) = Inr (mi_username m)"
    "get_string Response_GetMe_password_get buf (Some (int p)) = Inr (mi_password m)"
    "get_string Response_GetMe_firstName_get buf (Some (int p)) = Inr (mi_firstName m)"
    "get_string Response_GetMe_lastName_get buf (Some (int p)) = Inr (mi_lastName m)"
    unfolding Response_GetMe_username_get_def [abs_def] Response_GetMe_password_get_def [abs_def]
      Response_GetMe_firstName_get_def [abs_def] Response_GetMe_lastName_get_def [abs_def]
    using assms(2)
    by (intro read_string [OF t]; simp add: lookup_simps del: map_of.simps(2) map_of_append One_nat_def)+
  moreover have "Response_GetMe_admin_get buf (Some (int p)) = Inr (mi_admin m)"
    unfolding Response_GetMe_admin_get_def
    by (rule read_scalars(1) [OF t]) (simp add: lookup_simps del: map_of.simps(2) map_of_append)
  ultimately show ?thesis by (simp add: read_me_def)
qed

lemma read_token_obj:
  assumes "represents buf p (FB_table [text_field 0 t])" "cstr t"
  shows "get_string (\<lambda>buf t. vector_field buf 0 True t) buf (Some (int p)) = Inr t"
  using assms(2) by (intro read_string [OF assms(1)]) (simp_all add: map_of_text_field del: map_of.simps(2))

lemma read_contract_list:
  assumes "represents buf p (FB_table [(0, FB_ref (FB_offsets (map row_obj cs)))])" "\<forall>c \<in> set cs. contract_wf c"
  shows "and_then (Response_ListContracts_contracts_get buf (Some (int p))) (\<lambda>vec.
    and_then (Response_CheckContract_vec_len buf vec) (\<lambda>n. read_contracts buf vec [0..<n])) =
    Inr (map contract_sent cs)"
proof -
  have f: "map_of [(0, FB_ref (FB_offsets (map row_obj cs)))] (0 :: nat) = Some (FB_ref (FB_offsets (map row_obj cs)))"
    by simp
  from read_vector [OF assms(1) f, of True] obtain q where
    q: "vector_field buf 0 True (Some (int p)) = Inr (Some (int q))" "vec_len buf (Some (int q)) = Inr (length cs)"
    and e: "\<And>i. i < length cs \<Longrightarrow> \<exists>t. offset_vec_at buf 0 (Some (int q)) i = Inr (Some (int t)) \<and>
      represents buf t (map row_obj cs ! i)" by auto
  have "read_contracts buf (Some (int q)) [0..<length cs] = Inr (map (\<lambda>i. contract_sent (cs ! i)) [0..<length cs])"
    using e assms(2) by (intro read_contracts_objs) fastforce
  moreover have "map (\<lambda>i. contract_sent (cs ! i)) [0..<length cs] = map contract_sent cs"
    by (rule nth_equalityI) simp_all
  ultimately show ?thesis
    using q by (simp add: Response_ListContracts_contracts_get_def Response_CheckContract_vec_len_def)
qed

lemma body_type_range: "0 < body_type m" "body_type m < 256"
  by (cases m; simp)+

lemma read_body_obj:
  assumes "represents buf p (body_obj m)" "body_wf m"
  shows "read_body buf \<lparr>u_type = body_type m, u_value = Some (int p)\<rparr> = Inr (Some (body_sent m))"
proof (cases m)
  case (Res_RequestContract c)
  with assms have "represents buf p (FB_table [(0, FB_ref (requested_obj c))])" "contract_wf c" by simp_all
  from read_table [OF this(1), of 0 "requested_obj c" True] obtain q where
    "table_field buf 0 True (Some (int p)) = Inr (Some (int q))" "represents buf q (requested_obj c)" by auto
  with read_contract_obj [OF this(2) \<open>contract_wf c\<close>] Res_RequestContract show ?thesis
    by (simp add: read_body_def Response_RequestContract_result_get_def)
next
  case (Res_ListContracts cs)
  with assms read_contract_list [of buf p cs] show ?thesis by (simp add: read_body_def and_then_assoc flip: and_then_assoc)
next
  case (Res_CheckContract c)
  with assms read_contract_obj [OF row_requested] show ?thesis by (simp add: read_body_def)
next
  case (Res_GetMe x)
  with assms read_me_obj show ?thesis by (simp add: read_body_def)
qed (use assms read_token_obj in \<open>simp_all add: read_body_def Response_Login_token_get_def [abs_def]
  Response_Register_token_get_def [abs_def] Response_EditMe_token_get_def [abs_def]\<close>)

lemma message_lookup:
  assumes "message_obj a = FB_table fs"
  shows "map_of fs 2 = stored (\<not> r_error a) (bool_bytes (r_error a))"
    "map_of fs 3 = opt_text (r_errorDescription a)"
    "r_msg a = None \<Longrightarrow> map_of fs 0 = None"
    "r_msg a = Some m \<Longrightarrow> map_of fs 0 = Some (FB_inline [of_nat (body_type m)]) \<and> map_of fs 1 = Some (FB_ref (body_obj m))"
  using assms unfolding message_obj_def value_fields_def
  by (auto simp: lookup_simps simp del: map_of.simps(2) map_of_append split: option.splits)

text \<open>The reading lemma.\<close>

lemma read_response_obj:
  assumes "4 \<le> length buf" "represents buf (u32_at buf 0) (message_obj a)" "response_wf a"
  shows "read_response buf = Inr (response_sent a)"
proof -
  let ?p = "u32_at buf 0"
  obtain fs where fs: "message_obj a = FB_table fs" by (simp add: message_obj_def)
  note t = assms(2) [unfolded fs] and look = message_lookup [OF fs]
  have root: "Response_Message_as_root buf = Inr (Some (int ?p))"
    using read_le_in [of 0 4 buf] assms(1)
    by (simp add: Response_Message_as_root_def read_root_def Response_Message_identifier_def has_identifier_def u32_at_def)
  have e: "Response_Message_error_get buf (Some (int ?p)) = Inr (r_error a)"
    unfolding Response_Message_error_get_def by (rule read_scalars(1) [OF t]) (simp add: look)
  have d: "get_optional Response_Message_errorDescription_is_present
      (get_string Response_Message_errorDescription_get) buf (Some (int ?p)) = Inr (r_errorDescription a)"
    unfolding Response_Message_errorDescription_is_present_def [abs_def] Response_Message_errorDescription_get_def [abs_def]
    using assms(3) by (intro read_optional_string [OF t]) (simp_all add: look response_wf_def)
  have "and_then (Response_Message_msg_union buf (Some (int ?p))) (read_body buf) = Inr (map_option body_sent (r_msg a))"
  proof (cases "r_msg a")
    case None
    have "union_field buf 1 False (Some (int ?p)) = Inr \<lparr>u_type = 0, u_value = None\<rparr>"
      using look(3) [OF None] by (intro read_union_field(1) [OF t]) simp_all
    with None show ?thesis by (simp add: Response_Message_msg_union_def read_body_def)
  next
    case (Some m)
    have "\<exists>q. union_field buf 1 False (Some (int ?p)) = Inr \<lparr>u_type = body_type m, u_value = Some (int q)\<rparr> \<and>
        represents buf q (body_obj m)"
      using look(4) [OF Some] by (intro read_union_field(2) [OF t]) (simp_all add: body_type_range)
    with Some read_body_obj [of buf _ m] assms(3) show ?thesis
      by (auto simp: Response_Message_msg_union_def response_wf_def)
  qed
  then have m: "and_then (Response_Message_msg_union buf (Some (int ?p))) (\<lambda>u. and_then (read_body buf u) f) =
      f (map_option body_sent (r_msg a))" for f
    by (metis and_then_assoc and_then.simps(2))
  show ?thesis
    by (simp only: read_response_def root e d m and_then.simps) (simp add: response_sent_def)
qed

end
