(* ===== verification/Fb_Build.thy ===== *)
theory Fb_Build
  imports Fb_Content
begin

text \<open>
  What the generated builders leave in a buffer. The locale \<open>flatcc_builder\<close> states what the runtime
  promises, after the comments of the vendored \<open>flatcc_builder.h\<close>: frames that nest, references
  to completed objects, a finished buffer that represents its root. The rules below execute a
  sequence of calls symbolically; the result: every response that a handler builds ends in a
  buffer that the generated readers read back.
\<close>

named_theorems wp_rules \<open>symbolic execution of builder calls\<close>

section \<open>Weakest preconditions\<close>

text \<open>The calls run and end in \<open>Q\<close>, or, when \<open>dg\<close> allows it, a store meets a pointer that did not survive.\<close>

definition wp :: "bool \<Rightarrow> ('b, 'r) build \<Rightarrow> ('r \<Rightarrow> 'b \<Rightarrow> bool) \<Rightarrow> 'b \<Rightarrow> bool" where
  "wp dg m Q b \<longleftrightarrow> (case m b of Inr (b', r) \<Rightarrow> Q r b' | Inl e \<Rightarrow> dg \<and> e = Dangling)"

lemma wp_False: "wp False m Q b \<longleftrightarrow> (\<exists>b' r. m b = Inr (b', r) \<and> Q r b')"
  by (auto simp: wp_def split: sum.splits)

lemma wp_return [simp]: "wp dg (build_return r) Q b \<longleftrightarrow> Q r b"
  by (simp add: wp_def build_return_def)

lemma wp_call [simp]: "wp dg (build_call f) Q b \<longleftrightarrow> (case f b of (b', r) \<Rightarrow> Q r b')"
  by (simp add: wp_def build_call_def split: prod.split)

lemma wp_do [simp]: "wp dg (build_do f) Q b \<longleftrightarrow> Q () (f b)"
  by (simp add: wp_def build_do_def)

lemma wp_store [simp]: "wp dg (build_store f) Q b \<longleftrightarrow> (case f b of None \<Rightarrow> dg | Some b' \<Rightarrow> Q () b')"
  by (simp add: wp_def build_store_def split: option.split)

lemma wp_then [simp]: "wp dg (build_then m f) Q b \<longleftrightarrow> wp dg m (\<lambda>r b'. wp dg (f r) Q b') b"
  by (cases "m b") (auto simp: wp_def build_then_def)

lemma wp_any_failed [simp]:
  "wp dg (any_failed []) Q b \<longleftrightarrow> Q False b"
  "wp dg (any_failed (m # ms)) Q b \<longleftrightarrow> wp dg m (\<lambda>rc b'. if rc \<noteq> 0 then Q True b' else wp dg (any_failed ms) Q b') b"
  by (simp_all add: if_distrib [where f = "\<lambda>m. wp dg m Q _"] cong: if_cong)

lemma wp_if: "wp dg (if c then m else m') Q b \<longleftrightarrow> (if c then wp dg m Q b else wp dg m' Q b)"
  by simp

lemma wp_mono: "wp dg m Q b \<Longrightarrow> (\<And>r b'. Q r b' \<Longrightarrow> S r b') \<Longrightarrow> wp dg m S b"
  by (auto simp: wp_def split: sum.splits)

section \<open>The contract of the runtime\<close>

text \<open>Runtimes whose pointers into the open table last: no store through one is ever undefined.\<close>

definition stores_last :: "'b builder_runtime \<Rightarrow> bool" where
  "stores_last R \<longleftrightarrow> (\<forall>p v b. rt_store R p v b \<noteq> None)"

text \<open>The open constructions, the innermost first: a buffer, also with a size prefix, a table with the bound on its field numbers, a vector
  of references of which some may still be unset, a string, a vector of bytes with the size of an
  element, a vector of unions.\<close>

datatype frame =
    Buffer_frame
  | Sized_frame
  | Table_frame nat "(nat \<times> fb_field) list"
  | Slots_frame "fb_obj option list"
  | Text_frame "u8 list"
  | Bytes_frame nat "u8 list"
  | Unions_frame "(nat \<times> fb_obj option) list"

abbreviation Offsets_frame :: "fb_obj list \<Rightarrow> frame" where
  "Offsets_frame xs \<equiv> Slots_frame (map Some xs)"

text \<open>
  \<open>object\<close>: the completed objects by reference; \<open>place\<close>: the field of the innermost table that a pointer
  points to. A pointer from \<open>table_add\<close> is short lived and will not necessarily survive other calls:
  after a \<open>table_add_offset\<close> it still points to its field, or the store through it is undefined.
  Memory does not run out; the size limit of the format shows as a null result of the last call.
\<close>

locale flatcc_builder =
  fixes R :: "'b builder_runtime" and frames :: "'b \<Rightarrow> frame list"
    and object :: "'b \<Rightarrow> nat \<Rightarrow> fb_obj option" and place :: "'b \<Rightarrow> nat \<Rightarrow> nat option"
    and root :: "'b \<Rightarrow> fb_obj option"
  assumes null: "object b 0 = None"
    and init: "frames (rt_init R) = []"
    and start_buffer: "frames b = [] \<Longrightarrow> rt_start_buffer R fid b = (b', rc) \<Longrightarrow>
      rc = 0 \<and> frames b' = [Buffer_frame] \<and> object b \<subseteq>\<^sub>m object b'"
    and end_buffer: "frames b = [Buffer_frame] \<Longrightarrow> object b r = Some x \<Longrightarrow> rt_end_buffer R r b = (b', r') \<Longrightarrow>
      frames b' = [] \<and> root b' = Some x"
    and start_table: "frames b \<noteq> [] \<Longrightarrow> rt_start_table R n b = (b', rc) \<Longrightarrow>
      rc = 0 \<and> frames b' = Table_frame n [] # frames b \<and> object b \<subseteq>\<^sub>m object b'"
    and check_required: "frames b = Table_frame n fs # st \<Longrightarrow>
      rt_check_required R ids b \<longleftrightarrow> set ids \<subseteq> fst ` set fs"
    and end_table: "frames b = Table_frame n fs # st \<Longrightarrow> rt_end_table R b = (b', r) \<Longrightarrow>
      frames b' = st \<and> object b \<subseteq>\<^sub>m object b' \<and> object b' r = Some (FB_table fs)"
    and table_add: "frames b = Table_frame n fs # st \<Longrightarrow> ID < n \<Longrightarrow> ID \<notin> fst ` set fs \<Longrightarrow>
      rt_table_add R ID sz al b = (b', res) \<Longrightarrow>
      \<exists>q. res = Some q \<and> frames b' = Table_frame n (fs @ [(ID, FB_inline (replicate sz 0))]) # st \<and>
        object b \<subseteq>\<^sub>m object b' \<and> place b' q = Some (length fs)"
    and table_add_offset: "frames b = Table_frame n fs # st \<Longrightarrow> ID < n \<Longrightarrow> ID \<notin> fst ` set fs \<Longrightarrow>
      rt_table_add_offset R ID b = (b', res) \<Longrightarrow>
      \<exists>q. res = Some q \<and> frames b' = Table_frame n (fs @ [(ID, FB_inline (replicate 4 0))]) # st \<and>
        object b \<subseteq>\<^sub>m object b' \<and> place b' q = Some (length fs)"
    and short_lived: "place b p = Some k \<Longrightarrow> frames b = Table_frame n fs # st \<Longrightarrow> k < length fs \<Longrightarrow>
      rt_table_add_offset R ID b = (b', res) \<Longrightarrow> place b' p = Some k \<or> rt_store R p v b' = None"
    and store: "frames b = Table_frame n fs # st \<Longrightarrow> place b p = Some k \<Longrightarrow> k < length fs \<Longrightarrow>
      fs ! k = (ID, FB_inline old) \<Longrightarrow> length v = length old \<Longrightarrow>
      \<exists>b'. rt_store R p v b = Some b' \<and> frames b' = Table_frame n (fs[k := (ID, FB_inline v)]) # st \<and>
        object b \<subseteq>\<^sub>m object b' \<and> place b' = place b"
    and store_ref: "frames b = Table_frame n fs # st \<Longrightarrow> place b p = Some k \<Longrightarrow> k < length fs \<Longrightarrow>
      fs ! k = (ID, FB_inline old) \<Longrightarrow> length old = 4 \<Longrightarrow> object b r = Some x \<Longrightarrow>
      frames (rt_store_ref R p r b) = Table_frame n (fs[k := (ID, FB_ref x)]) # st \<and>
      object b \<subseteq>\<^sub>m object (rt_store_ref R p r b)"
    and create_string: "frames b \<noteq> [] \<Longrightarrow> cstr s \<Longrightarrow> rt_create_string_str R s b = (b', r) \<Longrightarrow>
      frames b' = frames b \<and> object b \<subseteq>\<^sub>m object b' \<and> object b' r = Some (FB_string (text_bytes s))"
    and create_vector: "frames b \<noteq> [] \<Longrightarrow> rt_create_vector R v 1 1 b = (b', r) \<Longrightarrow>
      frames b' = frames b \<and> object b \<subseteq>\<^sub>m object b' \<and> object b' r = Some (FB_bytes v)"
    and start_vector: "frames b \<noteq> [] \<Longrightarrow> rt_start_offset_vector R b = (b', rc) \<Longrightarrow>
      rc = 0 \<and> frames b' = Offsets_frame [] # frames b \<and> object b \<subseteq>\<^sub>m object b'"
    and push: "frames b = Offsets_frame xs # st \<Longrightarrow> object b r = Some x \<Longrightarrow> rt_offset_vector_push R r b = (b', res) \<Longrightarrow>
      res \<noteq> None \<and> frames b' = Offsets_frame (xs @ [x]) # st \<and> object b \<subseteq>\<^sub>m object b'"
    and end_vector: "frames b = Offsets_frame xs # st \<Longrightarrow> rt_end_offset_vector R b = (b', r) \<Longrightarrow>
      frames b' = st \<and> object b \<subseteq>\<^sub>m object b' \<and> object b' r = Some (FB_offsets xs)"
    and finalize: "frames b = [] \<Longrightarrow> root b = Some x \<Longrightarrow> rt_finalize_aligned_buffer R b = Some buf \<Longrightarrow>
      4 \<le> length buf \<and> represents buf (u32_at buf 0) x"
begin

text \<open>The frames of a state and some of its objects.\<close>

definition holds :: "frame list \<Rightarrow> (nat \<times> fb_obj) set \<Rightarrow> 'b \<Rightarrow> bool" where
  "holds st H b \<longleftrightarrow> frames b = st \<and> (\<forall>(r, x) \<in> H. object b r = Some x)"

lemma holds_step:
  assumes "holds st H b" "object b \<subseteq>\<^sub>m object b'" "frames b' = st'"
  shows "holds st' H b'"
proof -
  have "object b' r = Some x" if "(r, x) \<in> H" for r x
  proof -
    have "object b r = Some x" using that assms(1) by (auto simp: holds_def)
    with assms(2) show ?thesis by (simp add: map_le_def dom_def)
  qed
  with assms(3) show ?thesis by (auto simp: holds_def)
qed

lemma holds_less: "holds st H b \<Longrightarrow> H' \<subseteq> H \<Longrightarrow> holds st H' b"
  by (auto simp: holds_def)

lemma holds_insert: "holds st (insert (r, x) H) b \<longleftrightarrow> holds st H b \<and> object b r = Some x"
  by (auto simp: holds_def)

lemma holds_nonnull: "holds st H b \<Longrightarrow> (r, x) \<in> H \<Longrightarrow> object b r = Some x \<and> r \<noteq> 0"
proof -
  assume h: "holds st H b" "(r, x) \<in> H"
  then have "object b r = Some x" by (auto simp: holds_def)
  with null [of b] show ?thesis by (metis option.distinct(1))
qed

section \<open>Rules for the macros\<close>

lemma string_wp [wp_rules]:
  assumes "holds st H b" "st \<noteq> []" "cstr s"
    and "\<And>r b'. holds st (insert (r, FB_string (text_bytes s)) H) b' \<Longrightarrow> Q r b'"
  shows "wp dg (string_create_str R s) Q b"
proof -
  obtain b' r where c: "rt_create_string_str R s b = (b', r)" by fastforce
  have "frames b \<noteq> []" using assms(1,2) by (simp add: holds_def)
  from create_string [OF this assms(3) c] holds_step [OF assms(1), of b' st] assms(1) c assms(4) show ?thesis
    by (auto simp: string_create_str_def holds_insert holds_def)
qed

lemma bytes_wp [wp_rules]:
  assumes "holds st H b" "st \<noteq> []" and "\<And>r b'. holds st (insert (r, FB_bytes v) H) b' \<Longrightarrow> Q r b'"
  shows "wp dg (uint8_vec_create R v) Q b"
proof -
  obtain b' r where c: "rt_create_vector R v 1 1 b = (b', r)" by fastforce
  have "frames b \<noteq> []" using assms(1,2) by (simp add: holds_def)
  from create_vector [OF this c] holds_step [OF assms(1), of b' st] assms(1) c assms(3) show ?thesis
    by (auto simp: uint8_vec_create_def holds_insert holds_def)
qed

lemma table_start_wp [wp_rules]:
  assumes "holds st H b" "st \<noteq> []" and "\<And>b'. holds (Table_frame n [] # st) H b' \<Longrightarrow> Q 0 b'"
  shows "wp dg (table_start R n) Q b"
proof -
  obtain b' rc where c: "rt_start_table R n b = (b', rc)" by fastforce
  have "frames b \<noteq> []" "frames b = st" using assms(1,2) by (simp_all add: holds_def)
  with start_table [OF this(1) c] holds_step [OF assms(1)] c assms(3) show ?thesis
    by (auto simp: table_start_def)
qed

lemma table_end_wp [wp_rules]:
  assumes "holds (Table_frame n fs # st) H b" "set req \<subseteq> fst ` set fs"
    and "\<And>r b'. holds st (insert (r, FB_table fs) H) b' \<Longrightarrow> Q r b'"
  shows "wp dg (table_end R req) Q b"
proof -
  obtain b' r where c: "rt_end_table R b = (b', r)" by fastforce
  have f: "frames b = Table_frame n fs # st" using assms(1) by (simp add: holds_def)
  from end_table [OF f c] holds_step [OF assms(1), of b' st] have "holds st (insert (r, FB_table fs) H) b'"
    by (simp add: holds_insert)
  with assms(2,3) c check_required [OF f, of req] show ?thesis by (auto simp: wp_def table_end_def)
qed

lemma force_add_wp [wp_rules]:
  assumes "holds (Table_frame n fs # st) H b" "ID < n" "ID \<notin> fst ` set fs" "length v = sz"
    and "\<And>b'. holds (Table_frame n (fs @ [(ID, FB_inline v)]) # st) H b' \<Longrightarrow> Q 0 b'"
  shows "wp dg (scalar_force_add R ID sz al v) Q b"
proof -
  obtain b' p where c: "rt_table_add R ID sz al b = (b', p)" by fastforce
  have f: "frames b = Table_frame n fs # st" using assms(1) by (simp add: holds_def)
  from table_add [OF f assms(2,3) c] obtain q where q: "p = Some q"
    "frames b' = Table_frame n (fs @ [(ID, FB_inline (replicate sz 0))]) # st"
    "object b \<subseteq>\<^sub>m object b'" "place b' q = Some (length fs)" by blast
  from store [OF q(2,4), of ID "replicate sz 0" v] assms(4) obtain b2 where b2: "rt_store R q v b' = Some b2"
    "frames b2 = Table_frame n (fs @ [(ID, FB_inline v)]) # st" "object b' \<subseteq>\<^sub>m object b2" by auto
  have "holds (Table_frame n (fs @ [(ID, FB_inline v)]) # st) H b2"
    by (rule holds_step [OF holds_step [OF assms(1) q(3) refl] b2(3,2)])
  with q(1) c assms(5) b2(1) show ?thesis by (simp add: scalar_force_add_def)
qed

lemma scalar_add_wp [wp_rules]:
  assumes "holds (Table_frame n fs # st) H b" "ID < n" "ID \<notin> fst ` set fs" "length v = sz"
    and "\<And>b'. holds (Table_frame n (fs @ opt_field ID (stored d v)) # st) H b' \<Longrightarrow> Q 0 b'"
  shows "wp dg (scalar_add R ID sz al d v) Q b"
  using force_add_wp [OF assms(1-4)] assms(1,5) by (simp add: scalar_add_def opt_field_def stored_def)

lemma offset_add_wp [wp_rules]:
  assumes "holds (Table_frame n fs # st) H b" "(r, x) \<in> H" "ID < n" "ID \<notin> fst ` set fs"
    and "\<And>b'. holds (Table_frame n (fs @ [(ID, FB_ref x)]) # st) H b' \<Longrightarrow> Q 0 b'"
  shows "wp dg (offset_add R ID r) Q b"
proof -
  obtain b' p where c: "rt_table_add_offset R ID b = (b', p)" by fastforce
  have f: "frames b = Table_frame n fs # st" using assms(1) by (simp add: holds_def)
  from table_add_offset [OF f assms(3,4) c] obtain q where q: "p = Some q"
    "frames b' = Table_frame n (fs @ [(ID, FB_inline (replicate 4 0))]) # st"
    "object b \<subseteq>\<^sub>m object b'" "place b' q = Some (length fs)" by blast
  have h: "holds (Table_frame n (fs @ [(ID, FB_inline (replicate 4 0))]) # st) H b'"
    using holds_step [OF assms(1) q(3,2)] .
  have "holds (Table_frame n (fs @ [(ID, FB_ref x)]) # st) H (rt_store_ref R q r b')"
    using store_ref [OF q(2,4), of ID "replicate 4 0" r x] holds_nonnull [OF h assms(2)]
    by (intro holds_step [OF h]) simp_all
  with q(1) c assms(5) holds_nonnull [OF h assms(2)] show ?thesis by (simp add: offset_add_def)
qed

lemma union_add_wp [wp_rules]:
  assumes "holds (Table_frame n fs # st) H b" "(r, x) \<in> H" "0 < ty" "0 < ID" "ID < n"
    "ID \<notin> fst ` set fs" "ID - 1 \<notin> fst ` set fs" "dg \<or> stores_last R"
    and "\<And>b'. holds (Table_frame n (fs @ [(ID - 1, FB_inline [of_nat ty]), (ID, FB_ref x)]) # st) H b' \<Longrightarrow> Q 0 b'"
  shows "wp dg (union_add R ID (ty, r)) Q b"
proof -
  let ?t = "(ID - 1, FB_inline [0]) :: nat \<times> fb_field"
  obtain b1 pt where c1: "rt_table_add R (ID - 1) 1 1 b = (b1, pt)" by fastforce
  have f: "frames b = Table_frame n fs # st" using assms(1) by (simp add: holds_def)
  have "ID - 1 < n" using assms(5) by simp
  from table_add [OF f this assms(7) c1] obtain q1 where q1: "pt = Some q1"
    "frames b1 = Table_frame n (fs @ [?t]) # st" "object b \<subseteq>\<^sub>m object b1" "place b1 q1 = Some (length fs)"
    by auto
  obtain b2 p where c2: "rt_table_add_offset R ID b1 = (b2, p)" by fastforce
  have "ID \<notin> fst ` set (fs @ [?t])" using assms(4,6) by simp
  from table_add_offset [OF q1(2) assms(5) this c2] obtain q2 where q2: "p = Some q2"
    "frames b2 = Table_frame n (fs @ [?t, (ID, FB_inline (replicate 4 0))]) # st"
    "object b1 \<subseteq>\<^sub>m object b2" "place b2 q2 = Some (Suc (length fs))" by auto
  have h2: "holds (Table_frame n (fs @ [?t, (ID, FB_inline (replicate 4 0))]) # st) H b2"
    by (rule holds_step [OF holds_step [OF assms(1) q1(3) refl] q2(3,2)])
  have start: "wp dg (union_add R ID (ty, r)) Q b \<longleftrightarrow> (case rt_store R q1 [of_nat ty] b2 of None \<Rightarrow> dg
      | Some b3 \<Rightarrow> Q 0 (rt_store_ref R q2 r b3))"
    using assms(3) c1 c2 q1(1) q2(1) holds_nonnull [OF assms(1,2)]
    by (simp add: union_add_def split: option.split)
  show ?thesis
  proof (cases "rt_store R q1 [of_nat ty] b2")
    case None
    then have "\<not> stores_last R" unfolding stores_last_def by blast
    with start assms(8) None show ?thesis by simp
  next
    case (Some b3)
    then have p1: "place b2 q1 = Some (length fs)"
      using short_lived [OF q1(4,2) _ c2, of "[of_nat ty]"] by simp
    from store [OF q2(2) p1, of "ID - 1" "[0]" "[of_nat ty]"] Some have s3:
      "frames b3 = Table_frame n (fs @ [(ID - 1, FB_inline [of_nat ty]), (ID, FB_inline (replicate 4 0))]) # st"
      "object b2 \<subseteq>\<^sub>m object b3" "place b3 = place b2" by auto
    have h3: "holds (Table_frame n (fs @ [(ID - 1, FB_inline [of_nat ty]), (ID, FB_inline (replicate 4 0))]) # st) H b3"
      by (rule holds_step [OF h2 s3(2,1)])
    have "place b3 q2 = Some (Suc (length fs))" using q2(4) s3(3) by simp
    from store_ref [OF s3(1) this, of ID "replicate 4 0" r x] holds_nonnull [OF h3 assms(2)] holds_step [OF h3]
    have "holds (Table_frame n (fs @ [(ID - 1, FB_inline [of_nat ty]), (ID, FB_ref x)]) # st) H (rt_store_ref R q2 r b3)"
      by (simp add: nth_append list_update_append)
    with start Some assms(9) show ?thesis by simp
  qed
qed

lemma vec_start_wp [wp_rules]:
  assumes "holds st H b" "st \<noteq> []" and "\<And>b'. holds (Offsets_frame [] # st) H b' \<Longrightarrow> Q 0 b'"
  shows "wp dg (offset_vec_start R) Q b"
proof -
  obtain b' rc where c: "rt_start_offset_vector R b = (b', rc)" by fastforce
  have "frames b \<noteq> []" "frames b = st" using assms(1,2) by (simp_all add: holds_def)
  with start_vector [OF this(1) c] holds_step [OF assms(1)] c assms(3) show ?thesis
    by (auto simp: offset_vec_start_def)
qed

lemma vec_push_wp [wp_rules]:
  assumes "holds (Offsets_frame xs # st) H b" "(r, x) \<in> H"
    and "\<And>b' p. holds (Offsets_frame (xs @ [x]) # st) H b' \<Longrightarrow> Q p b'"
  shows "wp dg (offset_vec_push R r) Q b"
proof -
  obtain b' p where c: "rt_offset_vector_push R r b = (b', p)" by fastforce
  have f: "frames b = Offsets_frame xs # st" using assms(1) by (simp add: holds_def)
  from push [OF f _ c, of x] holds_nonnull [OF assms(1,2)] holds_step [OF assms(1)] c assms(3) show ?thesis
    by (simp add: offset_vec_push_def)
qed

lemma vec_end_wp [wp_rules]:
  assumes "holds (Offsets_frame xs # st) H b" and "\<And>r b'. holds st (insert (r, FB_offsets xs) H) b' \<Longrightarrow> Q r b'"
  shows "wp dg (offset_vec_end R) Q b"
proof -
  obtain b' r where c: "rt_end_offset_vector R b = (b', r)" by fastforce
  have f: "frames b = Offsets_frame xs # st" using assms(1) by (simp add: holds_def)
  from end_vector [OF f c] holds_step [OF assms(1), of b' st] c assms(2) show ?thesis
    by (simp add: offset_vec_end_def holds_insert)
qed

lemma start_as_root_wp [wp_rules]:
  assumes "holds [] H b" and "\<And>b'. holds [Table_frame n [], Buffer_frame] H b' \<Longrightarrow> Q 0 b'"
  shows "wp dg (start_as_root R fid (table_start R n)) Q b"
proof -
  obtain b' rc where c: "rt_start_buffer R fid b = (b', rc)" by fastforce
  have "frames b = []" using assms(1) by (simp add: holds_def)
  from start_buffer [OF this c] have rc: "rc = 0" and h: "holds [Buffer_frame] H b'"
    using holds_step [OF assms(1)] by auto
  have "wp dg (table_start R n) Q b'" by (rule table_start_wp [OF h]) (simp, erule assms(2))
  then show ?thesis by (simp add: start_as_root_def buffer_start_def c rc)
qed

lemma end_as_root_wp [wp_rules]:
  assumes "holds [Table_frame n fs, Buffer_frame] H b" "set req \<subseteq> fst ` set fs"
    and "\<And>r b'. frames b' = [] \<Longrightarrow> root b' = Some (FB_table fs) \<Longrightarrow> Q r b'"
  shows "wp dg (end_as_root R (table_end R req)) Q b"
  unfolding end_as_root_def wp_then
proof (rule table_end_wp [OF assms(1,2)])
  fix r b'
  assume h: "holds [Buffer_frame] (insert (r, FB_table fs) H) b'"
  obtain b2 r2 where c: "rt_end_buffer R r b' = (b2, r2)" by fastforce
  from h have "frames b' = [Buffer_frame]" "object b' r = Some (FB_table fs)" by (simp_all add: holds_def)
  from end_buffer [OF this c] c assms(3) show "wp dg (buffer_end R r) Q b'" by (simp add: buffer_end_def)
qed

lemma add_string_wp [wp_rules]:
  assumes "holds (Table_frame n fs # st) H b" "cstr s" "ID < n" "ID \<notin> fst ` set fs"
    and "\<And>b'. holds (Table_frame n (fs @ [text_field ID s]) # st) H b' \<Longrightarrow> Q 0 b'"
  shows "wp dg (add_string R (offset_add R ID) s) Q b"
  unfolding add_string_def wp_then
proof (rule string_wp [OF assms(1) _ assms(2)])
  fix r b'
  assume h: "holds (Table_frame n fs # st) (insert (r, FB_string (text_bytes s)) H) b'"
  show "wp dg (offset_add R ID r) Q b'"
  proof (rule offset_add_wp [OF h insertI1 assms(3,4)])
    fix b2
    assume "holds (Table_frame n (fs @ [(ID, FB_ref (FB_string (text_bytes s)))]) # st)
      (insert (r, FB_string (text_bytes s)) H) b2"
    then show "Q 0 b2" by (intro assms(5)) (auto simp: text_field_def elim: holds_less)
  qed
qed simp

lemma fst_opt_field [simp]: "ID \<noteq> i \<Longrightarrow> ID \<notin> fst ` set (opt_field i f)" "fst (text_field i s) = i"
  by (auto simp: opt_field_def text_field_def split: option.splits)

section \<open>The responses\<close>

lemmas builder_defs =
  Response_User_start_def Response_User_end_def Response_User_required_def Response_User_username_add_def [abs_def]
  Response_User_firstName_add_def [abs_def] Response_User_lastName_add_def [abs_def]
  Response_CheckContract_start_def Response_CheckContract_end_def Response_CheckContract_required_def
  Response_CheckContract_id_add_def Response_CheckContract_name_add_def [abs_def]
  Response_CheckContract_description_add_def [abs_def] Response_CheckContract_price_add_def
  Response_CheckContract_attachment_add_def [abs_def] Response_CheckContract_status_add_def
  Response_CheckContract_created_at_add_def Response_CheckContract_by_user_add_def [abs_def]

lemma build_user_wp [wp_rules]:
  assumes "holds st H b" "st \<noteq> []" "user_wf u" and "\<And>r b'. holds st (insert (r, user_obj u) H) b' \<Longrightarrow> Q r b'"
  shows "wp dg (build_user R u) Q b"
  using assms(1-3) unfolding build_user_def builder_defs wp_then user_wf_def
  by (elim conjE) (erule wp_rules | simp | rule assms(4), simp add: user_obj_def)+

lemma build_description_wp [wp_rules]:
  assumes "holds (Table_frame n fs # st) H b" "\<forall>s. d = Some s \<longrightarrow> cstr s" "2 < n" "2 \<notin> fst ` set fs"
    and "\<And>b'. holds (Table_frame n (fs @ opt_field 2 (opt_text d)) # st) H b' \<Longrightarrow> Q 0 b'"
  shows "wp dg (build_description R d) Q b"
proof (cases d)
  case None
  with assms(1,5) show ?thesis by (simp add: build_description_def opt_field_def opt_text_def)
next
  case (Some s)
  with add_string_wp [OF assms(1) _ assms(3,4), of s Q] assms(2,5) show ?thesis
    by (simp add: build_description_def builder_defs opt_field_def opt_text_def text_field_def)
qed

lemma build_attachment_wp [wp_rules]:
  assumes "holds (Table_frame n fs # st) H b" "4 < n" "4 \<notin> fst ` set fs"
    and "\<And>b'. holds (Table_frame n (fs @ opt_field 4 (opt_bytes a)) # st) H b' \<Longrightarrow> Q 0 b'"
  shows "wp dg (build_attachment R a) Q b"
proof (cases a)
  case None
  with assms(1,4) show ?thesis by (simp add: build_attachment_def opt_field_def opt_bytes_def)
next
  case (Some v)
  have "wp dg (build_then (uint8_vec_create R v) (offset_add R 4)) Q b"
    unfolding wp_then
  proof (rule bytes_wp [OF assms(1)])
    fix r b'
    assume h: "holds (Table_frame n fs # st) (insert (r, FB_bytes v) H) b'"
    show "wp dg (offset_add R 4 r) Q b'"
      by (rule offset_add_wp [OF h insertI1 assms(2,3)], rule assms(4))
        (auto simp: Some opt_field_def opt_bytes_def elim: holds_less)
  qed simp
  with Some show ?thesis by (simp add: build_attachment_def builder_defs)
qed

lemma length_scalars [simp]:
  "length (bool_bytes v) = 1" "length (uint8_bytes k) = 1" "length (int64_bytes w) = 8" "length (double_bytes d) = 8"
  by (simp_all add: bool_bytes_def uint8_bytes_def int64_bytes_def double_bytes_def le_bytes_def)

lemmas contract_parts = id_field_def detail_fields_def user_field_def

lemma build_row_wp [wp_rules]:
  assumes "holds st H b" "st \<noteq> []" "contract_wf c" and "\<And>r b'. holds st (insert (r, row_obj c) H) b' \<Longrightarrow> Q r b'"
  shows "wp dg (build_row R c) Q b"
  using assms(1-3) unfolding build_row_def builder_defs wp_then contract_wf_def
  by (elim conjE) (erule wp_rules | rule insertI1 | simp add: image_Un del: One_nat_def
    | rule assms(4), erule holds_less, auto simp: row_obj_def contract_parts)+

lemma build_requested_wp [wp_rules]:
  assumes "holds st H b" "st \<noteq> []" "contract_wf c" and "\<And>r b'. holds st (insert (r, requested_obj c) H) b' \<Longrightarrow> Q r b'"
  shows "wp dg (build_requested R c) Q b"
  using assms(1-3) unfolding build_requested_def builder_defs wp_then contract_wf_def
  by (elim conjE) (erule wp_rules | rule insertI1 | simp add: image_Un del: One_nat_def
    | rule assms(4), erule holds_less, auto simp: requested_obj_def contract_parts)+

end

end
