(* ===== verification/Fb_Answers.thy ===== *)
theory Fb_Answers
  imports Fb_Build
begin

text \<open>
  The answers of the handlers, call by call: the rules of \<open>Fb_Build\<close> execute every sequence of builder
  calls, and what is left in the buffer is the object of the response.
\<close>

context flatcc_builder
begin

section \<open>Tables built by one call\<close>

lemmas union_defs = Response_MessageType_as_Login_def Response_MessageType_as_Register_def
  Response_MessageType_as_GetMe_def Response_MessageType_as_EditMe_def Response_MessageType_as_RequestContract_def
  Response_MessageType_as_ListContracts_def Response_MessageType_as_CheckContract_def

text \<open>A table with one reference, as four of the values are.\<close>

lemma single_ref_wp:
  assumes "holds st H b" "st \<noteq> []" "(r, x) \<in> H"
    and "\<And>r' b'. holds st (insert (r', FB_table [(0, FB_ref x)]) H) b' \<Longrightarrow> Q r' b'"
  shows "wp dg (table_create [table_start R 1, offset_add R 0 r] (table_end R [0])) Q b"
  using assms(1-3) unfolding table_create_def wp_then wp_any_failed
  by - (erule wp_rules | simp | rule assms(4), erule holds_less)+

text \<open>The generated functions with that table.\<close>

lemma single_ref_creates:
  "Response_Login_create R r = table_create [table_start R 1, offset_add R 0 r] (table_end R [0])"
  "Response_Register_create R r = table_create [table_start R 1, offset_add R 0 r] (table_end R [0])"
  "Response_EditMe_create R r = table_create [table_start R 1, offset_add R 0 r] (table_end R [0])"
  "Response_RequestContract_create R r = table_create [table_start R 1, offset_add R 0 r] (table_end R [0])"
  "Response_ListContracts_create R r = table_create [table_start R 1, offset_add R 0 r] (table_end R [0])"
  by (simp_all only: Response_Login_create_def Response_Login_start_def Response_Login_token_add_def
    Response_Login_end_def Response_Login_required_def Response_Register_create_def Response_Register_start_def
    Response_Register_token_add_def Response_Register_end_def Response_Register_required_def
    Response_EditMe_create_def Response_EditMe_start_def Response_EditMe_token_add_def
    Response_EditMe_end_def Response_EditMe_required_def Response_RequestContract_create_def
    Response_RequestContract_start_def Response_RequestContract_result_add_def Response_RequestContract_end_def
    Response_RequestContract_required_def Response_ListContracts_create_def Response_ListContracts_start_def
    Response_ListContracts_contracts_add_def Response_ListContracts_end_def Response_ListContracts_required_def)

lemmas get_me_defs = table_create_def Response_GetMe_create_def Response_GetMe_start_def
  Response_GetMe_username_add_def Response_GetMe_password_add_def Response_GetMe_firstName_add_def
  Response_GetMe_lastName_add_def Response_GetMe_admin_add_def Response_GetMe_end_def Response_GetMe_required_def

section \<open>The values\<close>

lemma build_rows_wp [wp_rules]:
  assumes "holds (Offsets_frame xs # st) H b" "\<forall>c \<in> set cs. contract_wf c"
    and "\<And>b'. holds (Offsets_frame (xs @ map row_obj cs) # st) H b' \<Longrightarrow> Q () b'"
  shows "wp dg (build_rows R cs) Q b"
  using assms
proof (induction cs arbitrary: xs b)
  case (Cons c cs)
  show ?case
    unfolding build_rows.simps wp_then Response_CheckContract_vec_push_def
  proof (rule build_row_wp [OF Cons.prems(1)])
    fix r b'
    assume h: "holds (Offsets_frame xs # st) (insert (r, row_obj c) H) b'"
    show "wp dg (offset_vec_push R r) (\<lambda>_. wp dg (build_rows R cs) Q) b'"
      by (rule vec_push_wp [OF h insertI1], rule Cons.IH, erule holds_less, blast)
        (use Cons.prems(2,3) in auto)
  qed (use Cons.prems(2) in auto)
qed simp

text \<open>\<open>builds body m\<close>: inside an open construction, \<open>body\<close> completes the object of \<open>m\<close> and returns its
  union reference.\<close>

definition builds :: "('b, union_ref) build \<Rightarrow> response_body \<Rightarrow> bool" where
  "builds body m \<longleftrightarrow> (\<forall>dg st H b Q. holds st H b \<longrightarrow> st \<noteq> [] \<longrightarrow>
     (\<forall>r b'. holds st (insert (r, body_obj m) H) b' \<longrightarrow> Q (body_type m, r) b') \<longrightarrow> wp dg body Q b)"

lemma builds_wp:
  assumes "builds body m" "holds st H b" "st \<noteq> []"
    and "\<And>r b'. holds st (insert (r, body_obj m) H) b' \<Longrightarrow> Q (body_type m, r) b'"
  shows "wp dg body Q b"
  using assms unfolding builds_def by blast

lemma builds_intro:
  assumes "\<And>dg st H b Q. holds st H b \<Longrightarrow> st \<noteq> [] \<Longrightarrow>
    (\<And>r b'. holds st (insert (r, body_obj m) H) b' \<Longrightarrow> Q (body_type m, r) b') \<Longrightarrow> wp dg body Q b"
  shows "builds body m"
  unfolding builds_def using assms by simp

lemma builds_single_ref:
  assumes "\<And>dg st H b Q. holds st H b \<Longrightarrow> st \<noteq> [] \<Longrightarrow>
      (\<And>r b'. holds st (insert (r, x) H) b' \<Longrightarrow> Q r b') \<Longrightarrow> wp dg part Q b"
    and "body_obj m = FB_table [(0, FB_ref x)]" "body_type m = ty"
  shows "builds (build_then (build_then part (\<lambda>r. table_create [table_start R 1, offset_add R 0 r] (table_end R [0])))
    (\<lambda>r. build_return (ty, r))) m"
proof (rule builds_intro, unfold wp_then wp_return)
  fix dg st H b Q
  assume h: "holds st H b" "st \<noteq> []" and q: "\<And>r b'. holds st (insert (r, body_obj m) H) b' \<Longrightarrow> Q (body_type m, r) b'"
  show "wp dg part (\<lambda>r. wp dg (table_create [table_start R 1, offset_add R 0 r] (table_end R [0])) (\<lambda>r. Q (ty, r))) b"
  proof (rule assms(1) [OF h])
    fix r b'
    assume h': "holds st (insert (r, x) H) b'"
    show "wp dg (table_create [table_start R 1, offset_add R 0 r] (table_end R [0])) (\<lambda>r. Q (ty, r)) b'"
      by (rule single_ref_wp [OF h' h(2) insertI1], fold assms(2,3), rule q, erule holds_less, blast)
  qed
qed

lemma builds_token:
  assumes "cstr t"
  shows "builds (build_login R t) (Res_Login t)" "builds (build_register R t) (Res_Register t)"
    "builds (build_edit_me R t) (Res_EditMe t)"
  unfolding build_login_def build_register_def build_edit_me_def single_ref_creates union_defs
  by (rule builds_single_ref, erule string_wp, assumption, rule assms, assumption, simp add: text_field_def, simp)+

lemma builds_get_me:
  assumes "body_wf (Res_GetMe m)"
  shows "builds (build_get_me R m) (Res_GetMe m)"
proof (rule builds_intro)
  fix dg st H b Q
  assume "holds st H b" "st \<noteq> []"
    and q: "\<And>r b'. holds st (insert (r, body_obj (Res_GetMe m)) H) b' \<Longrightarrow> Q (body_type (Res_GetMe m), r) b'"
  with assms show "wp dg (build_get_me R m) Q b"
    unfolding build_get_me_def get_me_defs wp_then wp_any_failed union_defs body_wf.simps
    by (elim conjE) (erule wp_rules | rule insertI1 | rule insertI2 | simp
      | rule q [simplified], erule holds_less, force simp: me_obj_def text_field_def)+
qed

lemma builds_check_contract:
  assumes "contract_wf c"
  shows "builds (build_check_contract R c) (Res_CheckContract c)"
  unfolding build_check_contract_def union_defs
  by (rule builds_intro) (simp add: build_row_wp assms)

lemma builds_request_contract:
  assumes "contract_wf c"
  shows "builds (build_request_contract R c) (Res_RequestContract c)"
  unfolding build_request_contract_def single_ref_creates union_defs
  by (rule builds_single_ref, erule build_requested_wp, assumption, rule assms, assumption, simp, simp)

lemma builds_list_contracts:
  assumes "\<forall>c \<in> set cs. contract_wf c"
  shows "builds (build_list_contracts R cs) (Res_ListContracts cs)"
proof -
  have "builds (build_then (build_then (and_next (offset_vec_start R) (and_next (build_rows R cs) (offset_vec_end R)))
      (\<lambda>r. table_create [table_start R 1, offset_add R 0 r] (table_end R [0]))) (\<lambda>r. build_return (6, r)))
      (Res_ListContracts cs)"
    by (rule builds_single_ref [where x = "FB_offsets (map row_obj cs)"], unfold wp_then, erule vec_start_wp, assumption, erule build_rows_wp, rule assms,
      erule vec_end_wp, simp_all)
  then show ?thesis
    by (simp add: builds_def build_list_contracts_def single_ref_creates union_defs
      Response_CheckContract_vec_start_def Response_CheckContract_vec_end_def)
qed

section \<open>The message\<close>

lemmas message_defs =
  Response_Message_start_as_root_def Response_Message_start_def Response_Message_end_as_root_def
  Response_Message_end_def Response_Message_required_def Response_Message_error_add_def
  Response_Message_errorDescription_create_str_def Response_Message_errorDescription_add_def [abs_def]
  Response_Message_msg_add_def

text \<open>What is left when the root is complete.\<close>

definition complete :: "response \<Rightarrow> 'b \<Rightarrow> bool" where
  "complete a b \<longleftrightarrow> frames b = [] \<and> root b = Some (message_obj a)"

lemma build_error_wp:
  assumes "holds [] H b" "cstr d"
  shows "wp dg (build_error R d) (\<lambda>_. complete (error_response d)) b"
  using assms unfolding build_error_def message_defs wp_then
  by - (erule wp_rules | rule insertI1 | simp add: image_Un
    | simp add: complete_def message_obj_def error_response_def opt_field_def opt_text_def stored_def value_fields_def)+

lemma build_value_wp:
  assumes "builds body m" "holds [Table_frame 4 [], Buffer_frame] H b" "dg \<or> stores_last R"
  shows "wp dg (build_value R body) (\<lambda>_. complete (ok_response m)) b"
  unfolding build_value_def wp_then message_defs
proof (rule builds_wp [OF assms(1,2)])
  fix r b'
  assume h: "holds [Table_frame 4 [], Buffer_frame] (insert (r, body_obj m) H) b'"
  have "wp dg (union_add R 1 (body_type m, r)) (\<lambda>_. wp dg (end_as_root R (table_end R [])) (\<lambda>_. complete (ok_response m))) b'"
    by (rule union_add_wp [OF h insertI1 body_type_range(1)], simp_all add: assms(3), erule end_as_root_wp)
      (simp_all add: complete_def message_obj_def ok_response_def opt_field_def opt_text_def stored_def value_fields_def)
  then show "wp dg (union_add R 1 (body_type m, r)) (\<lambda>r. wp dg (end_as_root R (table_end R [])) (\<lambda>_. complete (ok_response m))) b'" .
qed simp

lemma build_ok_wp:
  assumes "builds body m" "holds [] H b" "dg \<or> stores_last R"
  shows "wp dg (build_ok R body) (\<lambda>_. complete (ok_response m)) b"
    "wp dg (build_ok_unflagged R body) (\<lambda>_. complete (ok_response m)) b"
proof -
  show "wp dg (build_ok R body) (\<lambda>_. complete (ok_response m)) b"
    using assms(2) unfolding build_ok_def message_defs wp_then
    by - (erule wp_rules | simp add: opt_field_def stored_def | erule build_value_wp [OF assms(1) _ assms(3)])+
  show "wp dg (build_ok_unflagged R body) (\<lambda>_. complete (ok_response m)) b"
    using assms(2) unfolding build_ok_unflagged_def message_defs wp_then
    by - (erule wp_rules | erule build_value_wp [OF assms(1) _ assms(3)])+
qed

lemma build_message_wp:
  assumes "body_wf m" "holds [] H b" "dg \<or> stores_last R"
  shows "wp dg (build_message R m) (\<lambda>_. complete (ok_response m)) b"
  using assms by (cases m) (simp_all add: build_ok_wp builds_token builds_get_me builds_request_contract
    builds_list_contracts builds_check_contract)

text \<open>Every answer of a handler is an error with a description or a value without one.\<close>

lemma build_response_wp:
  assumes "response_wf a" "(\<exists>d. a = error_response d) \<or> (\<exists>m. a = ok_response m)" "holds [] H b"
    "r_msg a = None \<or> dg \<or> stores_last R"
  shows "wp dg (build_response R a) (\<lambda>_. complete a) b"
  using assms build_error_wp build_message_wp
  by (auto simp: build_response_def response_wf_def error_response_def ok_response_def)

text \<open>The store of the type of a union comes after another call: it is the only one that may be undefined.\<close>

lemma finished_represents:
  assumes "response_wf a" "(\<exists>d. a = error_response d) \<or> (\<exists>m. a = ok_response m)"
  shows "finished R a = Inl Dangling \<and> r_msg a \<noteq> None \<and> \<not> stores_last R \<or> (\<exists>res. finished R a = Inr res \<and>
    (\<forall>buf. res = Some buf \<longrightarrow> 4 \<le> length buf \<and> represents buf (u32_at buf 0) (message_obj a)))"
proof -
  define dg where "dg \<longleftrightarrow> r_msg a \<noteq> None \<and> \<not> stores_last R"
  have "holds [] {} (rt_init R)" using init by (simp add: holds_def)
  then have w: "wp dg (build_response R a) (\<lambda>_. complete a) (rt_init R)"
    by (rule build_response_wp [OF assms]) (auto simp: dg_def)
  show ?thesis
  proof (cases "build_response R a (rt_init R)")
    case (Inl e)
    with w show ?thesis by (simp add: wp_def finished_def dg_def)
  next
    case (Inr br)
    with w obtain b r where b: "build_response R a (rt_init R) = Inr (b, r)" "frames b = []" "root b = Some (message_obj a)"
      by (cases br) (simp add: wp_def complete_def)
    with finalize [OF b(2,3)] show ?thesis by (simp add: finished_def)
  qed
qed

theorem finished_read_back:
  assumes "response_wf a" "(\<exists>d. a = error_response d) \<or> (\<exists>m. a = ok_response m)"
  shows "finished R a = Inl Dangling \<and> r_msg a \<noteq> None \<and> \<not> stores_last R \<or>
    (\<exists>res. finished R a = Inr res \<and> (\<forall>buf. res = Some buf \<longrightarrow> read_response buf = Inr (response_sent a)))"
  using finished_represents [OF assms] read_response_obj [OF _ _ assms(1)] by blast

end

end
