(* ===== verification/Fb_Encoder.thy ===== *)
theory Fb_Encoder
  imports Fb_Answers
begin

text \<open>
  A builder runtime that meets the contract \<open>flatcc_builder\<close>: frames and completed objects are kept as
  values, and the last call lays the root out in bytes. It shows that the contract can be met,
  for every response whose tables and offsets fit the format.
\<close>

section \<open>Laying out objects\<close>

text \<open>A slot of a table or of an offset vector: bytes stored in place, or a child with its bytes. The
  children follow the slots in the same order; \<open>a\<close> bytes of earlier children are skipped.\<close>

type_synonym slot = "u8 list + u8 list"

fun slot_size :: "slot \<Rightarrow> nat" where
  "slot_size (Inl bs) = length bs"
| "slot_size (Inr c) = 4"

fun child_bytes :: "slot \<Rightarrow> u8 list" where
  "child_bytes (Inl bs) = []"
| "child_bytes (Inr c) = c"

definition slots_size :: "slot list \<Rightarrow> nat" where
  "slots_size ss = sum_list (map slot_size ss)"

definition children :: "slot list \<Rightarrow> u8 list" where
  "children ss = concat (map child_bytes ss)"

fun slot_bytes :: "nat \<Rightarrow> slot \<Rightarrow> u8 list" where
  "slot_bytes d (Inl bs) = bs"
| "slot_bytes d (Inr c) = le_bytes 4 d"

fun slots_bytes :: "nat \<Rightarrow> slot list \<Rightarrow> u8 list" where
  "slots_bytes a [] = []"
| "slots_bytes a (s # ss) = slot_bytes (slot_size s + slots_size ss + a) s @ slots_bytes (a + length (child_bytes s)) ss"

text \<open>The place of a field: its first occurrence, from \<open>b\<close> on; 0 for an absent field.\<close>

fun entry :: "nat \<Rightarrow> (nat \<times> slot) list \<Rightarrow> nat \<Rightarrow> nat" where
  "entry b [] ID = 0"
| "entry b ((i, s) # fs) ID = (if i = ID then b else entry (b + slot_size s) fs ID)"

definition vtable_slots :: "(nat \<times> slot) list \<Rightarrow> nat" where
  "vtable_slots fs = foldr (\<lambda>f n. max (Suc (fst f)) n) fs 0"

text \<open>A table: the distance to its vtable, the vtable, the slots, the children.\<close>

definition slots_start :: "(nat \<times> slot) list \<Rightarrow> nat" where
  "slots_start fs = 8 + 2 * vtable_slots fs"

definition inline_size :: "(nat \<times> slot) list \<Rightarrow> nat" where
  "inline_size fs = slots_start fs + slots_size (map snd fs)"

definition vtable_bytes :: "(nat \<times> slot) list \<Rightarrow> u8 list" where
  "vtable_bytes fs = le_bytes 2 (4 + 2 * vtable_slots fs) @ le_bytes 2 (inline_size fs) @
     concat (map (\<lambda>ID. le_bytes 2 (entry (slots_start fs) fs ID)) [0..<vtable_slots fs])"

definition table_bytes :: "(nat \<times> slot) list \<Rightarrow> u8 list" where
  "table_bytes fs = le_bytes 4 (2 ^ 32 - 4) @ vtable_bytes fs @ slots_bytes 0 (map snd fs) @ children (map snd fs)"

definition table_fits :: "(nat \<times> slot) list \<Rightarrow> bool" where
  "table_fits fs \<longleftrightarrow> distinct (map fst fs) \<and> inline_size fs < 2 ^ 16 \<and> length (table_bytes fs) < 2 ^ 32"

definition offsets_bytes :: "slot list \<Rightarrow> u8 list" where
  "offsets_bytes ss = le_bytes 4 (length ss) @ slots_bytes 0 ss @ children ss"

lemma nested_size:
  "x \<in> set xs \<Longrightarrow> size x < Suc (size_list size xs)"
  "(p :: nat \<times> fb_field) \<in> set fs \<Longrightarrow> size (snd p) < Suc (size_list (size_prod (\<lambda>x. 0) size) fs)"
proof -
  show "x \<in> set xs \<Longrightarrow> size x < Suc (size_list size xs)"
    by (simp add: less_Suc_eq_le size_list_estimation')
  assume "p \<in> set fs"
  then have "size_prod (\<lambda>x. 0) size p \<le> size_list (size_prod (\<lambda>x. 0) size) fs"
    by (rule size_list_estimation') simp
  then show "size (snd p) < Suc (size_list (size_prod (\<lambda>x. 0) size) fs)" by (cases p) simp
qed

function encode :: "fb_obj \<Rightarrow> u8 list" and slot_of :: "fb_field \<Rightarrow> slot" where
  "encode (FB_string s) = le_bytes 4 (length s) @ s @ [0]"
| "encode (FB_bytes bs) = le_bytes 4 (length bs) @ bs"
| "encode (FB_offsets xs) = offsets_bytes (map (\<lambda>x. Inr (encode x)) xs)"
| "encode (FB_table fs) = table_bytes (map (\<lambda>f. (fst f, slot_of (snd f))) fs)"
| "slot_of (FB_inline bs) = Inl bs"
| "slot_of (FB_ref x) = Inr (encode x)"
  by pat_completeness auto

termination
  by (relation "measure (case_sum size size)") (simp_all add: nested_size)

text \<open>The limits of the format: 16 bits for the places in a table, 32 bits for offsets and lengths.\<close>

function fits :: "fb_obj \<Rightarrow> bool" and field_fits :: "fb_field \<Rightarrow> bool" where
  "fits (FB_string s) \<longleftrightarrow> length s < 2 ^ 32"
| "fits (FB_bytes bs) \<longleftrightarrow> length bs < 2 ^ 32"
| "fits (FB_offsets xs) \<longleftrightarrow> list_all id (map (\<lambda>x. fits x) xs) \<and> length (encode (FB_offsets xs)) < 2 ^ 32"
| "fits (FB_table fs) \<longleftrightarrow> list_all id (map (\<lambda>f. field_fits (snd f)) fs) \<and>
     table_fits (map (\<lambda>f. (fst f, slot_of (snd f))) fs)"
| "field_fits (FB_inline bs) \<longleftrightarrow> True"
| "field_fits (FB_ref x) \<longleftrightarrow> fits x"
  by pat_completeness auto

termination
  by (relation "measure (case_sum size size)") (simp_all add: nested_size)

section \<open>Bytes in a buffer\<close>

lemma bytes_at_append: "bytes_at buf p (xs @ ys) \<longleftrightarrow> bytes_at buf p xs \<and> bytes_at buf (p + length xs) ys"
proof -
  have "drop (p + length xs) buf = drop (length xs) (drop p buf)" by (simp add: add.commute)
  then show ?thesis by (auto simp: bytes_at_def take_add append_eq_append_conv)
qed

lemma bytes_at_length: "bytes_at buf p bs \<Longrightarrow> p + length bs \<le> length buf"
  by (simp add: bytes_at_def)

lemma bytes_at_number:
  "bytes_at buf p (le_bytes 4 v) \<Longrightarrow> v < 2 ^ 32 \<Longrightarrow> u32_at buf p = v"
  "bytes_at buf p (le_bytes 2 v) \<Longrightarrow> v < 2 ^ 16 \<Longrightarrow> u16_at buf p = v"
  by (simp_all add: bytes_at_def u32_at_def u16_at_def le_value_le_bytes)

lemma bytes_at_concat:
  assumes "bytes_at buf p (concat (map f [0..<n]))" "\<And>i. length (f i) = k" "i < n"
  shows "bytes_at buf (p + k * i) (f i)"
proof -
  have len: "length (concat (map f [0..<m])) = k * m" for m
    by (induction m) (simp_all add: assms(2))
  have "[0..<n] = [0..<i] @ i # [Suc i..<n]" using assms(3) by (metis less_imp_le upt_add_eq_append upt_conv_Cons le_add_diff_inverse zero_le add_0)
  with assms(1) have "bytes_at buf p (concat (map f [0..<i]) @ f i @ concat (map f [Suc i..<n]))" by simp
  then show ?thesis by (simp add: bytes_at_append len)
qed

lemma slots_size_simps [simp]:
  "slots_size [] = 0" "slots_size (s # ss) = slot_size s + slots_size ss"
  "slots_size (ss @ ss') = slots_size ss + slots_size ss'"
  by (simp_all add: slots_size_def)

lemma children_simps [simp]:
  "children [] = []" "children (s # ss) = child_bytes s @ children ss"
  "children (ss @ ss') = children ss @ children ss'"
  by (simp_all add: children_def)

lemma length_slot_bytes [simp]: "length (slot_bytes d s) = slot_size s"
  by (cases s) simp_all

lemma length_slots_bytes [simp]: "length (slots_bytes a ss) = slots_size ss"
  by (induction ss arbitrary: a) simp_all

lemma slot_at:
  "bytes_at buf p (slots_bytes a (xs @ s # ys)) \<Longrightarrow>
    bytes_at buf (p + slots_size xs) (slot_bytes (slot_size s + slots_size ys + (a + length (children xs))) s)"
proof (induction xs arbitrary: p a)
  case (Cons x xs)
  then have "bytes_at buf (p + slot_size x) (slots_bytes (a + length (child_bytes x)) (xs @ s # ys))"
    by (simp add: bytes_at_append)
  from Cons.IH [OF this] show ?case by (simp add: algebra_simps)
qed (simp add: bytes_at_append)

lemma child_at:
  assumes "bytes_at buf p (slots_bytes 0 ss @ children ss)" "ss = xs @ Inr c # ys"
    and "slots_size ss + length (children ss) < 2 ^ 32"
  shows "p + slots_size xs + 4 \<le> length buf \<and> bytes_at buf (target buf (p + slots_size xs)) c"
proof -
  let ?q = "p + slots_size xs" and ?d = "4 + slots_size ys + length (children xs)"
  have s: "bytes_at buf p (slots_bytes 0 (xs @ Inr c # ys))"
    and c: "bytes_at buf (p + slots_size ss + length (children xs)) c"
    using assms(1,2) by (simp_all add: bytes_at_append)
  from slot_at [OF s] have q: "bytes_at buf ?q (le_bytes 4 ?d)" by simp
  moreover have "?d < 2 ^ 32" using assms(2,3) by simp
  ultimately have "u32_at buf ?q = ?d" by (rule bytes_at_number)
  then have "target buf ?q = p + slots_size ss + length (children xs)" by (simp add: target_def assms(2))
  with c bytes_at_length [OF q] show ?thesis by simp
qed

section \<open>The encoding represents its object\<close>

lemma entry_found: "ID \<notin> fst ` set xs \<Longrightarrow> entry b (xs @ (ID, s) # ys) ID = b + slots_size (map snd xs)"
  by (induction xs arbitrary: b) auto

lemma entry_absent: "ID \<notin> fst ` set fs \<Longrightarrow> entry b fs ID = 0"
  by (induction fs arbitrary: b) auto

lemma entry_bound: "entry b fs ID \<le> b + slots_size (map snd fs)"
  by (induction b fs ID rule: entry.induct) auto

lemma vtable_slots_less: "(ID, s) \<in> set fs \<Longrightarrow> ID < vtable_slots fs"
  by (induction fs) (auto simp: vtable_slots_def)

lemma length_vtable_bytes [simp]: "length (vtable_bytes fs) = 4 + 2 * vtable_slots fs"
proof -
  have "length (concat (map (\<lambda>ID. le_bytes 2 (e ID)) [0..<n])) = 2 * n" for n e
    by (induction n) simp_all
  then show ?thesis by (simp add: vtable_bytes_def)
qed

lemma table_at:
  assumes "bytes_at buf p (table_bytes fs)" "table_fits fs"
  shows "table_ok buf p" "vt_entry buf p ID = entry (slots_start fs) fs ID"
proof -
  let ?n = "vtable_slots fs" and ?e = "entry (slots_start fs) fs"
  have b: "bytes_at buf p (le_bytes 4 (2 ^ 32 - 4))" "bytes_at buf (p + 4) (vtable_bytes fs)"
    using assms(1) by (simp_all add: table_bytes_def bytes_at_append)
  from bytes_at_number(1) [OF b(1)] have "u32_at buf p = 2 ^ 32 - 4" by simp
  then have vt: "vtable_pos buf p = int (p + 4)" by (simp add: vtable_pos_def signed32_def)
  have size: "4 + 2 * ?n < 2 ^ 16" "?e ID < 2 ^ 16" for ID
    using assms(2) entry_bound [of "slots_start fs" fs ID]
    by (simp_all add: table_fits_def inline_size_def slots_start_def)
  from b(2) have v: "bytes_at buf (p + 4) (le_bytes 2 (4 + 2 * ?n))"
    "bytes_at buf (p + 8) (concat (map (\<lambda>ID. le_bytes 2 (?e ID)) [0..<?n]))"
    unfolding vtable_bytes_def bytes_at_append by (simp_all add: add.commute)
  from bytes_at_number(2) [OF v(1) size(1)] have vsize: "u16_at buf (p + 4) = 4 + 2 * ?n" .
  show "table_ok buf p"
    using bytes_at_length [OF b(2)] by (simp add: table_ok_def vt vsize nat_int del: of_nat_add)
  have "u16_at buf (p + 8 + 2 * ID) = ?e ID" if "ID < ?n" for ID
    using bytes_at_number(2) [OF bytes_at_concat [OF v(2) _ that, of 2] size(2)] by simp
  moreover have "?e ID = 0" if "\<not> ID < ?n"
    using that vtable_slots_less by (intro entry_absent) fastforce
  moreover have "4 + 2 * ?n \<ge> 2 * (ID + 3) \<longleftrightarrow> ID < ?n" by auto
  ultimately show "vt_entry buf p ID = ?e ID"
    by (simp add: vt_entry_def vt vsize nat_int algebra_simps del: of_nat_add)
qed

lemma represents_string: "bytes_at buf p (le_bytes 4 (length s) @ s @ [0]) \<Longrightarrow> length s < 2 ^ 32 \<Longrightarrow>
    represents buf p (FB_string s)"
  and represents_bytes: "bytes_at buf p (le_bytes 4 (length bs) @ bs) \<Longrightarrow> length bs < 2 ^ 32 \<Longrightarrow>
    represents buf p (FB_bytes bs)"
proof -
  show "represents buf p (FB_string s)" if "bytes_at buf p (le_bytes 4 (length s) @ s @ [0])" "length s < 2 ^ 32"
    using that bytes_at_number(1) [of buf p "length s"] bytes_at_length [OF that(1)]
    by (intro rep_string) (simp_all add: bytes_at_append)
  show "represents buf p (FB_bytes bs)" if "bytes_at buf p (le_bytes 4 (length bs) @ bs)" "length bs < 2 ^ 32"
    using that bytes_at_number(1) [of buf p "length bs"] bytes_at_length [OF that(1)]
    by (intro rep_bytes) (simp_all add: bytes_at_append)
qed

lemma take_map_size: "slots_size (map (\<lambda>x. Inr (f x)) xs) = 4 * length xs"
  by (induction xs) simp_all

lemma represents_offsets:
  assumes "bytes_at buf p (offsets_bytes (map (\<lambda>x. Inr (f x)) xs))"
    "length (offsets_bytes (map (\<lambda>x. Inr (f x)) xs)) < 2 ^ 32"
    and "\<And>x q. x \<in> set xs \<Longrightarrow> bytes_at buf q (f x) \<Longrightarrow> represents buf q x"
  shows "represents buf p (FB_offsets xs)"
proof -
  let ?g = "\<lambda>x. Inr (f x) :: slot"
  let ?ss = "map ?g xs"
  have b: "bytes_at buf p (le_bytes 4 (length xs))" "bytes_at buf (p + 4) (slots_bytes 0 ?ss @ children ?ss)"
    using assms(1) by (simp_all add: offsets_bytes_def bytes_at_append)
  have size: "slots_size ?ss + length (children ?ss) < 2 ^ 32" using assms(2) by (simp add: offsets_bytes_def)
  have len: "p + 4 + 4 * length xs \<le> length buf" using bytes_at_length [OF b(2)] by (simp add: take_map_size)
  have "length xs < 2 ^ 32" using size by (simp add: take_map_size)
  with bytes_at_number(1) [OF b(1)] have n: "u32_at buf p = length xs" by simp
  show ?thesis
  proof (rule rep_offsets [OF len n])
    fix i
    assume i: "i < length xs"
    from arg_cong [OF id_take_nth_drop [OF i], of "map ?g"]
    have "?ss = map ?g (take i xs) @ Inr (f (xs ! i)) # map ?g (drop (Suc i) xs)" by simp
    from child_at [OF b(2) this size] i have "bytes_at buf (target buf (p + 4 + 4 * i)) (f (xs ! i))"
      by (simp add: take_map_size)
    then show "represents buf (target buf (p + 4 + 4 * i)) (xs ! i)" by (rule assms(3) [OF nth_mem [OF i]])
  qed
qed

lemma represents_table:
  assumes "bytes_at buf p (table_bytes (map (\<lambda>f. (fst f, slot_of (snd f))) fs))"
    "table_fits (map (\<lambda>f. (fst f, slot_of (snd f))) fs)"
    and "\<And>ID x q. (ID, FB_ref x) \<in> set fs \<Longrightarrow> bytes_at buf q (encode x) \<Longrightarrow> represents buf q x"
  shows "represents buf p (FB_table fs)"
proof -
  define g where "g = (\<lambda>f :: nat \<times> fb_field. (fst f, slot_of (snd f)))"
  let ?fs = "map g fs" and ?ss = "map (slot_of \<circ> snd) fs"
  have a: "bytes_at buf p (table_bytes ?fs)" "table_fits ?fs" using assms(1,2) by (simp_all add: g_def)
  have ss: "map snd ?fs = ?ss" "map (snd \<circ> g) fs = ?ss" and ids: "map fst ?fs = map fst fs"
    by (simp_all add: g_def comp_def)
  have keys: "fst ` set (map g xs) = fst ` set xs" for xs by (simp add: g_def image_comp comp_def)
  have b: "bytes_at buf (p + slots_start ?fs) (slots_bytes 0 ?ss @ children ?ss)"
    using a(1) by (simp add: table_bytes_def bytes_at_append slots_start_def ss add.commute add.left_commute)
  have size: "slots_size ?ss + length (children ?ss) < 2 ^ 32" and d: "distinct (map fst fs)"
    using a(2) unfolding table_fits_def ids by (simp_all add: table_bytes_def ss)
  note at = table_at [OF a]
  have place: "\<exists>xs ys. ?ss = xs @ slot_of f # ys \<and> vt_entry buf p ID = slots_start ?fs + slots_size xs"
    if m: "(ID, f) \<in> set fs" for ID f
  proof -
    obtain us vs where fs: "fs = us @ (ID, f) # vs" using split_list [OF m] by blast
    with d have "ID \<notin> fst ` set us" by simp
    then have "ID \<notin> fst ` set (map g us)" unfolding keys .
    from entry_found [OF this, of "slots_start ?fs" "slot_of f" "map g vs"]
    have "vt_entry buf p ID = slots_start ?fs + slots_size (map snd (map g us))" by (simp add: at(2) fs g_def)
    then show ?thesis
      by (intro exI [of _ "map (slot_of \<circ> snd) us"] exI [of _ "map (slot_of \<circ> snd) vs"]) (simp add: fs g_def comp_def)
  qed
  show ?thesis
  proof (rule rep_table [OF at(1)])
    fix ID
    assume "ID \<notin> fst ` set fs"
    then show "vt_entry buf p ID = 0" unfolding at(2) by (intro entry_absent) (simp only: keys not_False_eq_True)
  next
    fix ID bs
    assume "(ID, FB_inline bs) \<in> set fs"
    from place [OF this] obtain xs ys where x: "?ss = xs @ Inl bs # ys"
      "vt_entry buf p ID = slots_start ?fs + slots_size xs" by auto
    have "bytes_at buf (p + slots_start ?fs) (slots_bytes 0 (xs @ Inl bs # ys))"
      using b unfolding x(1) bytes_at_append by blast
    from slot_at [OF this] x(2) show "vt_entry buf p ID \<noteq> 0 \<and> bytes_at buf (p + vt_entry buf p ID) bs"
      by (simp add: slots_start_def add.assoc)
  next
    fix ID x
    assume m: "(ID, FB_ref x) \<in> set fs"
    from place [OF this] obtain xs ys where x: "?ss = xs @ Inr (encode x) # ys"
      "vt_entry buf p ID = slots_start ?fs + slots_size xs" by auto
    from child_at [OF b x(1) size] x(2) assms(3) [OF m]
    show "vt_entry buf p ID \<noteq> 0 \<and> p + vt_entry buf p ID + 4 \<le> length buf \<and>
        represents buf (target buf (p + vt_entry buf p ID)) x"
      by (simp add: slots_start_def add.assoc)
  qed
qed

lemma encode_represents:
  "bytes_at buf p (encode x) \<Longrightarrow> fits x \<Longrightarrow> represents buf p x"
  "\<forall>y. f = FB_ref y \<longrightarrow> (\<forall>p. bytes_at buf p (encode y) \<longrightarrow> field_fits f \<longrightarrow> represents buf p y)"
proof (induction x and f arbitrary: p)
  case (FB_string s)
  then show ?case by (simp add: represents_string)
next
  case (FB_bytes bs)
  then show ?case by (simp add: represents_bytes)
next
  case (FB_offsets xs)
  from FB_offsets.prems show ?case
    by (intro represents_offsets [where f = encode] FB_offsets.IH) (auto simp: list_all_iff)
next
  case (FB_table fs)
  have "represents buf q x" if "(ID, FB_ref x) \<in> set fs" "bytes_at buf q (encode x)" for ID x q
    using FB_table.IH [OF that(1)] FB_table.prems(2) that by (force simp: list_all_iff)
  with FB_table.prems show ?case by (intro represents_table) simp_all
qed simp_all

section \<open>The runtime\<close>

record builder_state =
  bs_frames :: "frame list"
  bs_objects :: "fb_obj list" \<comment> \<open>the reference \<open>r\<close> is the entry \<open>r - 1\<close>\<close>
  bs_root :: "fb_obj option"
  bs_sized :: "fb_obj option" \<comment> \<open>the root of a buffer with a size prefix\<close>

definition bs_object :: "builder_state \<Rightarrow> nat \<Rightarrow> fb_obj option" where
  "bs_object b r = (if 0 < r \<and> r \<le> length (bs_objects b) then Some (bs_objects b ! (r - 1)) else None)"

definition bs_push :: "frame \<Rightarrow> builder_state \<Rightarrow> builder_state" where
  "bs_push f b = b\<lparr>bs_frames := f # bs_frames b\<rparr>"

definition bs_new :: "fb_obj \<Rightarrow> builder_state \<Rightarrow> builder_state \<times> nat" where
  "bs_new x b = (b\<lparr>bs_objects := bs_objects b @ [x]\<rparr>, Suc (length (bs_objects b)))"

definition bs_pop :: "builder_state \<Rightarrow> builder_state" where
  "bs_pop b = b\<lparr>bs_frames := tl (bs_frames b)\<rparr>"

text \<open>The fields of the open table, and an operation on them.\<close>

definition bs_fields :: "builder_state \<Rightarrow> (nat \<times> fb_field) list" where
  "bs_fields b = (case bs_frames b of Table_frame n fs # _ \<Rightarrow> fs | _ \<Rightarrow> [])"

definition bs_update :: "((nat \<times> fb_field) list \<Rightarrow> (nat \<times> fb_field) list) \<Rightarrow> builder_state \<Rightarrow> builder_state" where
  "bs_update g b =
     (case bs_frames b of Table_frame n fs # st \<Rightarrow> b\<lparr>bs_frames := Table_frame n (g fs) # st\<rparr> | _ \<Rightarrow> b)"

definition bs_add :: "nat \<Rightarrow> fb_field \<Rightarrow> builder_state \<Rightarrow> builder_state \<times> nat option" where
  "bs_add ID f b = (bs_update (\<lambda>fs. fs @ [(ID, f)]) b, Some (length (bs_fields b)))"

definition bs_set :: "nat \<Rightarrow> fb_field \<Rightarrow> builder_state \<Rightarrow> builder_state" where
  "bs_set p f = bs_update (\<lambda>fs. fs[p := (fst (fs ! p), f)])"

definition bs_items :: "builder_state \<Rightarrow> fb_obj list" where
  "bs_items b = (case bs_frames b of Slots_frame xs # _ \<Rightarrow> map the xs | _ \<Rightarrow> [])"

definition list_runtime :: "builder_state builder_runtime" where
  "list_runtime =
     \<lparr>rt_init = \<lparr>bs_frames = [], bs_objects = [], bs_root = None, bs_sized = None\<rparr>,
      rt_start_buffer = (\<lambda>fid b. (bs_push Buffer_frame b, 0)),
      rt_end_buffer = (\<lambda>r b.
        if bs_frames b = [Sized_frame] then ((bs_pop b)\<lparr>bs_root := None, bs_sized := bs_object b r\<rparr>, r)
        else ((bs_pop b)\<lparr>bs_root := bs_object b r, bs_sized := None\<rparr>, r)),
      rt_start_table = (\<lambda>n b. (bs_push (Table_frame n []) b, 0)),
      rt_check_required = (\<lambda>ids b. set ids \<subseteq> fst ` set (bs_fields b)),
      rt_end_table = (\<lambda>b. bs_new (FB_table (bs_fields b)) (bs_pop b)),
      rt_table_add = (\<lambda>ID sz al. bs_add ID (FB_inline (replicate sz 0))),
      rt_table_add_offset = (\<lambda>ID. bs_add ID (FB_inline (replicate 4 0))),
      rt_store = (\<lambda>p v b. Some (bs_set p (FB_inline v) b)),
      rt_store_ref = (\<lambda>p r b. case bs_object b r of None \<Rightarrow> b | Some x \<Rightarrow> bs_set p (FB_ref x) b),
      rt_create_string_str = (\<lambda>s. bs_new (FB_string (text_bytes s))),
      rt_create_vector = (\<lambda>data sz al. bs_new (FB_bytes data)),
      rt_start_offset_vector = (\<lambda>b. (bs_push (Offsets_frame []) b, 0)),
      rt_offset_vector_push = (\<lambda>r b.
        case (bs_object b r, bs_frames b) of
          (Some x, Slots_frame xs # st) \<Rightarrow> (b\<lparr>bs_frames := Slots_frame (xs @ [Some x]) # st\<rparr>, Some (length xs))
        | _ \<Rightarrow> (b, None)),
      rt_end_offset_vector = (\<lambda>b. bs_new (FB_offsets (bs_items b)) (bs_pop b)),
      rt_finalize_aligned_buffer = (\<lambda>b.
        case bs_root b of
          Some x \<Rightarrow> if fits x then Some (le_bytes 4 4 @ encode x) else None
        | None \<Rightarrow>
            (case bs_sized b of
               Some x \<Rightarrow>
                 if fits x \<and> length (encode x) + 4 < 2 ^ 32
                 then Some (le_bytes 4 (length (encode x) + 4) @ le_bytes 4 4 @ encode x) else None
             | None \<Rightarrow> None))\<rparr>"

text \<open>A pointer is the index of a field.\<close>

definition bs_place :: "builder_state \<Rightarrow> nat \<Rightarrow> nat option" where
  "bs_place b p = (if p < length (bs_fields b) then Some p else None)"

lemma bs_place_iff: "bs_place b p = Some k \<longleftrightarrow> p = k \<and> k < length (bs_fields b)"
  by (auto simp: bs_place_def)

lemma bs_place_set:
  "bs_frames b = Table_frame n fs # st \<Longrightarrow> bs_place (b\<lparr>bs_frames := Table_frame n (fs[k := f]) # st\<rparr>) = bs_place b"
  by (simp add: fun_eq_iff bs_place_def bs_fields_def)

lemma encode_finalized: "fits x \<Longrightarrow> represents (le_bytes 4 4 @ encode x) (u32_at (le_bytes 4 4 @ encode x) 0) x"
proof -
  assume x: "fits x"
  have "u32_at (le_bytes 4 4 @ encode x) 0 = 4"
    by (rule bytes_at_number(1)) (simp_all add: bytes_at_def)
  moreover have "bytes_at (le_bytes 4 4 @ encode x) 4 (encode x)" by (simp add: bytes_at_def)
  ultimately show ?thesis using encode_represents(1) x by simp
qed

lemmas runtime_defs = list_runtime_def bs_push_def bs_pop_def bs_add_def bs_set_def bs_update_def bs_fields_def
  bs_items_def

interpretation built: flatcc_builder list_runtime bs_frames bs_object bs_place bs_root
proof unfold_locales
  fix b b' r r' x n fs st
  show "bs_object b 0 = None" by (simp add: bs_object_def)
  show "bs_frames (rt_init list_runtime) = []" by (simp add: list_runtime_def)
next
  show "4 \<le> length buf \<and> represents buf (u32_at buf 0) x"
    if "bs_frames b = []" "bs_root b = Some x" "rt_finalize_aligned_buffer list_runtime b = Some buf" for b x buf
    using that encode_finalized [of x] by (auto simp: list_runtime_def split: if_splits)
qed (auto simp: bs_place_iff bs_place_set runtime_defs bs_new_def map_le_def bs_object_def nth_append list_update_append split: option.splits frame.splits list.splits)

lemma list_runtime_last: "stores_last list_runtime"
  by (simp add: stores_last_def list_runtime_def)

text \<open>Every response that fits the format is finished.\<close>

lemma list_runtime_finished:
  assumes "response_wf a" "(\<exists>d. a = error_response d) \<or> (\<exists>m. a = ok_response m)"
  shows "finished list_runtime a =
    Inr (if fits (message_obj a) then Some (le_bytes 4 4 @ encode (message_obj a)) else None)"
proof -
  have "built.holds [] {} (rt_init list_runtime)" by (simp add: built.holds_def list_runtime_def)
  from built.build_response_wp [OF assms this, of False] obtain b r where
    b: "build_response list_runtime a (rt_init list_runtime) = Inr (b, r)" "bs_root b = Some (message_obj a)"
    by (auto simp: wp_False built.complete_def list_runtime_last)
  then show ?thesis by (simp add: finished_def) (simp add: list_runtime_def)
qed

section \<open>Properties\<close>

definition sample_contract :: contract_info where
  "sample_contract = \<lparr>ci_id = 7, ci_name = ''roof'', ci_description = Some ''new tiles'', ci_price = Fin False 5 1,
     ci_attachment = Some [1, 2, 3], ci_status = 2, ci_created_at = 1000,
     ci_by_user = \<lparr>ui_username = ''bob'', ui_firstName = ''B'', ui_lastName = ''C''\<rparr>\<rparr>"

definition sample_answer :: response where
  "sample_answer = ok_response (Res_ListContracts [sample_contract, sample_contract])"

lemma sample_answer_fits: "fits (message_obj sample_answer)"
  by (simp add: sample_answer_def sample_contract_def message_obj_def ok_response_def opt_field_def opt_text_def
    opt_bytes_def stored_def value_fields_def row_obj_def built.contract_parts user_obj_def text_field_def text_bytes_def
    double_eq_def minus_one_def table_fits_def inline_size_def slots_start_def vtable_slots_def table_bytes_def
    offsets_bytes_def status_Processing_def)

text \<open>C21: the sequence of generated builder calls that a handler makes for its answer runs without a
  failing assertion, every required field set and every frame closed, and the finished buffer,
  if the runtime yields one, is read back by the generated readers as the answer, the price in
  canonical form. The one exception is an answer with a value: the type of the union is stored
  after a call that need not leave the pointer valid, which is undefined with a runtime that does not.\<close>

theorem response_read_back:
  assumes "flatcc_builder B frames object place root"
    and "response_wf a" "(\<exists>d. a = error_response d) \<or> (\<exists>m. a = ok_response m)"
  shows "finished B a = Inl Dangling \<and> r_msg a \<noteq> None \<and> \<not> stores_last B \<or>
    (\<exists>res. finished B a = Inr res \<and> (\<forall>buf. res = Some buf \<longrightarrow> read_response buf = Inr (response_sent a)))"
  by (rule flatcc_builder.finished_read_back [OF assms])

theorem response_read_back_witness:
  "\<exists>buf. finished list_runtime sample_answer = Inr (Some buf) \<and> read_response buf = Inr (response_sent sample_answer)"
proof -
  have a: "response_wf sample_answer" "\<exists>m. sample_answer = ok_response m"
    by (auto simp: sample_answer_def sample_contract_def response_wf_def contract_wf_def user_wf_def wf_double_def)
  then have "finished list_runtime sample_answer = Inr (Some (le_bytes 4 4 @ encode (message_obj sample_answer)))"
    using list_runtime_finished sample_answer_fits by simp
  with response_read_back [OF built.flatcc_builder_axioms, of sample_answer] a list_runtime_last show ?thesis by fastforce
qed

end
