(* ===== verification/Answer_Values.thy ===== *)
theory Answer_Values
  imports Processing Fb_Content
begin

text \<open>
  What a handler can answer: C strings, and prices that are doubles. With a client library
  that returns C strings, every answer is an error with a description or a value, and all its
  parts can be put into a response.
\<close>

section \<open>The range of \<open>atof\<close>\<close>

text \<open>\<open>n / d < 2 ^ (e + 53)\<close>, without fractions.\<close>

definition fits_at :: "int \<Rightarrow> nat \<Rightarrow> nat \<Rightarrow> bool" where
  "fits_at e n d \<longleftrightarrow> (if 0 \<le> e then n < d * 2 ^ nat e * 2 ^ 53 else n * 2 ^ nat (- e) < d * 2 ^ 53)"

definition quotient_at :: "(nat \<Rightarrow> nat \<Rightarrow> nat) \<Rightarrow> int \<Rightarrow> nat \<Rightarrow> nat \<Rightarrow> nat" where
  "quotient_at f e n d = (if 0 \<le> e then f n (d * 2 ^ nat e) else f (n * 2 ^ nat (- e)) d)"

lemma fits_at_iff:
  assumes "0 < d"
  shows "fits_at e n d \<longleftrightarrow> quotient_at (div) e n d < 2 ^ 53"
  using assms by (auto simp: fits_at_def quotient_at_def div_less_iff_less_mult mult.commute mult.left_commute)

lemma fits_at_Suc:
  assumes "fits_at e n d"
  shows "fits_at (e + 1) n d"
proof (cases "0 \<le> e")
  case True
  then have "nat (e + 1) = Suc (nat e)" by simp
  with True assms show ?thesis by (simp add: fits_at_def)
next
  case False
  then obtain k where k: "e = - int (Suc k)" by (metis negD not_le)
  then have "nat (- e) = Suc k" "nat (- (e + 1)) = k" by simp_all
  with k assms show ?thesis by (cases "k = 0") (simp_all add: fits_at_def mult.commute)
qed

lemma fits_at_mono:
  assumes "fits_at e n d" "e \<le> e'"
  shows "fits_at e' n d"
proof -
  obtain k where "e' = e + int k" using assms(2) zle_iff_zadd by blast
  moreover have "fits_at (e + int k) n d" for k
  proof (induction k)
    case (Suc k)
    from fits_at_Suc [OF this] show ?case by (simp add: algebra_simps)
  qed (use assms(1) in simp)
  ultimately show ?thesis by blast
qed

lemma fits_above:
  assumes "0 < n" "0 < d"
  shows "fits_at (int (bit_len n) - int (bit_len d) - 52) n d"
proof -
  from bit_len_bounds [OF assms(1)] have n: "n < 2 ^ bit_len n" by simp
  from bit_len_bounds [OF assms(2)] obtain j where j: "bit_len d = Suc j" "2 ^ j \<le> d"
    using gr0_implies_Suc by force
  let ?e = "int (bit_len n) - int (bit_len d) - 52"
  show ?thesis
  proof (cases "0 \<le> ?e")
    case True
    then have "bit_len n = j + nat ?e + 53" by (simp add: j(1))
    then have "(2::nat) ^ bit_len n = 2 ^ (j + nat ?e + 53)" by (rule arg_cong)
    then have "(2::nat) ^ bit_len n = 2 ^ j * 2 ^ nat ?e * 2 ^ 53" unfolding power_add .
    with n have "n < 2 ^ j * 2 ^ nat ?e * 2 ^ 53" by (simp only:)
    also have "\<dots> \<le> d * 2 ^ nat ?e * 2 ^ 53" using j(2) by simp
    finally show ?thesis using True by (simp add: fits_at_def)
  next
    case False
    then have "bit_len n + nat (- ?e) = j + 53" by (simp add: j(1))
    then have "(2::nat) ^ bit_len n * 2 ^ nat (- ?e) = 2 ^ j * 2 ^ 53" by (simp only: power_add [symmetric])
    moreover have "n * 2 ^ nat (- ?e) < 2 ^ bit_len n * 2 ^ nat (- ?e)" using n by simp
    moreover have "(2::nat) ^ j * 2 ^ 53 \<le> d * 2 ^ 53" using j(2) by simp
    ultimately have "n * 2 ^ nat (- ?e) < d * 2 ^ 53" by linarith
    with False show ?thesis by (simp add: fits_at_def)
  qed
qed

lemma round_double_parts:
  assumes "0 < n" "0 < d"
  obtains e m where "round_double s n d =
      (if m = 2 ^ 53 then (if e + 1 > 971 then Inf s else Fin s (2 ^ 52) (e + 1))
       else (if e > 971 then Inf s else Fin s m e))" "m \<le> 2 ^ 53" "- 1074 \<le> e"
proof -
  define e0 where "e0 = int (bit_len n) - int (bit_len d) - 53"
  define e1 where "e1 = (if quotient_at (div) e0 n d \<ge> 2 ^ 53 then e0 + 1 else e0)"
  define e where "e = max e1 (- 1074)"
  define m where "m = quotient_at round_div e n d"
  have above: "fits_at (e0 + 1) n d" using fits_above [OF assms] by (simp add: e0_def algebra_simps)
  have "fits_at e1 n d"
  proof (cases "quotient_at (div) e0 n d \<ge> 2 ^ 53")
    case True
    then show ?thesis using above by (simp only: e1_def if_True)
  next
    case False
    then show ?thesis using fits_at_iff [OF assms(2), of e0 n] by (simp add: e1_def)
  qed
  then have "fits_at e n d" by (rule fits_at_mono) (simp add: e_def)
  then have "quotient_at (div) e n d < 2 ^ 53" using fits_at_iff [OF assms(2)] by simp
  moreover have "m \<le> quotient_at (div) e n d + 1"
    using round_div_le by (simp add: m_def quotient_at_def)
  ultimately have "m \<le> 2 ^ 53" by simp
  moreover have "- 1074 \<le> e" by (simp add: e_def)
  moreover have "round_double s n d =
      (if m = 2 ^ 53 then (if e + 1 > 971 then Inf s else Fin s (2 ^ 52) (e + 1))
       else (if e > 971 then Inf s else Fin s m e))"
    unfolding m_def e_def e1_def e0_def quotient_at_def round_double_def Let_def
    by (simp only: assms(1) [THEN less_imp_neq, symmetric] if_False)
  ultimately show ?thesis using that by blast
qed

lemma wf_round_double:
  assumes "0 < d"
  shows "wf_double (round_double s n d)"
proof (cases "n = 0")
  case False
  with assms have "0 < n" by simp
  from round_double_parts [OF this assms] obtain e m where "round_double s n d =
      (if m = 2 ^ 53 then (if e + 1 > 971 then Inf s else Fin s (2 ^ 52) (e + 1))
       else (if e > 971 then Inf s else Fin s m e))" "m \<le> 2 ^ 53" "- 1074 \<le> e" by metis
  then show ?thesis by (auto simp: wf_double_def)
qed (simp add: round_double_def wf_double_def)

lemma wf_double_if: "wf_double x \<Longrightarrow> wf_double y \<Longrightarrow> wf_double (if c then x else y)"
  by simp

lemma wf_double_let: "(\<And>x. wf_double (f x)) \<Longrightarrow> wf_double (let x = v in f x)"
  by simp

lemma wf_atof [simp]: "wf_double (atof t)"
  unfolding atof_def by (intro wf_double_let wf_double_if wf_round_double) (simp_all add: wf_double_def)

section \<open>The answers\<close>

text \<open>What the functions of the client library return are C strings.\<close>

definition result_strings :: "pgresult \<Rightarrow> bool" where
  "result_strings res \<longleftrightarrow> cstr (PQresultErrorMessage res) \<and>
     (\<forall>row \<in> set (PQtuples res). \<forall>cell \<in> set row. \<forall>s. cell = Some s \<longrightarrow> cstr s)"

definition client_strings :: "'w env \<Rightarrow> bool" where
  "client_strings E \<longleftrightarrow> (\<forall>w q. result_strings (snd (e_exec E w q))) \<and>
     (\<forall>w q ps. result_strings (snd (e_execParams E w q ps)))"

lemma client_stringsD:
  "client_strings E \<Longrightarrow> e_exec E w q = (w', res) \<Longrightarrow> result_strings res"
  "client_strings E \<Longrightarrow> e_execParams E w q ps = (w', res) \<Longrightarrow> result_strings res"
  unfolding client_strings_def by (metis snd_conv)+

definition answer_ok :: "response \<Rightarrow> bool" where
  "answer_ok a \<longleftrightarrow> response_wf a \<and> ((\<exists>d. a = error_response d) \<or> (\<exists>m. a = ok_response m))"

lemma answer_okI [intro]:
  "cstr d \<Longrightarrow> answer_ok (error_response d)" "body_wf m \<Longrightarrow> answer_ok (ok_response m)"
  by (auto simp: answer_ok_def response_wf_def)

lemma cell_cstr:
  assumes "result_strings res" "deref (PQgetvalue res i j) = Inr s"
  shows "cstr s"
proof -
  from assms(2) have "i < length (PQtuples res)" "j < length (PQtuples res ! i)"
    "s = (case PQtuples res ! i ! j of None \<Rightarrow> [] | Some v \<Rightarrow> v)"
    by (auto simp: PQgetvalue_def deref_def split: if_splits)
  with assms(1) show ?thesis
    by (cases "PQtuples res ! i ! j") (auto simp: result_strings_def, metis nth_mem)
qed

lemma error_cstr: "result_strings res \<Longrightarrow> cstr (PQresultErrorMessage res)"
  by (simp add: result_strings_def)

lemma c_read_cstr: "c_read m = Inr s \<Longrightarrow> cstr s"
  using c_str_SomeD(1) [of m s] by (auto simp: c_read_def split: option.splits)

lemma encoded_cstr: "encoded b = Inr s \<Longrightarrow> cstr s"
  by (auto simp: encoded_def deref_def b64_encode_def Let_def b64_loop_safe split: if_splits)

text \<open>\<open>yields P m\<close>: an answer that \<open>m\<close> gives satisfies \<open>P\<close>.\<close>

definition yields :: "('a \<Rightarrow> bool) \<Rightarrow> 'a outcome \<Rightarrow> bool" where
  "yields P m \<longleftrightarrow> (\<forall>x. m = Inr x \<longrightarrow> P x)"

named_theorems yields_rules

lemma yields_return [yields_rules]: "P x \<Longrightarrow> yields P (Inr x)"
  by (simp add: yields_def)

lemma yields_and_then [yields_rules]: "(\<And>x. m = Inr x \<Longrightarrow> yields P (f x)) \<Longrightarrow> yields P (and_then m f)"
  by (auto simp: yields_def and_then_Inr_iff)

lemma yields_bind: "yields P m \<Longrightarrow> (\<And>x. P x \<Longrightarrow> yields Q (f x)) \<Longrightarrow> yields Q (and_then m f)"
  by (auto simp: yields_def and_then_Inr_iff)

lemma yields_if [yields_rules]: "(c \<Longrightarrow> yields P m) \<Longrightarrow> (\<not> c \<Longrightarrow> yields P m') \<Longrightarrow> yields P (if c then m else m')"
  by simp

lemma yields_prod [yields_rules]: "(\<And>w r. p = (w, r) \<Longrightarrow> yields P (f w r)) \<Longrightarrow> yields P (case p of (w, r) \<Rightarrow> f w r)"
  by (cases p) simp

lemma yields_result:
  assumes "client_strings E"
  shows "(\<And>w' res. result_strings res \<Longrightarrow> yields P (f w' res)) \<Longrightarrow> yields P (case e_exec E w q of (w', res) \<Rightarrow> f w' res)"
    "(\<And>w' res. result_strings res \<Longrightarrow> yields P (f w' res)) \<Longrightarrow>
      yields P (case e_execParams E w q ps of (w', res) \<Rightarrow> f w' res)"
  using client_stringsD [OF assms] by (auto split: prod.split)

lemma yieldsD: "yields P m \<Longrightarrow> m = Inr x \<Longrightarrow> P x"
  by (simp add: yields_def)

abbreviation answers_ok :: "('w \<times> response) outcome \<Rightarrow> bool" where
  "answers_ok \<equiv> yields (\<lambda>(w, a). answer_ok a)"

lemmas answer_facts = cell_cstr error_cstr c_read_cstr encoded_cstr

lemma login_answers: "client_strings E \<Longrightarrow> answers_ok (login E salt w r)"
  unfolding login_def Let_def
  by (intro yields_result yields_rules) (auto intro!: answer_okI intro: answer_facts)

lemma register_answers: "client_strings E \<Longrightarrow> answers_ok (register E salt w r)"
  unfolding register_def Let_def
  by (intro yields_result yields_rules) (auto intro!: answer_okI intro: answer_facts)

lemma get_me_answers: "client_strings E \<Longrightarrow> answers_ok (get_me E w r)"
  unfolding get_me_def
  by (intro yields_result yields_rules) (auto intro!: answer_okI intro: answer_facts)

lemma edit_me_answers: "client_strings E \<Longrightarrow> answers_ok (edit_me E salt w r)"
  unfolding edit_me_def Let_def
  by (intro yields_result yields_rules) (auto intro!: answer_okI intro: answer_facts)

lemma row_values: "result_strings res \<Longrightarrow> yields contract_wf (contract_of_row E res i)"
  unfolding contract_of_row_def
  by (intro yields_rules) (auto simp: contract_wf_def user_wf_def and_then_Inr_iff split: if_splits intro: answer_facts)

lemma rows_values: "result_strings res \<Longrightarrow> yields (\<lambda>cs. \<forall>c \<in> set cs. contract_wf c) (contracts_of_rows E res is)"
  using row_values by (induction "is") (fastforce intro!: yields_rules dest: yieldsD)+

lemma row_contract:
  "result_strings res \<Longrightarrow> contracts_of_rows E res is = Inr cs \<Longrightarrow> c \<in> set cs \<Longrightarrow> contract_wf c"
  using yieldsD [OF rows_values] by blast

lemma check_contract_answers: "client_strings E \<Longrightarrow> answers_ok (check_contract E w r)"
  unfolding check_contract_def Let_def
  by (intro yields_result yields_rules) (auto intro!: answer_okI intro: answer_facts yieldsD [OF row_values])

lemma list_contracts_answers:
  assumes E: "client_strings E"
  shows "answers_ok (list_contracts E w r)"
proof -
  have list: "answers_ok (and_then m (\<lambda>(w, res).
      if PQresultStatus res \<noteq> PGRES_TUPLES_OK then Inr (w, error_response (PQresultErrorMessage res))
      else and_then (contracts_of_rows E res [0..<PQntuples res]) (\<lambda>cs. Inr (w, ok_response (Res_ListContracts cs)))))"
    if "yields (\<lambda>(w, res). result_strings res) m" for m :: "('a \<times> pgresult) outcome"
    by (rule yields_bind [OF that], clarify, intro yields_rules)
      (auto intro!: answer_okI intro: answer_facts row_contract)
  have "yields (\<lambda>(w, res). result_strings res) (if c then Inr (e_exec E w q)
      else and_then m (\<lambda>user_id. Inr (e_execParams E w q' [user_id])))" for c w q q' m
    using client_stringsD [OF E] by (intro yields_rules) (auto split: prod.split)
  note all = list [OF this]
  show ?thesis
    unfolding list_contracts_def list_answer_def
  proof (intro yields_result(2) [OF E] yields_if)
    fix w :: 'a and res
    show "answers_ok (and_then (deref (PQgetvalue res 0 0)) (\<lambda>id0. and_then (deref (PQgetvalue res 0 1)) (\<lambda>is_admin.
      and_then (if first_char is_admin = CHR ''t'' then Inr (e_exec E w SQL_list_all)
          else and_then (c_read (strncpy (calloc 128) id0 128)) (\<lambda>user_id. Inr (e_execParams E w SQL_list_own [user_id])))
        (\<lambda>(w, res). if PQresultStatus res \<noteq> PGRES_TUPLES_OK then Inr (w, error_response (PQresultErrorMessage res))
          else and_then (contracts_of_rows E res [0..<PQntuples res]) (\<lambda>cs. Inr (w, ok_response (Res_ListContracts cs)))))))"
      by (rule yields_and_then, rule yields_and_then, rule all)
  qed (auto simp: yields_def intro!: answer_okI intro: answer_facts)
qed

lemma contract_reply_answers:
  assumes "request_wf (Req_RequestContract r)" "result_strings (snd wr)"
  shows "answers_ok (contract_reply r u f l t wr)"
  using assms unfolding contract_reply_def
  by (cases wr; intro yields_rules)
    (auto simp: contract_wf_def user_wf_def intro!: answer_okI intro: answer_facts)

lemma request_contract_answers:
  assumes E: "client_strings E" and r: "request_wf (Req_RequestContract r)"
  shows "answers_ok (request_contract E w r)"
proof -
  have reply: "answers_ok (contract_reply r u f l t (e_exec E w q))" for u f l t w q
    by (rule contract_reply_answers [OF r]) (use E in \<open>simp add: client_strings_def\<close>)
  show ?thesis
    unfolding request_contract_def contract_insert_def Let_def
    by (intro yields_result [OF E] yields_rules reply) (auto intro!: answer_okI intro: answer_facts)
qed

theorem dispatch_answers:
  assumes "client_strings E" "request_wf req" "dispatch E salt w req = Inr (w', Some a)"
  shows "answer_ok a"
proof -
  have y: "answer_ok a" if "answers_ok m" "with_response m = Inr (w', Some a)" for m
    using that by (auto simp: with_response_def and_then_Inr_iff dest: yieldsD)
  show ?thesis
    using assms(1,2) login_answers register_answers get_me_answers edit_me_answers check_contract_answers
      list_contracts_answers request_contract_answers
    by (cases req; intro y [of _]) (use assms(3) in \<open>auto simp del: request_wf.simps\<close>)
qed

end
