(* ===== verification/Exchange.thy ===== *)
theory Exchange
  imports Delivery Fb_Encoder Answer_Values
begin

text \<open>
  A whole exchange: the generated verifiers and readers on the request, the handler, the builder
  calls that its answer stands for, the chunks that are written, and the generated readers of the
  response on the client's side.
\<close>

section \<open>The codec with the generated builders\<close>

definition built_reply :: "'b builder_runtime \<Rightarrow> response \<Rightarrow> u8 list option" where
  "built_reply B a = (case finished B a of Inl e \<Rightarrow> None | Inr res \<Rightarrow> res)"

abbreviation full_codec :: "verifier \<Rightarrow> 'b builder_runtime \<Rightarrow> codec" where
  "full_codec V B \<equiv> generated_codec V (built_reply B)"

lemma full_codec_simps [simp]:
  "fb_verify (full_codec V B) = Message_verify_as_root V" "fb_message (full_codec V B) = read_message"
  "fb_finalize (full_codec V B) = built_reply B"
  by (simp_all add: generated_codec_def)

lemma full_codec_root [simp]: "fb_as_root (full_codec V B) buf"
  by (auto simp: generated_codec_def Message_as_root_def read_root_def has_identifier_def Message_identifier_def
    and_then_Inr_iff)

section \<open>How a transaction ends\<close>

definition chunk_count :: "u8 list \<Rightarrow> nat" where
  "chunk_count out = max 1 ((length out + 2030) div 2031)"

text \<open>It crashes, however often it is called back; or the first writable callback closes the
  connection with no byte of a body sent; or one callback per chunk has written \<open>out\<close>.\<close>

definition crashes_with ::
  "'w env \<Rightarrow> codec \<Rightarrow> string \<Rightarrow> lws_results \<Rightarrow> u8 list list \<Rightarrow> 'w \<Rightarrow> ub \<Rightarrow> bool" where
  "crashes_with E C salt R body w e \<longleftrightarrow>
     (\<forall>n. run_callbacks E C salt (transaction R body n) (w, Some fresh_pss) = Inl e)"

definition closes_unanswered ::
  "'w env \<Rightarrow> codec \<Rightarrow> string \<Rightarrow> lws_results \<Rightarrow> u8 list list \<Rightarrow> 'w \<Rightarrow> 'w \<Rightarrow> bool" where
  "closes_unanswered E C salt R body w w' \<longleftrightarrow>
     (\<exists>p. run_callbacks E C salt (transaction R body 1) (w, Some fresh_pss) =
        Inr ((w', Some p), [Send_headers, Callback_on_writable], replicate (length body + 2) 0 @ [-1]))"

definition delivers ::
  "'w env \<Rightarrow> codec \<Rightarrow> string \<Rightarrow> lws_results \<Rightarrow> u8 list list \<Rightarrow> 'w \<Rightarrow> 'w \<Rightarrow> u8 list \<Rightarrow> bool" where
  "delivers E C salt R body w w' out \<longleftrightarrow>
     (\<exists>p acts. run_callbacks E C salt (transaction R body (chunk_count out)) (w, Some fresh_pss) =
        Inr ((w', Some p), acts, replicate (length body + 2 + chunk_count out) 0) \<and> payload acts = out)"

lemma run_undefined:
  assumes "concat body \<noteq> []" "lws_ok R" "process E C salt w (received_pss body) = Inl e"
  shows "crashes_with E C salt R body w e"
  using completion_after_body [OF assms(1), of E C salt R w, unfolded assms(3)] assms(2)
  by (simp add: crashes_with_def transaction_def run_callbacks_append run_body_callbacks on_http_def lws_ok_def)

lemma run_without_reply:
  assumes "concat body \<noteq> []" "lws_ok R" "process E C salt w (received_pss body) = Inr (w', p)" "pss_out_data p = None"
  shows "closes_unanswered E C salt R body w w'"
  using completion_after_body [OF assms(1), of E C salt R w, unfolded assms(3)] assms(2,4)
  by (simp add: closes_unanswered_def transaction_def run_callbacks_append run_body_callbacks on_http_def lws_ok_def
    replicate_append_same)

lemma run_with_reply:
  assumes "concat body \<noteq> []" "lws_ok R" "process E C salt w (received_pss body) = Inr (w', store_response C a (received_pss body))"
    "fb_finalize C a = Some out"
  shows "delivers E C salt R body w w' out"
  using transaction_run [OF assms(1-3), of out] assms(4)
  by (simp add: delivers_def received_pss_def fresh_pss_def payload_write_calls concat_chunks length_chunks chunk_count_def)

lemma process_received:
  assumes "fb_verify C (received body) = 0" "fb_as_root C (received body)" "fb_message C (received body) = Inr req"
  shows "process E C salt w (received_pss body) = and_then (dispatch E salt w req) (\<lambda>(w, reply).
    Inr (w, case reply of None \<Rightarrow> received_pss body | Some a \<Rightarrow> store_response C a (received_pss body)))"
proof -
  have buf: "take (pss_data_len (received_pss body)) (received body) = received body"
    "pss_data (received_pss body) = Some (received body)"
    by (simp_all add: received_pss_def received_def)
  then show ?thesis using assms by (simp add: process_def)
qed

lemma answer_finished:
  assumes "flatcc_builder B frames object place root" "client_strings E" "request_wf req"
    and "dispatch E salt w req = Inr (w', Some a)"
  shows "finished B a = Inl Dangling \<and> r_msg a \<noteq> None \<and> \<not> stores_last B \<or>
    (\<exists>res. finished B a = Inr res \<and> (\<forall>buf. res = Some buf \<longrightarrow> read_response buf = Inr (response_sent a)))"
proof -
  have "answer_ok a" by (rule dispatch_answers [OF assms(2,3,4)])
  with flatcc_builder.finished_read_back [OF assms(1), of a] show ?thesis by (auto simp: answer_ok_def)
qed

section \<open>The exchange\<close>

text \<open>C1: every request that the generated verifier accepts, a union without its value apart, runs to one of
  five ends. Its handler meets undefined behaviour, and so does the session; its type is not
  implemented, or the builder yields no buffer, and the connection is closed unanswered; or, after one
  writable callback per chunk, the bytes sent are a buffer from which the generated readers of the
  client read exactly the handler's answer, prices in canonical form; or the builder calls store a union's type through
  a pointer that the runtime has invalidated, which needs an answer with a message and a runtime that does not keep its
  last pointer beyond the next call (the runtime's header does not promise that it does).\<close>

theorem exchange_completes:
  assumes "flatcc_runtime V" "flatcc_builder B frames object place root" "client_strings E"
    and "concat body \<noteq> []" "lws_ok R" "Message_verify_as_root V (received body) = 0" "\<not> typed_null (received body)"
  shows "\<exists>req. read_message (received body) = Inr req \<and>
    (case dispatch E salt w req of
       Inl e \<Rightarrow> crashes_with E (full_codec V B) salt R body w e
     | Inr (w', None) \<Rightarrow> closes_unanswered E (full_codec V B) salt R body w w'
     | Inr (w', Some a) \<Rightarrow>
         (case finished B a of
            Inl e \<Rightarrow> e = Dangling \<and> r_msg a \<noteq> None \<and> \<not> stores_last B
          | Inr None \<Rightarrow> closes_unanswered E (full_codec V B) salt R body w w'
          | Inr (Some out) \<Rightarrow> delivers E (full_codec V B) salt R body w w' out \<and>
              read_response out = Inr (response_sent a)))"
proof -
  let ?C = "full_codec V B"
  from flatcc_runtime.message_read [OF assms(1,6)] assms(7) obtain req
    where req: "read_message (received body) = Inr req" "request_wf req" by auto
  have pr: "process E ?C salt w (received_pss body) = and_then (dispatch E salt w req) (\<lambda>(w, reply).
      Inr (w, case reply of None \<Rightarrow> received_pss body | Some a \<Rightarrow> store_response ?C a (received_pss body)))"
    by (rule process_received) (simp_all add: assms(6) req(1))
  note ends = run_undefined [OF assms(4,5), of E ?C salt w] run_without_reply [OF assms(4,5), of E ?C salt w]
    run_with_reply [OF assms(4,5), of E ?C salt w]
  have silent: "pss_out_data (received_pss body) = None" by (simp add: received_pss_def fresh_pss_def)
  have answered: "case finished B a of
      Inl e \<Rightarrow> e = Dangling \<and> r_msg a \<noteq> None \<and> \<not> stores_last B
    | Inr None \<Rightarrow> closes_unanswered E ?C salt R body w w'
    | Inr (Some out) \<Rightarrow> delivers E ?C salt R body w w' out \<and> read_response out = Inr (response_sent a)"
    if d: "dispatch E salt w req = Inr (w', Some a)" for w' a
  proof (cases "finished B a")
    case (Inl e)
    with answer_finished [OF assms(2,3) req(2) d] show ?thesis by auto
  next
    case (Inr res)
    then have read: "read_response buf = Inr (response_sent a)" if "res = Some buf" for buf
      using that answer_finished [OF assms(2,3) req(2) d] by auto
    have fin: "fb_finalize ?C a = res" using Inr by (simp add: built_reply_def)
    have "process E ?C salt w (received_pss body) = Inr (w', store_response ?C a (received_pss body))"
      by (simp add: pr d)
    from ends(2,3) [OF this] fin read Inr show ?thesis by (cases res) auto
  qed
  show ?thesis
    using req(1) answered ends(1,2) pr silent
    by (intro exI [of _ req]) (auto split: sum.split option.split)
qed

section \<open>A concrete exchange\<close>

text \<open>A server without rows.\<close>

definition empty_env :: "ref_world env" where
  "empty_env =
     (let res = \<lparr>PQresultStatus = PGRES_TUPLES_OK, PQtuples = [], PQresultErrorMessage = [], PQconstraintName = None\<rparr>
      in ref_env\<lparr>e_exec := \<lambda>w q. (w, res), e_execParams := \<lambda>w q ps. (w, res)\<rparr>)"

lemma empty_env_strings: "client_strings empty_env"
  by (simp add: client_strings_def empty_env_def result_strings_def Let_def)

definition refused_login :: response where
  "refused_login = error_response ''Wrong username or password''"

lemma login_refused:
  "dispatch empty_env ''weak'' w (Req_Login r) = Inr (w, Some refused_login)"
proof -
  have "password_hash empty_env ''weak'' (lg_password r) = password_hash ref_env ''weak'' (lg_password r)"
    by (simp add: password_hash_def empty_env_def Let_def)
  then have "length (password_hash empty_env ''weak'' (lg_password r)) < 2 ^ 62"
    by (simp add: password_hash_def ref_env_def)
  then show ?thesis
    by (simp add: login_def with_response_def empty_env_def Let_def PQntuples_def refused_login_def)
qed

lemma refused_login_finished:
  "finished list_runtime refused_login = Inr (Some (le_bytes 4 4 @ encode (message_obj refused_login)))"
proof -
  have "fits (message_obj refused_login)"
    by (simp add: message_obj_def refused_login_def error_response_def opt_field_def opt_text_def stored_def
      value_fields_def text_bytes_def table_fits_def inline_size_def slots_start_def vtable_slots_def table_bytes_def
      bool_bytes_def)
  with list_runtime_finished [of refused_login] show ?thesis
    by (auto simp: refused_login_def response_wf_def)
qed

theorem exchange_completes_witness:
  "delivers empty_env (full_codec ref_verifier list_runtime) ''weak'' good_lws [login_buffer] ref_start ref_start
     (le_bytes 4 4 @ encode (message_obj refused_login)) \<and>
   read_response (le_bytes 4 4 @ encode (message_obj refused_login)) = Inr refused_login"
proof -
  have r: "received [login_buffer] = login_buffer" by (simp add: received_def login_buffer_def)
  have "concat [login_buffer] \<noteq> []" by (simp add: login_buffer_def)
  from exchange_completes [OF rv.flatcc_runtime_axioms built.flatcc_builder_axioms empty_env_strings this good_lws_ok,
      where salt = "''weak''" and w = ref_start] show ?thesis
    by (simp add: r login_buffer_verified login_buffer_not_null login_buffer_read login_refused [unfolded dispatch.simps] refused_login_finished
      response_sent_def) (simp add: refused_login_def error_response_def)
qed

end
