(* ===== verification/Startup.thy ===== *)
theory Startup
  imports Tt_Prelude
begin

text \<open>
  \<open>main\<close>, \<open>thread_service\<close> and \<open>sigint_handler\<close> of \<open>src/backend/src/main.c\<close>: the command
  line, the start-up sequence with what each failure releases, the service loop. What the
  libraries answer during start-up is a record; the calls with an effect on a resource are
  listed in order; the library's service call is a parameter of the loop. \<open>getopt_long\<close> is represented by the sequence of its results.
\<close>

section \<open>Options\<close>

datatype opt =
    Opt_p string
  | Opt_d string
  | Opt_v
  | Opt_s string
  | Opt_t string
  | Opt_default

record config =
  port :: int
  threads_num :: int
  db_conn_str :: "char list"
  salt_mem :: "char list"
  verbose :: bool

definition EXIT_FAILURE_ARGS :: int where "EXIT_FAILURE_ARGS = 1"
definition EXIT_FAILURE_SERVER_INIT :: int where "EXIT_FAILURE_SERVER_INIT = 2"
definition EXIT_FAILURE_SERVER_INIT_VHOST :: int where "EXIT_FAILURE_SERVER_INIT_VHOST = 4"
definition EXIT_FAILURE_SERVER_INIT_DB :: int where "EXIT_FAILURE_SERVER_INIT_DB = 8"

lemmas exit_code_defs = EXIT_FAILURE_ARGS_def EXIT_FAILURE_SERVER_INIT_def
  EXIT_FAILURE_SERVER_INIT_VHOST_def EXIT_FAILURE_SERVER_INIT_DB_def

definition default_config :: config where
  "default_config =
     \<lparr>port = 8000, threads_num = 8,
      db_conn_str = strncpy (calloc 2048)
        ''user=tomtom password=program_for_food_help host=127.0.0.1 dbname=tomtom'' 2048,
      salt_mem = strncpy (calloc 2048) ''weak'' 2048,
      verbose = False\<rparr>"

text \<open>The conversion \<open>(int)\<close> of a \<open>long\<close>: its low 32 bits.\<close>

definition to_int :: "int \<Rightarrow> int" where
  "to_int v = sint (word_of_int v :: 32 word)"

definition parse_port :: "string \<Rightarrow> int option" where
  "parse_port optarg =
     (case strtol optarg of (v, erange, converted) \<Rightarrow>
        let p = to_int v
        in if \<not> converted \<or> erange \<or> p < 1 \<or> p > 65536 then None else Some p)"

definition parse_threads :: "string \<Rightarrow> int option" where
  "parse_threads optarg =
     (case strtol optarg of (v, erange, converted) \<Rightarrow>
        let n = to_int v
        in if \<not> converted \<or> erange \<or> n < 1 then None else Some n)"

fun apply_option :: "opt \<Rightarrow> config \<Rightarrow> int + config" where
  "apply_option (Opt_p a) c =
     (case parse_port a of None \<Rightarrow> Inl EXIT_FAILURE_ARGS | Some p \<Rightarrow> Inr (c\<lparr>port := p\<rparr>))"
| "apply_option (Opt_d a) c = Inr (c\<lparr>db_conn_str := strncpy (db_conn_str c) a 2048\<rparr>)"
| "apply_option Opt_v c = Inr (c\<lparr>verbose := True\<rparr>)"
| "apply_option (Opt_s a) c = Inr (c\<lparr>salt_mem := strncpy (salt_mem c) a 2048\<rparr>)"
| "apply_option (Opt_t a) c =
     (case parse_threads a of None \<Rightarrow> Inl EXIT_FAILURE_ARGS | Some n \<Rightarrow> Inr (c\<lparr>threads_num := n\<rparr>))"
| "apply_option Opt_default c = Inl EXIT_FAILURE_ARGS"

fun parse_options :: "opt list \<Rightarrow> config \<Rightarrow> int + config" where
  "parse_options [] c = Inr c"
| "parse_options (o1 # os) c =
     (case apply_option o1 c of Inl rc \<Rightarrow> Inl rc | Inr c' \<Rightarrow> parse_options os c')"

section \<open>Start-up\<close>

datatype resource = R_db_conn_str | R_salt | R_pthread_service | R_db_conn | R_result | R_context

datatype sys_action =
    Acquire resource
  | Release resource
  | Create_vhost int \<comment> \<open>the port\<close>
  | Thread_start nat
  | Thread_failed nat
  | Thread_join nat
  | Join_unstarted nat

record startup_answers =
  db_connects :: bool
  schema_created :: bool
  context_created :: bool
  http_vhost_created :: bool
  https_vhost_created :: bool
  service_threads :: nat \<comment> \<open>\<open>lws_get_count_threads\<close>\<close>
  thread_starts :: "nat \<Rightarrow> bool"

text \<open>A thread that cannot be started is only logged. The joins run from the last index down to 0, over
  every index: \<open>pthread_join\<close> gets the zero that \<open>calloc\<close> left in the place of a thread that was not started,
  which POSIX leaves undefined (\<open>Join_unstarted\<close>).\<close>

definition start_threads :: "startup_answers \<Rightarrow> sys_action list" where
  "start_threads A = map (\<lambda>n. if thread_starts A n then Thread_start n else Thread_failed n) [0..<service_threads A]"

definition join_threads :: "startup_answers \<Rightarrow> sys_action list" where
  "join_threads A = map (\<lambda>n. if thread_starts A n then Thread_join n else Join_unstarted n) (rev [0..<service_threads A])"

definition startup :: "bool \<Rightarrow> startup_answers \<Rightarrow> config \<Rightarrow> sys_action list \<times> int" where
  "startup debug A c =
     (let acts = [Acquire R_pthread_service, Acquire R_db_conn, Release R_db_conn_str]
      in if \<not> db_connects A then (acts @ [Release R_salt], EXIT_FAILURE_SERVER_INIT_DB)
         else
           let acts = acts @ [Acquire R_result]
           in if \<not> schema_created A then
                (acts @ [Release R_salt, Release R_result], EXIT_FAILURE_SERVER_INIT_DB)
              else
                let acts = acts @ [Release R_result]
                in if \<not> context_created A then
                     (acts @ [Release R_pthread_service, Release R_salt], EXIT_FAILURE_SERVER_INIT)
                   else
                     let acts = acts @ [Acquire R_context] @
                                (if debug then [Create_vhost (port c - 1)] else [])
                     in if debug \<and> \<not> http_vhost_created A then
                          (acts @ [Release R_context, Release R_pthread_service, Release R_salt],
                           EXIT_FAILURE_SERVER_INIT_VHOST)
                        else
                          let acts = acts @ [Create_vhost (port c)]
                          in if \<not> https_vhost_created A then
                               (acts @ [Release R_context, Release R_pthread_service, Release R_salt],
                                EXIT_FAILURE_SERVER_INIT_VHOST)
                             else
                               (acts @ start_threads A @ join_threads A @
                                [Release R_context, Release R_pthread_service, Release R_salt,
                                 Release R_db_conn], 0))"

text \<open>The two buffers are acquired before the options are read and released by every failing
  option.\<close>

definition main :: "bool \<Rightarrow> startup_answers \<Rightarrow> opt list \<Rightarrow> sys_action list \<times> int" where
  "main debug A opts =
     (let acts = [Acquire R_db_conn_str, Acquire R_salt]
      in case parse_options opts default_config of
           Inl rc \<Rightarrow> (acts @ [Release R_db_conn_str, Release R_salt], rc)
         | Inr c \<Rightarrow> (case startup debug A c of (acts', rc) \<Rightarrow> (acts @ acts', rc)))"

text \<open>The resources still held at the end of a trace.\<close>

fun held :: "sys_action list \<Rightarrow> resource set \<Rightarrow> resource set" where
  "held [] H = H"
| "held (Acquire r # as) H = held as (insert r H)"
| "held (Release r # as) H = held as (H - {r})"
| "held (_ # as) H = held as H"

section \<open>The service loop\<close>

text \<open>\<open>serve\<close> is \<open>lws_service_tsi\<close> on the state of the process, with its result; \<open>interrupted\<close> is the flag that
  \<open>sigint_handler\<close> sets, read when the call has returned. The loop need not end: then the result is \<open>None\<close>.\<close>

partial_function (option) thread_service :: "('p \<Rightarrow> 'p \<times> int) \<Rightarrow> ('p \<Rightarrow> bool) \<Rightarrow> 'p \<Rightarrow> 'p option" where
  "thread_service serve interrupted p =
     (case serve p of (p, rc) \<Rightarrow> if rc \<ge> 0 \<and> \<not> interrupted p then thread_service serve interrupted p else Some p)"

text \<open>The process after a number of calls.\<close>

definition served :: "('p \<Rightarrow> 'p \<times> int) \<Rightarrow> nat \<Rightarrow> 'p \<Rightarrow> 'p" where
  "served serve n = (fst \<circ> serve) ^^ n"

section \<open>Facts\<close>

lemma held_append [simp]: "held (as @ bs) H = held bs (held as H)"
  by (induction as H rule: held.induct) auto

lemma held_threads [simp]:
  "held (start_threads A) H = H" "held (join_threads A) H = H"
proof -
  have "held (map (\<lambda>n. if thread_starts A n then Thread_start n else Thread_failed n) ns) H = H"
    "held (map (\<lambda>n. if thread_starts A n then Thread_join n else Join_unstarted n) ns) H = H" for ns
    by (induction ns) auto
  then show "held (start_threads A) H = H" "held (join_threads A) H = H"
    by (simp_all add: start_threads_def join_threads_def)
qed

lemma to_int_id: "- (2 ^ 31) \<le> i \<Longrightarrow> i < 2 ^ 31 \<Longrightarrow> to_int i = i"
  by (simp add: to_int_def signed_of_int signed_take_bit_int_eq_self)

lemma to_int_wrap: "to_int (i + 2 ^ 32 * k) = to_int i"
proof -
  have "(word_of_int (2 ^ 32 * k) :: 32 word) = 0"
    unfolding word_of_int_eq_0_iff by simp
  then show ?thesis by (simp only: to_int_def of_int_add add_0_right)
qed

lemma to_int_range: "- (2 ^ 31) \<le> to_int i" "to_int i < 2 ^ 31"
  using sint_greater_eq [of "word_of_int i :: 32 word"] sint_less [of "word_of_int i :: 32 word"]
  by (simp_all add: to_int_def)

lemma parse_port_Some:
  "parse_port s = Some p \<longleftrightarrow>
     (\<exists>v. strtol s = (v, False, True) \<and> p = to_int v \<and> 1 \<le> p \<and> p \<le> 65536)"
  by (auto simp: parse_port_def Let_def split: prod.splits if_splits)

lemma parse_port_decimal:
  assumes "long_min \<le> i" "i \<le> long_max"
  shows "parse_port (show_int i) = Some p \<longleftrightarrow> p = to_int i \<and> 1 \<le> p \<and> p \<le> 65536"
  unfolding parse_port_Some strtol_show_int [OF assms] by auto

definition config_ok :: "config \<Rightarrow> bool" where
  "config_ok c \<longleftrightarrow> 1 \<le> port c \<and> port c \<le> 65536 \<and> 1 \<le> threads_num c \<and> threads_num c < 2 ^ 31 \<and>
     length (db_conn_str c) = 2048 \<and> length (salt_mem c) = 2048"

lemma default_config_ok: "config_ok default_config"
  by (simp add: config_ok_def default_config_def calloc_def)

lemma apply_option_ok: "config_ok c \<Longrightarrow> apply_option o1 c = Inr c' \<Longrightarrow> config_ok c'"
  using to_int_range(2)
  by (cases o1)
     (auto simp: config_ok_def parse_port_def parse_threads_def Let_def
        split: option.splits prod.splits if_splits)

lemma parse_options_ok: "config_ok c \<Longrightarrow> parse_options os c = Inr c' \<Longrightarrow> config_ok c'"
  by (induction os arbitrary: c) (auto split: sum.splits dest: apply_option_ok)

lemma parse_options_exit: "parse_options os c = Inl rc \<Longrightarrow> rc = EXIT_FAILURE_ARGS"
proof (induction os arbitrary: c)
  case (Cons o1 os)
  then show ?case by (cases o1) (auto split: option.splits sum.splits)
qed simp

text \<open>The joined threads are the started ones, from the last down; a thread that was not started is
  joined nevertheless.\<close>

lemma joins_of_starts:
  "[n. Thread_join n \<leftarrow> join_threads A] = rev [n. Thread_start n \<leftarrow> start_threads A]"
  "Join_unstarted n \<in> set (join_threads A) \<longleftrightarrow> Thread_failed n \<in> set (start_threads A)"
proof -
  have "[n. Thread_join n \<leftarrow> map (\<lambda>n. if thread_starts A n then Thread_join n else Join_unstarted n) ns] =
      filter (thread_starts A) ns"
    "[n. Thread_start n \<leftarrow> map (\<lambda>n. if thread_starts A n then Thread_start n else Thread_failed n) ns] =
      filter (thread_starts A) ns" for ns
    by (induction ns) auto
  then show "[n. Thread_join n \<leftarrow> join_threads A] = rev [n. Thread_start n \<leftarrow> start_threads A]"
    by (simp add: join_threads_def start_threads_def rev_filter)
qed (auto simp: join_threads_def start_threads_def split: if_splits)

text \<open>The loop returns exactly when some call fails or leaves the flag set, and then in the state after the
  first such call.\<close>

lemma served_Suc: "served serve (Suc n) p = served serve n (fst (serve p))"
  by (simp add: served_def funpow_swap1)

lemma thread_service_runs:
  assumes "\<And>m. m < n \<Longrightarrow> 0 \<le> snd (serve (served serve m p)) \<and> \<not> interrupted (served serve (Suc m) p)"
  shows "thread_service serve interrupted p = thread_service serve interrupted (served serve n p)"
  using assms
proof (induction n arbitrary: p)
  case (Suc n)
  have "0 \<le> snd (serve p)" "\<not> interrupted (fst (serve p))"
    using Suc.prems [of 0] by (simp_all add: served_def)
  then have "thread_service serve interrupted p = thread_service serve interrupted (fst (serve p))"
    by (subst thread_service.simps) (simp add: split_beta)
  also have "\<dots> = thread_service serve interrupted (served serve n (fst (serve p)))"
    by (rule Suc.IH) (use Suc.prems in \<open>simp flip: served_Suc\<close>)
  finally show ?case by (simp add: served_Suc)
qed (simp add: served_def)

lemma thread_service_ends:
  assumes "\<And>m. m < n \<Longrightarrow> 0 \<le> snd (serve (served serve m p)) \<and> \<not> interrupted (served serve (Suc m) p)"
    and "snd (serve (served serve n p)) < 0 \<or> interrupted (served serve (Suc n) p)"
  shows "thread_service serve interrupted p = Some (served serve (Suc n) p)"
proof -
  have "served serve (Suc n) p = fst (serve (served serve n p))" by (simp add: served_def)
  with assms(2) have "thread_service serve interrupted (served serve n p) = Some (served serve (Suc n) p)"
    by (subst thread_service.simps) (auto simp: split_beta)
  moreover have "thread_service serve interrupted p = thread_service serve interrupted (served serve n p)"
    by (rule thread_service_runs) (rule assms(1))
  ultimately show ?thesis by simp
qed

lemma thread_service_stopped:
  assumes "thread_service serve interrupted p = Some p'"
  shows "\<exists>n. p' = served serve (Suc n) p \<and> (snd (serve (served serve n p)) < 0 \<or> interrupted p')"
proof -
  have "\<exists>n. p'' = served serve (Suc n) p \<and> (snd (serve (served serve n p)) < 0 \<or> interrupted p'')"
    if "thread_service serve interrupted p = Some p''" for p''
  proof (induction rule: thread_service.raw_induct [OF _ that])
    case (1 loop serve interrupted p p')
    show ?case
    proof (cases "0 \<le> snd (serve p) \<and> \<not> interrupted (fst (serve p))")
      case True
      with 1(2) have "loop serve interrupted (fst (serve p)) = Some p'" by (simp add: split_beta)
      from 1(1) [OF this] obtain n where "p' = served serve (Suc n) (fst (serve p))"
        "snd (serve (served serve n (fst (serve p)))) < 0 \<or> interrupted p'" by blast
      then show ?thesis by (intro exI [of _ "Suc n"]) (simp add: served_Suc)
    next
      case False
      with 1(2) show ?thesis by (intro exI [of _ 0]) (auto simp: split_beta served_def split: if_splits)
    qed
  qed
  then show ?thesis using assms .
qed

section \<open>Properties\<close>

text \<open>The port option, given as the decimal text of a \<open>long\<close>: it is accepted exactly when
  its low 32 bits, as a signed number, lie between 1 and 65536. So 65536 itself, which is no
  port, is accepted, and so is every value that is a multiple of \<open>2 ^ 32\<close> away from a port.\<close>

theorem port_option:
  assumes "long_min \<le> i" "i \<le> long_max"
  shows "parse_port (show_int i) =
    (if \<exists>k. 1 \<le> i - 2 ^ 32 * k \<and> i - 2 ^ 32 * k \<le> 65536
     then Some (i - 2 ^ 32 * ((i + 2 ^ 31) div 2 ^ 32)) else None)"
proof -
  define p where "p = to_int i"
  define q where "q = (i + 2 ^ 31) div 2 ^ 32"
  have q: "- (2 ^ 31) \<le> i - 2 ^ 32 * q" "i - 2 ^ 32 * q < 2 ^ 31"
    using mult_div_mod_eq [of "2 ^ 32" "i + 2 ^ 31"] pos_mod_bound [of "2 ^ 32" "i + 2 ^ 31"]
      pos_mod_sign [of "2 ^ 32" "i + 2 ^ 31"] by (simp_all add: q_def)
  have p: "p = i - 2 ^ 32 * q"
    using to_int_wrap [of "i - 2 ^ 32 * q" q] to_int_id [OF q] by (simp add: p_def)
  have range: "(\<exists>k. 1 \<le> i - 2 ^ 32 * k \<and> i - 2 ^ 32 * k \<le> 65536) \<longleftrightarrow> 1 \<le> p \<and> p \<le> 65536"
  proof
    assume "\<exists>k. 1 \<le> i - 2 ^ 32 * k \<and> i - 2 ^ 32 * k \<le> 65536"
    then obtain k where "1 \<le> i - 2 ^ 32 * k" "i - 2 ^ 32 * k \<le> 65536" by blast
    moreover from this have "k = q" using q by auto
    ultimately show "1 \<le> p \<and> p \<le> 65536" using p by simp
  next
    assume "1 \<le> p \<and> p \<le> 65536"
    then show "\<exists>k. 1 \<le> i - 2 ^ 32 * k \<and> i - 2 ^ 32 * k \<le> 65536" using p by blast
  qed
  show ?thesis
    unfolding range p [unfolded q_def, symmetric]
    using strtol_show_int [OF assms] by (auto simp: parse_port_def Let_def p_def)
qed

theorem port_option_witness:
  "long_min \<le> 65536 \<and> parse_port (show_int 65536) = Some 65536 \<and>
   parse_port (show_int 65537) = None \<and> parse_port (show_int 4294967376) = Some 80"
proof -
  have b: "long_min \<le> 65536" "(65536 :: int) \<le> long_max" "long_min \<le> 65537" "(65537 :: int) \<le> long_max"
    "long_min \<le> 4294967376" "(4294967376 :: int) \<le> long_max"
    by (simp_all add: long_min_def long_max_def)
  have "\<exists>k :: int. 1 \<le> 65536 - 2 ^ 32 * k \<and> 65536 - 2 ^ 32 * k \<le> 65536" by (rule exI [of _ 0]) simp
  moreover have "\<exists>k :: int. 1 \<le> 4294967376 - 2 ^ 32 * k \<and> 4294967376 - 2 ^ 32 * k \<le> 65536"
    by (rule exI [of _ 1]) simp
  moreover have "\<not> (1 \<le> 65537 - 4294967296 * k \<and> 65537 - 4294967296 * k \<le> 65536)" for k :: int
    by (cases "k \<le> 0") auto
  ultimately show ?thesis
    using port_option [OF b(1,2)] port_option [OF b(3,4)] port_option [OF b(5,6)] b(1) by simp
qed

text \<open>The command line either ends the program with the argument error, both buffers
  released and nothing else done, or yields a configuration with a port between 1 and 65536 and a
  positive number of threads.\<close>

theorem options_result:
  "case parse_options opts default_config of
     Inl rc \<Rightarrow> rc = EXIT_FAILURE_ARGS \<and>
       main debug A opts = ([Acquire R_db_conn_str, Acquire R_salt, Release R_db_conn_str,
         Release R_salt], EXIT_FAILURE_ARGS)
   | Inr c \<Rightarrow> config_ok c"
  using parse_options_ok [OF default_config_ok, of opts] parse_options_exit [of opts default_config]
  by (auto simp: main_def split: sum.splits)

text \<open>C35: what is still allocated when \<open>main\<close> returns, for every combination of answers: nothing
  after a clean run or an argument error; the database connection after every failed
  start, and also the thread array when the database fails.\<close>

theorem held_after_main:
  "case main debug A opts of (acts, rc) \<Rightarrow>
     held acts {} =
       (if rc = 0 \<or> rc = EXIT_FAILURE_ARGS then {}
        else if rc = EXIT_FAILURE_SERVER_INIT_DB then {R_pthread_service, R_db_conn}
        else {R_db_conn})"
  by (auto simp: main_def startup_def Let_def exit_code_defs split: sum.splits
      dest: parse_options_exit)

text \<open>The service loop of a thread returns exactly when some call of the library fails or finds the flag
  set.\<close>

theorem service_loop_ends:
  "(\<exists>p'. thread_service serve interrupted p = Some p') =
    (\<exists>n. snd (serve (served serve n p)) < 0 \<or> interrupted (served serve (Suc n) p))"
proof
  assume "\<exists>n. snd (serve (served serve n p)) < 0 \<or> interrupted (served serve (Suc n) p)"
  then obtain n where n: "snd (serve (served serve n p)) < 0 \<or> interrupted (served serve (Suc n) p)"
    "\<And>m. m < n \<Longrightarrow> \<not> (snd (serve (served serve m p)) < 0 \<or> interrupted (served serve (Suc m) p))"
    by (rule exists_least_iff [THEN iffD1, THEN exE]) blast
  have "thread_service serve interrupted p = Some (served serve (Suc n) p)"
    by (rule thread_service_ends) (use n in \<open>auto simp: not_less\<close>)
  then show "\<exists>p'. thread_service serve interrupted p = Some p'" ..
qed (use thread_service_stopped in fast)

end
