(* ===== verification/Fb_Sort.thy ===== *)
theory Fb_Sort
  imports Fb_Reader "HOL-Library.Multiset"
begin

text \<open>
  The heap sort of \<open>flatbuffers_common_reader.h\<close> (\<open>__flatbuffers_heap_sort\<close> and the swaps). The
  vector is the list of its elements, \<open>key\<close> reads the field that is sorted by, the
  comparison is \<open>__flatbuffers_scalar_diff\<close> on an ordered type; an index out of range fails the
  assertion of \<open>_vec_at\<close>. The heap is numbered from 0 with children \<open>2 i\<close> and \<open>2 i + 1\<close>: node 0 has
  the single child 1.
\<close>

section \<open>The code\<close>

definition scalar_diff :: "'k::linorder \<Rightarrow> 'k \<Rightarrow> int" where
  "scalar_diff x y = (if x < y then - 1 else if x > y then 1 else 0)"

definition elem_at :: "'a list \<Rightarrow> nat \<Rightarrow> 'a outcome" where
  "elem_at xs i = (if i < length xs then Inr (xs ! i) else Inl Assert_failed)"

definition value_swap :: "'a list \<Rightarrow> nat \<Rightarrow> nat \<Rightarrow> 'a list" where
  "value_swap vec a b = (let x = vec ! b; vec = vec[b := vec ! a] in vec[a := x])"

text \<open>Offsets are relative to their own position, so exchanging two of them adjusts both.\<close>

definition uoffset_swap :: "32 word list \<Rightarrow> nat \<Rightarrow> nat \<Rightarrow> 32 word list" where
  "uoffset_swap vec a b =
     (let d = (of_nat a - of_nat b) * 4;
          ta = vec ! b - d;
          tb = vec ! a + d
      in vec[a := ta, b := tb])"

lemma and_then_cong [fundef_cong]:
  "m = m' \<Longrightarrow> (\<And>x. m' = Inr x \<Longrightarrow> f x = f' x) \<Longrightarrow> and_then m f = and_then m' f'"
  by (cases m') auto

function heap_sift_down :: "('a \<Rightarrow> 'k::linorder) \<Rightarrow> nat \<Rightarrow> nat \<Rightarrow> 'a list \<Rightarrow> 'a list outcome" where
  "heap_sift_down key root end vec =
     (if 2 * root \<le> end then
        let child = 2 * root in
        and_then
          (if child < end then
             and_then (elem_at vec child) (\<lambda>v1.
             and_then (elem_at vec (child + 1)) (\<lambda>v2.
               Inr (if scalar_diff (key v1) (key v2) < 0 then child + 1 else child)))
           else Inr child) (\<lambda>child.
        and_then (elem_at vec root) (\<lambda>vroot.
        and_then (elem_at vec child) (\<lambda>v1.
          if scalar_diff (key vroot) (key v1) < 0
          then heap_sift_down key child end (value_swap vec root child)
          else Inr vec)))
      else Inr vec)"
  by pat_completeness auto

termination
proof (relation "measure (\<lambda>(key, root, end, vec). Suc end - root)")
  fix key :: "'a \<Rightarrow> 'k::linorder" and root "end" :: nat and vec :: "'a list" and x x' child vroot v1
  assume le: "2 * root \<le> end" and x: "x = 2 * root"
    and child: "(if x < end then and_then (elem_at vec x) (\<lambda>v1. and_then (elem_at vec (x + 1))
      (\<lambda>v2. Inr (if scalar_diff (key v1) (key v2) < 0 then x + 1 else x))) else Inr x) = Inr child"
    and at: "elem_at vec root = Inr vroot" "elem_at vec child = Inr v1"
    and less: "scalar_diff (key vroot) (key v1) < 0"
  have "child = x \<or> child = x + 1 \<and> x < end"
    using child by (auto simp: and_then_Inr_iff split: if_splits)
  moreover have "child \<noteq> root" using at less by (auto simp: scalar_diff_def)
  ultimately have "root < child" "child \<le> end" using x le by auto
  then show "((key, child, end, value_swap vec root child), (key, root, end, vec))
      \<in> measure (\<lambda>(key, root, end, vec). Suc end - root)" by simp
qed simp

declare heap_sift_down.simps [simp del]

text \<open>\<open>do { sift_down (start) } while (start--);\<close>\<close>

fun heap_build :: "('a \<Rightarrow> 'k::linorder) \<Rightarrow> nat \<Rightarrow> nat \<Rightarrow> 'a list \<Rightarrow> 'a list outcome" where
  "heap_build key start end vec =
     and_then (heap_sift_down key start end vec) (\<lambda>vec.
       case start of 0 \<Rightarrow> Inr vec | Suc start' \<Rightarrow> heap_build key start' end vec)"

declare heap_build.simps [simp del]

text \<open>\<open>while (end > 0) { swap (0, end); sift_down (0, --end); }\<close>\<close>

fun heap_extract :: "('a \<Rightarrow> 'k::linorder) \<Rightarrow> nat \<Rightarrow> 'a list \<Rightarrow> 'a list outcome" where
  "heap_extract key 0 vec = Inr vec"
| "heap_extract key (Suc end) vec =
     and_then (heap_sift_down key 0 end (value_swap vec 0 (Suc end))) (heap_extract key end)"

definition heap_sort :: "('a \<Rightarrow> 'k::linorder) \<Rightarrow> 'a list \<Rightarrow> 'a list outcome" where
  "heap_sort key vec =
     (let siz = length vec
      in if siz = 0 then Inr vec
         else and_then (heap_build key (siz div 2) (siz - 1) vec) (heap_extract key (siz - 1)))"

section \<open>The heap order\<close>

lemma scalar_diff_sign [simp]:
  "scalar_diff x y < 0 \<longleftrightarrow> x < y" "scalar_diff x y = 0 \<longleftrightarrow> x = y" "0 < scalar_diff x y \<longleftrightarrow> y < x"
  by (auto simp: scalar_diff_def)

lemma value_swap_eq: "value_swap vec a b = vec[b := vec ! a, a := vec ! b]"
  by (simp add: value_swap_def Let_def)

lemma length_value_swap [simp]: "length (value_swap vec a b) = length vec"
  by (simp add: value_swap_eq)

lemma mset_value_swap [simp]: "a < length vec \<Longrightarrow> b < length vec \<Longrightarrow> mset (value_swap vec a b) = mset vec"
  by (simp add: value_swap_eq mset_swap)

lemma nth_value_swap:
  "a < length vec \<Longrightarrow> b < length vec \<Longrightarrow>
   value_swap vec a b ! i = (if i = a then vec ! b else if i = b then vec ! a else vec ! i)"
  by (simp add: value_swap_eq nth_list_update)

text \<open>Every node up to \<open>e\<close> whose parent is at least \<open>s\<close> is bounded by its parent.\<close>

definition heap_from :: "('a \<Rightarrow> 'k::linorder) \<Rightarrow> 'a list \<Rightarrow> nat \<Rightarrow> nat \<Rightarrow> bool" where
  "heap_from key xs s e \<longleftrightarrow>
     (\<forall>i. 1 \<le> i \<and> i \<le> e \<and> s \<le> i div 2 \<longrightarrow> key (xs ! i) \<le> key (xs ! (i div 2)))"

text \<open>The same except below node \<open>r\<close>, whose children are bounded by its parent.\<close>

definition heap_hole :: "('a \<Rightarrow> 'k::linorder) \<Rightarrow> 'a list \<Rightarrow> nat \<Rightarrow> nat \<Rightarrow> nat \<Rightarrow> bool" where
  "heap_hole key xs s r e \<longleftrightarrow> s \<le> r \<and>
     (\<forall>i. 1 \<le> i \<and> i \<le> e \<and> s \<le> i div 2 \<and> i div 2 \<noteq> r \<longrightarrow> key (xs ! i) \<le> key (xs ! (i div 2))) \<and>
     (\<forall>i. 1 \<le> i \<and> i \<le> e \<and> i div 2 = r \<and> 1 \<le> r \<and> s \<le> r div 2 \<longrightarrow> key (xs ! i) \<le> key (xs ! (r div 2)))"

lemma heap_holeD:
  assumes "heap_hole key xs s r e" "1 \<le> i" "i \<le> e"
  shows "s \<le> i div 2 \<Longrightarrow> i div 2 \<noteq> r \<Longrightarrow> key (xs ! i) \<le> key (xs ! (i div 2))"
    "i div 2 = r \<Longrightarrow> 1 \<le> r \<Longrightarrow> s \<le> r div 2 \<Longrightarrow> key (xs ! i) \<le> key (xs ! (r div 2))"
  using assms unfolding heap_hole_def by blast+

lemma heap_hole_leaf: "heap_hole key xs s r e \<Longrightarrow> e < 2 * r \<Longrightarrow> heap_from key xs s e"
  unfolding heap_from_def
proof (intro allI impI)
  fix i
  assume "heap_hole key xs s r e" "e < 2 * r" and i: "1 \<le> i \<and> i \<le> e \<and> s \<le> i div 2"
  then have "i div 2 \<noteq> r" by linarith
  with i show "key (xs ! i) \<le> key (xs ! (i div 2))" using heap_holeD(1) [OF \<open>heap_hole key xs s r e\<close>] by blast
qed

lemma heap_hole_root: "heap_from key xs (Suc s) e \<Longrightarrow> heap_hole key xs s s e"
  by (auto simp: heap_hole_def heap_from_def)

lemma heap_hole_swap:
  assumes hole: "heap_hole key xs s r e" and c: "c div 2 = r" "c \<noteq> r" "c \<le> e" and len: "e < length xs"
    and less: "key (xs ! r) < key (xs ! c)"
    and max: "\<And>i. 1 \<le> i \<Longrightarrow> i \<le> e \<Longrightarrow> i div 2 = r \<Longrightarrow> key (xs ! i) \<le> key (xs ! c)"
  shows "heap_hole key (value_swap xs r c) s c e"
proof -
  have rc: "r < c" "1 \<le> c" using c(1,2) by auto
  have sr: "s \<le> r" using hole by (simp add: heap_hole_def)
  have at: "value_swap xs r c ! i = (if i = r then xs ! c else if i = c then xs ! r else xs ! i)" for i
    using nth_value_swap [of r xs c i] rc(1) c(3) len by simp
  show ?thesis
    unfolding heap_hole_def
  proof (intro conjI allI impI)
    show "s \<le> c" using sr rc(1) by simp
  next
    fix i
    assume i: "1 \<le> i \<and> i \<le> e \<and> s \<le> i div 2 \<and> i div 2 \<noteq> c"
    consider "i div 2 = r" | "i div 2 \<noteq> r" "i = r" | "i div 2 \<noteq> r" "i \<noteq> r" by blast
    then show "key (value_swap xs r c ! i) \<le> key (value_swap xs r c ! (i div 2))"
    proof cases
      case 1
      then have "i \<noteq> r" using i by linarith
      then show ?thesis using 1 i max [of i] less by (auto simp: at)
    next
      case 2
      then have "key (xs ! c) \<le> key (xs ! (r div 2))"
        using heap_holeD(2) [OF hole rc(2) c(3)] c(1) i by blast
      then show ?thesis using 2 i by (simp add: at)
    next
      case 3
      then have "i \<noteq> c" using c(1) by blast
      then show ?thesis using 3 i heap_holeD(1) [OF hole, of i] by (simp add: at)
    qed
  next
    fix i
    assume i: "1 \<le> i \<and> i \<le> e \<and> i div 2 = c \<and> 1 \<le> c \<and> s \<le> c div 2"
    then have "i \<noteq> c" "i \<noteq> r" using rc by linarith+
    moreover have "key (xs ! i) \<le> key (xs ! c)"
      using heap_holeD(1) [OF hole, of i] i rc(1) sr by auto
    ultimately show "key (value_swap xs r c ! i) \<le> key (value_swap xs r c ! (c div 2))"
      using c(1) by (simp add: at)
  qed
qed

lemma elem_at_in [simp]: "i < length xs \<Longrightarrow> elem_at xs i = Inr (xs ! i)"
  by (simp add: elem_at_def)

text \<open>The child that the loop compares with.\<close>

lemma sift_down_step:
  assumes "2 * r \<le> e" "e < length xs"
  obtains c where "c = 2 * r \<or> c = 2 * r + 1" "c \<le> e"
    "\<And>i. 1 \<le> i \<Longrightarrow> i \<le> e \<Longrightarrow> i div 2 = r \<Longrightarrow> key (xs ! i) \<le> key (xs ! c)"
    "heap_sift_down key r e xs = (if key (xs ! r) < key (xs ! c)
       then heap_sift_down key c e (value_swap xs r c) else Inr xs)"
proof -
  define c where "c = (if 2 * r < e \<and> key (xs ! (2 * r)) < key (xs ! (2 * r + 1)) then 2 * r + 1 else 2 * r)"
  have c: "c = 2 * r \<or> c = 2 * r + 1" "c \<le> e" using assms(1) by (auto simp: c_def)
  have "heap_sift_down key r e xs = (if key (xs ! r) < key (xs ! c)
       then heap_sift_down key c e (value_swap xs r c) else Inr xs)"
    using assms c(2) by (subst heap_sift_down.simps) (auto simp: c_def Let_def)
  moreover have "key (xs ! i) \<le> key (xs ! c)" if "1 \<le> i" "i \<le> e" "i div 2 = r" for i
  proof -
    from that(3) have "i = 2 * r \<or> i = 2 * r + 1" by linarith
    with that(2) show ?thesis by (auto simp: c_def)
  qed
  ultimately show thesis using that c by blast
qed

lemma sift_down:
  assumes "heap_hole key xs s r e" "e < length xs"
  shows "\<exists>ys. heap_sift_down key r e xs = Inr ys \<and> mset ys = mset xs \<and> heap_from key ys s e \<and>
    (\<forall>i. e < i \<longrightarrow> ys ! i = xs ! i)"
  using assms
proof (induction "Suc e - r" arbitrary: xs r rule: less_induct)
  case less
  show ?case
  proof (cases "2 * r \<le> e")
    case False
    then show ?thesis
      using heap_hole_leaf [OF less.prems(1)] by (subst heap_sift_down.simps) auto
  next
    case True
    from sift_down_step [OF True less.prems(2), of key] obtain c where c: "c = 2 * r \<or> c = 2 * r + 1" "c \<le> e"
      and max: "\<And>i. 1 \<le> i \<Longrightarrow> i \<le> e \<Longrightarrow> i div 2 = r \<Longrightarrow> key (xs ! i) \<le> key (xs ! c)"
      and step: "heap_sift_down key r e xs = (if key (xs ! r) < key (xs ! c)
        then heap_sift_down key c e (value_swap xs r c) else Inr xs)" by blast
    show ?thesis
    proof (cases "key (xs ! r) < key (xs ! c)")
      case True
      then have "c \<noteq> r" by auto
      then have cr: "c \<noteq> r" "r < c" "c div 2 = r" using c(1) by auto
      have in_range: "r < length xs" "c < length xs" using cr(2) c(2) less.prems(2) by simp_all
      have "heap_hole key (value_swap xs r c) s c e"
        by (rule heap_hole_swap [OF less.prems(1) cr(3,1) c(2) less.prems(2) True max])
      moreover have "Suc e - c < Suc e - r" using cr(2) c(2) by simp
      ultimately obtain ys where
        ys: "heap_sift_down key c e (value_swap xs r c) = Inr ys" "mset ys = mset (value_swap xs r c)"
          "heap_from key ys s e" "\<forall>i. e < i \<longrightarrow> ys ! i = value_swap xs r c ! i"
        using less.hyps [of c "value_swap xs r c"] less.prems(2) by auto
      moreover have "\<forall>i. e < i \<longrightarrow> value_swap xs r c ! i = xs ! i"
        using cr(2) c(2) by (simp add: nth_value_swap [OF in_range])
      ultimately show ?thesis using step True in_range by simp
    next
      case False
      have "heap_from key xs s e"
        unfolding heap_from_def
      proof (intro allI impI)
        fix i
        assume i: "1 \<le> i \<and> i \<le> e \<and> s \<le> i div 2"
        show "key (xs ! i) \<le> key (xs ! (i div 2))"
        proof (cases "i div 2 = r")
          case True
          then show ?thesis using max [of i] i False by (auto intro: order_trans)
        next
          case False
          then show ?thesis using heap_holeD(1) [OF less.prems(1)] i by blast
        qed
      qed
      then show ?thesis using step False by simp
    qed
  qed
qed

section \<open>Building and extracting\<close>

lemma heap_build:
  assumes "heap_from key xs (Suc start) e" "e < length xs"
  shows "\<exists>ys. heap_build key start e xs = Inr ys \<and> mset ys = mset xs \<and> heap_from key ys 0 e"
  using assms
proof (induction start arbitrary: xs)
  case 0
  from sift_down [OF heap_hole_root [OF 0(1)] 0(2)] show ?case
    by (subst heap_build.simps) auto
next
  case (Suc start)
  from sift_down [OF heap_hole_root [OF Suc.prems(1)] Suc.prems(2)] obtain zs where
    zs: "heap_sift_down key (Suc start) e xs = Inr zs" "mset zs = mset xs" "heap_from key zs (Suc start) e"
    by blast
  have "e < length zs" using mset_eq_length [OF zs(2)] Suc.prems(2) by simp
  from Suc.IH [OF zs(3) this] zs(1,2) show ?case by (subst heap_build.simps) auto
qed

lemma heap_root_max: "heap_from key xs 0 e \<Longrightarrow> i \<le> e \<Longrightarrow> key (xs ! i) \<le> key (xs ! 0)"
proof (induction i rule: less_induct)
  case (less i)
  show ?case
  proof (cases "i = 0")
    case False
    then have "key (xs ! i) \<le> key (xs ! (i div 2))" using less.prems by (simp add: heap_from_def)
    also have "\<dots> \<le> key (xs ! 0)" using less.IH [of "i div 2"] less.prems False by simp
    finally show ?thesis .
  qed simp
qed

lemma heap_hole_remove:
  assumes "heap_from key xs 0 (Suc e)" "Suc e < length xs"
  shows "heap_hole key (value_swap xs 0 (Suc e)) 0 0 e"
proof -
  have "0 < length xs" using assms(2) by linarith
  from nth_value_swap [OF this assms(2)] assms(1) show ?thesis
    by (auto simp: heap_hole_def heap_from_def)
qed

text \<open>The elements after \<open>e\<close> are sorted, and none of the others is above them.\<close>

definition split_at :: "('a \<Rightarrow> 'k::linorder) \<Rightarrow> 'a list \<Rightarrow> nat \<Rightarrow> bool" where
  "split_at key xs e \<longleftrightarrow> sorted (map key (drop (Suc e) xs)) \<and>
     (\<forall>x \<in> set (take (Suc e) xs). \<forall>y \<in> set (drop (Suc e) xs). key x \<le> key y)"

lemma prefix_mset:
  assumes "mset ys = mset xs" "\<forall>i. e < i \<longrightarrow> ys ! i = xs ! i" "e < length xs"
  shows "drop (Suc e) ys = drop (Suc e) xs" "set (take (Suc e) ys) = set (take (Suc e) xs)"
proof -
  have len: "length ys = length xs" using mset_eq_length [OF assms(1)] .
  show d: "drop (Suc e) ys = drop (Suc e) xs"
    by (rule nth_equalityI) (use assms(2) len in auto)
  have "mset (take (Suc e) ys) + mset (drop (Suc e) ys) = mset (take (Suc e) xs) + mset (drop (Suc e) xs)"
    using assms(1) by (simp flip: mset_append)
  then have "mset (take (Suc e) ys) = mset (take (Suc e) xs)" using d by simp
  then show "set (take (Suc e) ys) = set (take (Suc e) xs)" by (rule mset_eq_setD)
qed

lemma split_at_swap:
  assumes "heap_from key xs 0 (Suc e)" "Suc e < length xs" "split_at key xs (Suc e)"
  shows "split_at key (value_swap xs 0 (Suc e)) e"
proof -
  let ?ys = "value_swap xs 0 (Suc e)"
  have ys: "?ys = xs[Suc e := xs ! 0, 0 := xs ! Suc e]" by (simp add: value_swap_eq)
  have d: "drop (Suc e) ?ys = xs ! 0 # drop (Suc (Suc e)) xs"
  proof -
    have "drop (Suc e) ?ys = ?ys ! Suc e # drop (Suc (Suc e)) ?ys"
      using assms(2) by (simp add: Cons_nth_drop_Suc)
    then show ?thesis using assms(2) by (simp add: ys)
  qed
  have root: "key (xs ! i) \<le> key (xs ! 0)" if "i \<le> Suc e" for i by (rule heap_root_max [OF assms(1) that])
  have prefix: "\<exists>i \<le> Suc e. x = xs ! i" if "x \<in> set (take (Suc e) ?ys)" for x
  proof -
    from that obtain i where "i < Suc e" "x = ?ys ! i"
      using assms(2) by (auto simp: in_set_conv_nth)
    then have "x = xs ! (if i = 0 then Suc e else i)"
      using nth_value_swap [of 0 xs "Suc e" i] assms(2) by (cases xs) (auto split: if_splits)
    then show ?thesis using \<open>i < Suc e\<close> by (metis le_refl less_imp_le)
  qed
  have up: "key (xs ! i) \<le> key y" if "i \<le> Suc e" "y \<in> set (drop (Suc (Suc e)) xs)" for i y
  proof -
    have "xs ! i \<in> set (take (Suc (Suc e)) xs)"
      using that(1) assms(2) by (auto simp: in_set_conv_nth intro!: exI [of _ i])
    then show ?thesis using assms(3) that(2) by (simp add: split_at_def)
  qed
  show ?thesis
    unfolding split_at_def d
  proof (intro conjI ballI)
    show "sorted (map key (xs ! 0 # drop (Suc (Suc e)) xs))"
      using up [of 0] assms(3) by (auto simp: split_at_def)
    fix x y
    assume "x \<in> set (take (Suc e) ?ys)" and y: "y \<in> set (xs ! 0 # drop (Suc (Suc e)) xs)"
    then obtain i where "i \<le> Suc e" "x = xs ! i" using prefix by blast
    with y root up show "key x \<le> key y" by auto
  qed
qed

lemma heap_extract:
  assumes "heap_from key xs 0 e" "e < length xs" "split_at key xs e"
  shows "\<exists>ys. heap_extract key e xs = Inr ys \<and> mset ys = mset xs \<and> sorted (map key ys)"
  using assms
proof (induction e arbitrary: xs)
  case 0
  then obtain x rest where "xs = x # rest" by (cases xs) auto
  with 0(3) show ?case by (simp add: split_at_def)
next
  case (Suc e)
  let ?zs = "value_swap xs 0 (Suc e)"
  have len: "e < length ?zs" "0 < length xs" using Suc.prems(2) by auto
  from sift_down [OF heap_hole_remove [OF Suc.prems(1,2)] len(1)] obtain ys where
    ys: "heap_sift_down key 0 e ?zs = Inr ys" "mset ys = mset ?zs" "heap_from key ys 0 e"
      "\<forall>i. e < i \<longrightarrow> ys ! i = ?zs ! i" by blast
  have "split_at key ys e"
    using split_at_swap [OF Suc.prems] prefix_mset [OF ys(2,4) len(1)] by (simp add: split_at_def)
  moreover have "e < length ys" using mset_eq_length [OF ys(2)] len(1) by simp
  ultimately show ?case using Suc.IH [OF ys(3)] ys(1,2) len(2) Suc.prems(2) by simp
qed

lemma heap_sorted:
  "\<exists>ys. heap_sort key xs = Inr ys \<and> mset ys = mset xs \<and> sorted (map key ys)"
proof (cases "xs = []")
  case True
  then show ?thesis by (simp add: heap_sort_def)
next
  case False
  define e where "e = length xs - 1"
  have e: "e < length xs" using False by (simp add: e_def)
  have "heap_from key xs (Suc (length xs div 2)) e"
    unfolding heap_from_def e_def by (intro allI impI) linarith
  from heap_build [OF this e] obtain ys where
    ys: "heap_build key (length xs div 2) e xs = Inr ys" "mset ys = mset xs" "heap_from key ys 0 e" by blast
  have len: "length ys = length xs" using mset_eq_length [OF ys(2)] .
  have "split_at key ys e" by (simp add: split_at_def e_def len)
  from heap_extract [OF ys(3) _ this] len e ys(1,2) show ?thesis
    using False by (simp add: heap_sort_def Let_def e_def)
qed

section \<open>Properties\<close>

text \<open>C32: the generated heap sort, whose node 0 has one child, sorts every vector by its key: it
  fails no index assertion, returns, and the result is a sorted permutation.\<close>

theorem heap_sort_sorts:
  "\<exists>ys. heap_sort key xs = Inr ys \<and> mset ys = mset xs \<and> sorted (map key ys)"
  by (rule heap_sorted)

text \<open>Exchanging two relative offsets makes each slot point where the other one pointed, also when
  the offsets wrap around.\<close>

lemma uoffset_swap_targets:
  assumes "a < length vec" "b < length vec" "a \<noteq> b"
  shows "base + of_nat (4 * a) + uoffset_swap vec a b ! a = base + of_nat (4 * b) + vec ! b \<and>
    base + of_nat (4 * b) + uoffset_swap vec a b ! b = base + of_nat (4 * a) + vec ! a \<and>
    (\<forall>i. i \<noteq> a \<and> i \<noteq> b \<longrightarrow> uoffset_swap vec a b ! i = vec ! i)"
  using assms by (simp add: uoffset_swap_def Let_def nth_list_update algebra_simps)

end
