(* ===== verification/Fb_Search.thy ===== *)
theory Fb_Search
  imports Fb_Request Fb_Sort
begin

text \<open>
  Searching a vector, \<open>flatbuffers_common_reader.h\<close>: binary search (\<open>find\<close>), scans from the front
  and from the back, the comparisons, and the functions that the macros define for string
  vectors, scalar vectors and table vectors with a string or scalar field. \<open>get i\<close> is the
  key of element \<open>i\<close> as \<open>_vec_at\<close> and the field getter read it, \<open>D\<close> the comparison with the sought
  key; \<open>flatbuffers_not_found\<close> is \<open>None\<close>. Indices do not wrap: they stay below a 32-bit count.
\<close>

section \<open>The loops\<close>

function find_loop :: "(nat \<Rightarrow> 'k outcome) \<Rightarrow> ('k \<Rightarrow> int) \<Rightarrow> nat \<Rightarrow> nat \<Rightarrow> nat outcome" where
  "find_loop get D a b =
     (if a < b then
        let m = a + (b - a) div 2
        in and_then (get m) (\<lambda>v. if D v < 0 then find_loop get D (m + 1) b else find_loop get D a m)
      else Inr a)"
  by pat_completeness auto

termination
  by (relation "measure (\<lambda>(get, D, a, b). b - a)") auto

declare find_loop.simps [simp del]

definition find_by_field :: "(nat \<Rightarrow> 'k outcome) \<Rightarrow> nat \<Rightarrow> ('k \<Rightarrow> int) \<Rightarrow> nat option outcome" where
  "find_by_field get n D =
     (if n = 0 then Inr None
      else and_then (find_loop get D 0 (n - 1)) (\<lambda>a.
           and_then (get a) (\<lambda>v. Inr (if D v = 0 then Some a else None))))"

function scan_by_field :: "nat \<Rightarrow> nat \<Rightarrow> (nat \<Rightarrow> 'k outcome) \<Rightarrow> ('k \<Rightarrow> int) \<Rightarrow> nat option outcome" where
  "scan_by_field i e get D =
     (if i < e then and_then (get i) (\<lambda>v. if D v = 0 then Inr (Some i) else scan_by_field (i + 1) e get D)
      else Inr None)"
  by pat_completeness auto

termination
  by (relation "measure (\<lambda>(i, e, get, D). e - i)") auto

declare scan_by_field.simps [simp del]

fun rscan_by_field :: "nat \<Rightarrow> nat \<Rightarrow> (nat \<Rightarrow> 'k outcome) \<Rightarrow> ('k \<Rightarrow> int) \<Rightarrow> nat option outcome" where
  "rscan_by_field b 0 get D = Inr None"
| "rscan_by_field b (Suc i) get D =
     (if Suc i > b then
        and_then (get i) (\<lambda>v. if D v = 0 then Inr (Some i) else rscan_by_field b i get D)
      else Inr None)"

section \<open>Comparisons\<close>

definition scalar_cmp :: "'k::linorder \<Rightarrow> 'k \<Rightarrow> int" where
  "scalar_cmp x y = (if x < y then - 1 else if x > y then 1 else 0)"

text \<open>\<open>strcmp\<close> and \<open>strncmp\<close> of the C library, by the sign of their result.\<close>

fun strcmp :: "string \<Rightarrow> string \<Rightarrow> int" where
  "strcmp [] [] = 0"
| "strcmp [] (c # cs) = - 1"
| "strcmp (c # cs) [] = 1"
| "strcmp (c # cs) (d # ds) =
     (if c = d then strcmp cs ds else if (of_char c :: nat) < of_char d then - 1 else 1)"

text \<open>A string of the buffer: its length field and its characters.\<close>

definition string_n_cmp :: "nat \<times> string \<Rightarrow> string \<Rightarrow> nat \<Rightarrow> int" where
  "string_n_cmp v s n =
     (case v of (nv, cs) \<Rightarrow>
        let x = strcmp (take (min nv n) cs) (take (min nv n) s)
        in if x \<noteq> 0 then x else if nv < n then - 1 else if nv > n then 1 else 0)"

definition string_cmp :: "nat \<times> string \<Rightarrow> string \<Rightarrow> int" where
  "string_cmp v s = strcmp (snd v) s"

section \<open>The functions of the macros\<close>

definition counted_string_at :: "u8 list \<Rightarrow> ptr \<Rightarrow> (nat \<times> string) outcome" where
  "counted_string_at buf s =
     and_then (string_len buf s) (\<lambda>n. and_then (c_string_at buf s) (\<lambda>cs. Inr (n, cs)))"

text \<open>The elements as the three kinds of vectors read them.\<close>

abbreviation string_elem :: "u8 list \<Rightarrow> ptr \<Rightarrow> nat \<Rightarrow> (nat \<times> string) outcome" where
  "string_elem buf vec i \<equiv> and_then (string_vec_at buf vec i) (counted_string_at buf)"

abbreviation table_string ::
  "(u8 list \<Rightarrow> ptr \<Rightarrow> ptr outcome) \<Rightarrow> u8 list \<Rightarrow> ptr \<Rightarrow> nat \<Rightarrow> (nat \<times> string) outcome" where
  "table_string getter buf vec i \<equiv>
     and_then (offset_vec_at buf 0 vec i) (\<lambda>t. and_then (getter buf t) (counted_string_at buf))"

abbreviation table_scalar ::
  "(u8 list \<Rightarrow> ptr \<Rightarrow> 'k outcome) \<Rightarrow> u8 list \<Rightarrow> ptr \<Rightarrow> nat \<Rightarrow> 'k outcome" where
  "table_scalar getter buf vec i \<equiv> and_then (offset_vec_at buf 0 vec i) (getter buf)"

text \<open>String vectors.\<close>

definition string_vec_find :: "u8 list \<Rightarrow> ptr \<Rightarrow> string \<Rightarrow> nat option outcome" where
  "string_vec_find buf vec s =
     and_then (vec_len buf vec) (\<lambda>n. find_by_field (string_elem buf vec) n (\<lambda>v. string_cmp v s))"

definition string_vec_scan :: "u8 list \<Rightarrow> ptr \<Rightarrow> string \<Rightarrow> nat option outcome" where
  "string_vec_scan buf vec s =
     and_then (vec_len buf vec) (\<lambda>n. scan_by_field 0 n (string_elem buf vec) (\<lambda>v. string_cmp v s))"

definition string_vec_scan_ex :: "u8 list \<Rightarrow> ptr \<Rightarrow> nat \<Rightarrow> nat \<Rightarrow> string \<Rightarrow> nat option outcome" where
  "string_vec_scan_ex buf vec begin end s =
     and_then (vec_len buf vec) (\<lambda>n. scan_by_field begin (min end n) (string_elem buf vec) (\<lambda>v. string_cmp v s))"

definition string_vec_rscan :: "u8 list \<Rightarrow> ptr \<Rightarrow> string \<Rightarrow> nat option outcome" where
  "string_vec_rscan buf vec s =
     and_then (vec_len buf vec) (\<lambda>n. rscan_by_field 0 n (string_elem buf vec) (\<lambda>v. string_cmp v s))"

definition string_vec_rscan_ex :: "u8 list \<Rightarrow> ptr \<Rightarrow> nat \<Rightarrow> nat \<Rightarrow> string \<Rightarrow> nat option outcome" where
  "string_vec_rscan_ex buf vec begin end s =
     and_then (vec_len buf vec) (\<lambda>n. rscan_by_field begin (min end n) (string_elem buf vec) (\<lambda>v. string_cmp v s))"

definition string_vec_find_n :: "u8 list \<Rightarrow> ptr \<Rightarrow> string \<Rightarrow> nat \<Rightarrow> nat option outcome" where
  "string_vec_find_n buf vec s k =
     and_then (vec_len buf vec) (\<lambda>n. find_by_field (string_elem buf vec) n (\<lambda>v. string_n_cmp v s k))"

definition string_vec_scan_n :: "u8 list \<Rightarrow> ptr \<Rightarrow> string \<Rightarrow> nat \<Rightarrow> nat option outcome" where
  "string_vec_scan_n buf vec s k =
     and_then (vec_len buf vec) (\<lambda>n. scan_by_field 0 n (string_elem buf vec) (\<lambda>v. string_n_cmp v s k))"

definition string_vec_scan_ex_n :: "u8 list \<Rightarrow> ptr \<Rightarrow> nat \<Rightarrow> nat \<Rightarrow> string \<Rightarrow> nat \<Rightarrow> nat option outcome" where
  "string_vec_scan_ex_n buf vec begin end s k =
     and_then (vec_len buf vec) (\<lambda>n. scan_by_field begin (min end n) (string_elem buf vec) (\<lambda>v. string_n_cmp v s k))"

definition string_vec_rscan_n :: "u8 list \<Rightarrow> ptr \<Rightarrow> string \<Rightarrow> nat \<Rightarrow> nat option outcome" where
  "string_vec_rscan_n buf vec s k =
     and_then (vec_len buf vec) (\<lambda>n. rscan_by_field 0 n (string_elem buf vec) (\<lambda>v. string_n_cmp v s k))"

definition string_vec_rscan_ex_n :: "u8 list \<Rightarrow> ptr \<Rightarrow> nat \<Rightarrow> nat \<Rightarrow> string \<Rightarrow> nat \<Rightarrow> nat option outcome" where
  "string_vec_rscan_ex_n buf vec begin end s k =
     and_then (vec_len buf vec) (\<lambda>n. rscan_by_field begin (min end n) (string_elem buf vec) (\<lambda>v. string_n_cmp v s k))"

text \<open>Vectors of tables, by a string field.\<close>

definition vec_by_string_find :: "(u8 list \<Rightarrow> ptr \<Rightarrow> ptr outcome) \<Rightarrow> u8 list \<Rightarrow> ptr \<Rightarrow> string \<Rightarrow> nat option outcome" where
  "vec_by_string_find getter buf vec s =
     and_then (vec_len buf vec) (\<lambda>n. find_by_field (table_string getter buf vec) n (\<lambda>v. string_cmp v s))"

definition vec_by_string_scan :: "(u8 list \<Rightarrow> ptr \<Rightarrow> ptr outcome) \<Rightarrow> u8 list \<Rightarrow> ptr \<Rightarrow> string \<Rightarrow> nat option outcome" where
  "vec_by_string_scan getter buf vec s =
     and_then (vec_len buf vec) (\<lambda>n. scan_by_field 0 n (table_string getter buf vec) (\<lambda>v. string_cmp v s))"

definition vec_by_string_scan_ex :: "(u8 list \<Rightarrow> ptr \<Rightarrow> ptr outcome) \<Rightarrow> u8 list \<Rightarrow> ptr \<Rightarrow> nat \<Rightarrow> nat \<Rightarrow> string \<Rightarrow> nat option outcome" where
  "vec_by_string_scan_ex getter buf vec begin end s =
     and_then (vec_len buf vec) (\<lambda>n. scan_by_field begin (min end n) (table_string getter buf vec) (\<lambda>v. string_cmp v s))"

definition vec_by_string_rscan :: "(u8 list \<Rightarrow> ptr \<Rightarrow> ptr outcome) \<Rightarrow> u8 list \<Rightarrow> ptr \<Rightarrow> string \<Rightarrow> nat option outcome" where
  "vec_by_string_rscan getter buf vec s =
     and_then (vec_len buf vec) (\<lambda>n. rscan_by_field 0 n (table_string getter buf vec) (\<lambda>v. string_cmp v s))"

definition vec_by_string_rscan_ex :: "(u8 list \<Rightarrow> ptr \<Rightarrow> ptr outcome) \<Rightarrow> u8 list \<Rightarrow> ptr \<Rightarrow> nat \<Rightarrow> nat \<Rightarrow> string \<Rightarrow> nat option outcome" where
  "vec_by_string_rscan_ex getter buf vec begin end s =
     and_then (vec_len buf vec) (\<lambda>n. rscan_by_field begin (min end n) (table_string getter buf vec) (\<lambda>v. string_cmp v s))"

definition vec_by_string_find_n :: "(u8 list \<Rightarrow> ptr \<Rightarrow> ptr outcome) \<Rightarrow> u8 list \<Rightarrow> ptr \<Rightarrow> string \<Rightarrow> nat \<Rightarrow> nat option outcome" where
  "vec_by_string_find_n getter buf vec s k =
     and_then (vec_len buf vec) (\<lambda>n. find_by_field (table_string getter buf vec) n (\<lambda>v. string_n_cmp v s k))"

definition vec_by_string_scan_n :: "(u8 list \<Rightarrow> ptr \<Rightarrow> ptr outcome) \<Rightarrow> u8 list \<Rightarrow> ptr \<Rightarrow> string \<Rightarrow> nat \<Rightarrow> nat option outcome" where
  "vec_by_string_scan_n getter buf vec s k =
     and_then (vec_len buf vec) (\<lambda>n. scan_by_field 0 n (table_string getter buf vec) (\<lambda>v. string_n_cmp v s k))"

definition vec_by_string_scan_ex_n :: "(u8 list \<Rightarrow> ptr \<Rightarrow> ptr outcome) \<Rightarrow> u8 list \<Rightarrow> ptr \<Rightarrow> nat \<Rightarrow> nat \<Rightarrow> string \<Rightarrow> nat \<Rightarrow> nat option outcome" where
  "vec_by_string_scan_ex_n getter buf vec begin end s k =
     and_then (vec_len buf vec) (\<lambda>n. scan_by_field begin (min end n) (table_string getter buf vec) (\<lambda>v. string_n_cmp v s k))"

definition vec_by_string_rscan_n :: "(u8 list \<Rightarrow> ptr \<Rightarrow> ptr outcome) \<Rightarrow> u8 list \<Rightarrow> ptr \<Rightarrow> string \<Rightarrow> nat \<Rightarrow> nat option outcome" where
  "vec_by_string_rscan_n getter buf vec s k =
     and_then (vec_len buf vec) (\<lambda>n. rscan_by_field 0 n (table_string getter buf vec) (\<lambda>v. string_n_cmp v s k))"

definition vec_by_string_rscan_ex_n :: "(u8 list \<Rightarrow> ptr \<Rightarrow> ptr outcome) \<Rightarrow> u8 list \<Rightarrow> ptr \<Rightarrow> nat \<Rightarrow> nat \<Rightarrow> string \<Rightarrow> nat \<Rightarrow> nat option outcome" where
  "vec_by_string_rscan_ex_n getter buf vec begin end s k =
     and_then (vec_len buf vec) (\<lambda>n. rscan_by_field begin (min end n) (table_string getter buf vec) (\<lambda>v. string_n_cmp v s k))"

text \<open>Vectors of tables, by a scalar field.\<close>

definition vec_by_scalar_find :: "(u8 list \<Rightarrow> ptr \<Rightarrow> 'k::linorder outcome) \<Rightarrow> u8 list \<Rightarrow> ptr \<Rightarrow> 'k \<Rightarrow> nat option outcome" where
  "vec_by_scalar_find getter buf vec key =
     and_then (vec_len buf vec) (\<lambda>n. find_by_field (table_scalar getter buf vec) n (\<lambda>v. scalar_cmp v key))"

definition vec_by_scalar_scan :: "(u8 list \<Rightarrow> ptr \<Rightarrow> 'k::linorder outcome) \<Rightarrow> u8 list \<Rightarrow> ptr \<Rightarrow> 'k \<Rightarrow> nat option outcome" where
  "vec_by_scalar_scan getter buf vec key =
     and_then (vec_len buf vec) (\<lambda>n. scan_by_field 0 n (table_scalar getter buf vec) (\<lambda>v. scalar_cmp v key))"

definition vec_by_scalar_scan_ex :: "(u8 list \<Rightarrow> ptr \<Rightarrow> 'k::linorder outcome) \<Rightarrow> u8 list \<Rightarrow> ptr \<Rightarrow> nat \<Rightarrow> nat \<Rightarrow> 'k \<Rightarrow> nat option outcome" where
  "vec_by_scalar_scan_ex getter buf vec begin end key =
     and_then (vec_len buf vec) (\<lambda>n. scan_by_field begin (min end n) (table_scalar getter buf vec) (\<lambda>v. scalar_cmp v key))"

definition vec_by_scalar_rscan :: "(u8 list \<Rightarrow> ptr \<Rightarrow> 'k::linorder outcome) \<Rightarrow> u8 list \<Rightarrow> ptr \<Rightarrow> 'k \<Rightarrow> nat option outcome" where
  "vec_by_scalar_rscan getter buf vec key =
     and_then (vec_len buf vec) (\<lambda>n. rscan_by_field 0 n (table_scalar getter buf vec) (\<lambda>v. scalar_cmp v key))"

definition vec_by_scalar_rscan_ex :: "(u8 list \<Rightarrow> ptr \<Rightarrow> 'k::linorder outcome) \<Rightarrow> u8 list \<Rightarrow> ptr \<Rightarrow> nat \<Rightarrow> nat \<Rightarrow> 'k \<Rightarrow> nat option outcome" where
  "vec_by_scalar_rscan_ex getter buf vec begin end key =
     and_then (vec_len buf vec) (\<lambda>n. rscan_by_field begin (min end n) (table_scalar getter buf vec) (\<lambda>v. scalar_cmp v key))"

text \<open>Vectors of scalars.\<close>

definition scalar_vec_find :: "(u8 list \<Rightarrow> int \<Rightarrow> 'k::linorder outcome) \<Rightarrow> nat \<Rightarrow> u8 list \<Rightarrow> ptr \<Rightarrow> 'k \<Rightarrow> nat option outcome" where
  "scalar_vec_find rd sz buf vec key =
     and_then (vec_len buf vec) (\<lambda>n. find_by_field (scalar_vec_at rd sz buf vec) n (\<lambda>v. scalar_cmp v key))"

definition scalar_vec_scan :: "(u8 list \<Rightarrow> int \<Rightarrow> 'k::linorder outcome) \<Rightarrow> nat \<Rightarrow> u8 list \<Rightarrow> ptr \<Rightarrow> 'k \<Rightarrow> nat option outcome" where
  "scalar_vec_scan rd sz buf vec key =
     and_then (vec_len buf vec) (\<lambda>n. scan_by_field 0 n (scalar_vec_at rd sz buf vec) (\<lambda>v. scalar_cmp v key))"

definition scalar_vec_scan_ex :: "(u8 list \<Rightarrow> int \<Rightarrow> 'k::linorder outcome) \<Rightarrow> nat \<Rightarrow> u8 list \<Rightarrow> ptr \<Rightarrow> nat \<Rightarrow> nat \<Rightarrow> 'k \<Rightarrow> nat option outcome" where
  "scalar_vec_scan_ex rd sz buf vec begin end key =
     and_then (vec_len buf vec) (\<lambda>n. scan_by_field begin (min end n) (scalar_vec_at rd sz buf vec) (\<lambda>v. scalar_cmp v key))"

definition scalar_vec_rscan :: "(u8 list \<Rightarrow> int \<Rightarrow> 'k::linorder outcome) \<Rightarrow> nat \<Rightarrow> u8 list \<Rightarrow> ptr \<Rightarrow> 'k \<Rightarrow> nat option outcome" where
  "scalar_vec_rscan rd sz buf vec key =
     and_then (vec_len buf vec) (\<lambda>n. rscan_by_field 0 n (scalar_vec_at rd sz buf vec) (\<lambda>v. scalar_cmp v key))"

definition scalar_vec_rscan_ex :: "(u8 list \<Rightarrow> int \<Rightarrow> 'k::linorder outcome) \<Rightarrow> nat \<Rightarrow> u8 list \<Rightarrow> ptr \<Rightarrow> nat \<Rightarrow> nat \<Rightarrow> 'k \<Rightarrow> nat option outcome" where
  "scalar_vec_rscan_ex rd sz buf vec begin end key =
     and_then (vec_len buf vec) (\<lambda>n. rscan_by_field begin (min end n) (scalar_vec_at rd sz buf vec) (\<lambda>v. scalar_cmp v key))"

section \<open>Searching readable keys\<close>

text \<open>The client of the loops: the keys can be read, without a failing assertion.\<close>

locale key_vector =
  fixes get :: "nat \<Rightarrow> 'k outcome" and ks :: "'k list"
  assumes get_key: "i < length ks \<Longrightarrow> get i = Inr (ks ! i)"
begin

lemma scan_find:
  "e \<le> length ks \<Longrightarrow> scan_by_field b e get D = Inr (find (\<lambda>i. D (ks ! i) = 0) [b..<e])"
proof (induction "e - b" arbitrary: b)
  case 0
  then show ?case by (subst scan_by_field.simps) simp
next
  case (Suc d)
  then have "b < e" by simp
  moreover from this have "[b..<e] = b # [Suc b..<e]" by (rule upt_conv_Cons)
  ultimately show ?case using Suc.hyps(1) [of "Suc b"] Suc.hyps(2) Suc.prems
    by (subst scan_by_field.simps) (simp add: get_key)
qed

lemma rscan_find:
  "e \<le> length ks \<Longrightarrow> rscan_by_field b e get D = Inr (find (\<lambda>i. D (ks ! i) = 0) (rev [b..<e]))"
  by (induction e) (simp_all add: get_key)

lemma find_loop_bounds:
  assumes "a \<le> b" "b < length ks"
    and down: "\<And>i j. i \<le> j \<Longrightarrow> j < length ks \<Longrightarrow> D (ks ! j) < 0 \<Longrightarrow> D (ks ! i) < 0"
  shows "\<exists>r. find_loop get D a b = Inr r \<and> a \<le> r \<and> r \<le> b \<and> (\<forall>i. a \<le> i \<and> i < r \<longrightarrow> D (ks ! i) < 0) \<and>
    (r = b \<or> \<not> D (ks ! r) < 0)"
  using assms(1,2)
proof (induction "b - a" arbitrary: a b rule: less_induct)
  case less
  show ?case
  proof (cases "a < b")
    case False
    with less.prems show ?thesis by (subst find_loop.simps) auto
  next
    case True
    define m where "m = a + (b - a) div 2"
    have m: "a \<le> m" "m < b" "m < length ks" using True less.prems by (auto simp: m_def)
    have step: "find_loop get D a b = (if D (ks ! m) < 0 then find_loop get D (m + 1) b else find_loop get D a m)"
      using True get_key [OF m(3)] by (subst find_loop.simps) (simp add: m_def Let_def)
    show ?thesis
    proof (cases "D (ks ! m) < 0")
      case True
      have dec: "b - (m + 1) < b - a" using m by linarith
      obtain r where r: "find_loop get D (m + 1) b = Inr r" "m + 1 \<le> r" "r \<le> b"
          "\<forall>i. m + 1 \<le> i \<and> i < r \<longrightarrow> D (ks ! i) < 0" "r = b \<or> \<not> D (ks ! r) < 0"
        using less.hyps [of b "m + 1", OF dec] m less.prems by auto
      have "D (ks ! i) < 0" if "i \<le> m" for i using down [OF that m(3) True] .
      then have "D (ks ! i) < 0" if "i < r" for i using r(4) that by (cases "i \<le> m") auto
      then show ?thesis using step True m(1) r by auto
    next
      case False
      have "\<exists>r. find_loop get D a m = Inr r \<and> a \<le> r \<and> r \<le> m \<and>
          (\<forall>i. a \<le> i \<and> i < r \<longrightarrow> D (ks ! i) < 0) \<and> (r = m \<or> \<not> D (ks ! r) < 0)"
        using m less.prems by (intro less.hyps) auto
      then show ?thesis using step False m(2) by force
    qed
  qed
qed

lemma find_Some_least:
  "r < n \<Longrightarrow> P r \<Longrightarrow> (\<And>i. i < r \<Longrightarrow> \<not> P i) \<Longrightarrow> find P [0..<n] = Some r"
  by (auto simp: find_Some_iff intro!: exI [of _ r])

lemma find_sorted:
  assumes down: "\<And>i j. i \<le> j \<Longrightarrow> j < length ks \<Longrightarrow> D (ks ! j) < 0 \<Longrightarrow> D (ks ! i) < 0"
    and up: "\<And>i j. i \<le> j \<Longrightarrow> j < length ks \<Longrightarrow> 0 < D (ks ! i) \<Longrightarrow> 0 < D (ks ! j)"
  shows "find_by_field get (length ks) D = Inr (find (\<lambda>i. D (ks ! i) = 0) [0..<length ks])"
proof (cases "ks = []")
  case True
  then show ?thesis by (simp add: find_by_field_def)
next
  case False
  then have last: "0 \<le> length ks - 1" "length ks - 1 < length ks" by simp_all
  obtain r where
    r: "find_loop get D 0 (length ks - 1) = Inr r" "r \<le> length ks - 1" "\<forall>i. i < r \<longrightarrow> D (ks ! i) < 0"
      "r = length ks - 1 \<or> \<not> D (ks ! r) < 0"
    using find_loop_bounds [OF last, of D] down by blast
  have "r < length ks" using r(2) last(2) by linarith
  then have res: "find_by_field get (length ks) D = Inr (if D (ks ! r) = 0 then Some r else None)"
    using r(1) False get_key by (simp add: find_by_field_def)
  show ?thesis
  proof (cases "D (ks ! r) = 0")
    case True
    have "find (\<lambda>i. D (ks ! i) = 0) [0..<length ks] = Some r"
      using r(3) True \<open>r < length ks\<close> by (intro find_Some_least) auto
    then show ?thesis using res True by simp
  next
    case no: False
    have "D (ks ! i) \<noteq> 0" if "i < length ks" for i
    proof (cases "i < r")
      case True
      then show ?thesis using r(3) by auto
    next
      case ge: False
      then show ?thesis
      proof (cases "0 < D (ks ! r)")
        case True
        then show ?thesis using up [of r i] ge that by auto
      next
        case False
        then have "r = length ks - 1" using r(4) no by auto
        then have "i = r" using ge that by linarith
        then show ?thesis using no by simp
      qed
    qed
    then have "find (\<lambda>i. D (ks ! i) = 0) [0..<length ks] = None" by (simp add: find_None_iff)
    then show ?thesis using res no by simp
  qed
qed

end

text \<open>The elements of a vector, through \<open>_vec_at\<close>, and their keys.\<close>

interpretation vec: key_vector "\<lambda>i. and_then (elem_at vec i) (\<lambda>x. Inr (key x))" "map key vec"
  for key :: "'a \<Rightarrow> 'k" and vec :: "'a list"
  by unfold_locales simp

section \<open>The string order\<close>

lemma strcmp_eq_0 [simp]: "strcmp s t = 0 \<longleftrightarrow> s = t"
  by (induction s t rule: strcmp.induct) auto

lemma strcmp_same [simp]: "strcmp s s = 0"
  by simp

lemma strcmp_trans:
  "strcmp a b \<le> 0 \<Longrightarrow> strcmp b c \<le> 0 \<Longrightarrow> strcmp a c \<le> 0"
proof (induction a b arbitrary: c rule: strcmp.induct)
  case (1)
  then show ?case by simp
next
  case (2 x xs)
  then show ?case by (cases c) auto
next
  case (3 x xs)
  then show ?case by simp
next
  case (4 x xs y ys)
  then show ?case by (cases c) (auto split: if_splits)
qed

lemma strcmp_sym: "0 < strcmp a b \<longleftrightarrow> strcmp b a < 0"
  by (induction a b rule: strcmp.induct) (auto simp: of_char_eq_iff linorder_neq_iff)

text \<open>A sorted vector of strings is sorted for the comparison with any key.\<close>

definition strings_sorted :: "(nat \<times> string) list \<Rightarrow> bool" where
  "strings_sorted ks \<longleftrightarrow> sorted_wrt (\<lambda>a b. strcmp (snd a) (snd b) \<le> 0) ks"

lemma strings_sortedD:
  assumes "strings_sorted ks" "i \<le> j" "j < length ks"
  shows "strcmp (snd (ks ! i)) (snd (ks ! j)) \<le> 0"
proof (cases "i = j")
  case True
  then show ?thesis by (simp only: strcmp_same)
next
  case False
  with assms sorted_wrt_nth_less [of _ ks i j] show ?thesis by (simp add: strings_sorted_def)
qed

lemma strings_sorted_monotone:
  assumes "strings_sorted ks" "i \<le> j" "j < length ks"
  shows "string_cmp (ks ! j) s < 0 \<Longrightarrow> string_cmp (ks ! i) s < 0"
    "0 < string_cmp (ks ! i) s \<Longrightarrow> 0 < string_cmp (ks ! j) s"
proof -
  let ?a = "snd (ks ! i)" and ?b = "snd (ks ! j)"
  note ab = strings_sortedD [OF assms]
  show "0 < string_cmp (ks ! i) s \<Longrightarrow> 0 < string_cmp (ks ! j) s"
    using strcmp_trans [OF ab, of s] unfolding string_cmp_def by (metis not_le)
  show "string_cmp (ks ! i) s < 0" if "string_cmp (ks ! j) s < 0"
  proof -
    have "strcmp ?a s \<le> 0" using strcmp_trans [OF ab, of s] that by (simp add: string_cmp_def)
    moreover have "strcmp ?a s \<noteq> 0"
    proof
      assume "strcmp ?a s = 0"
      then have "?a = s" by simp
      then have "strcmp s ?b \<le> 0" using ab by simp
      moreover have "0 < strcmp s ?b" using that strcmp_sym [of s ?b] by (simp add: string_cmp_def)
      ultimately show False by simp
    qed
    ultimately show ?thesis unfolding string_cmp_def by linarith
  qed
qed

section \<open>Properties\<close>

text \<open>On a vector whose strings can be read and are sorted, the binary search, the forward scan
  and the specification agree: the least index of the sought string, or not found; the
  backward scan gives the greatest, and no index assertion fails.\<close>

theorem string_vec_search:
  assumes "vec_len buf vec = Inr (length ks)"
    and "\<And>i. i < length ks \<Longrightarrow> and_then (string_vec_at buf vec i) (counted_string_at buf) = Inr (ks ! i)"
    and "strings_sorted ks"
  shows "string_vec_find buf vec s = string_vec_scan buf vec s \<and>
    string_vec_scan buf vec s = Inr (find (\<lambda>i. snd (ks ! i) = s) [0..<length ks]) \<and>
    string_vec_rscan buf vec s = Inr (find (\<lambda>i. snd (ks ! i) = s) (rev [0..<length ks]))"
proof -
  have k: "key_vector (string_elem buf vec) ks" using assms(2) by unfold_locales
  have z: "string_cmp v s = 0 \<longleftrightarrow> snd v = s" for v by (simp add: string_cmp_def)
  have "find_by_field (string_elem buf vec) (length ks) (\<lambda>v. string_cmp v s) =
      Inr (find (\<lambda>i. string_cmp (ks ! i) s = 0) [0..<length ks])"
    using strings_sorted_monotone [OF assms(3)] by (intro key_vector.find_sorted [OF k]) auto
  then show ?thesis
    using key_vector.scan_find [OF k order_refl, of 0 "\<lambda>v. string_cmp v s"]
      key_vector.rscan_find [OF k order_refl, of 0 "\<lambda>v. string_cmp v s"] assms(1)
    by (simp add: string_vec_find_def string_vec_scan_def string_vec_rscan_def z)
qed

text \<open>The strings \<open>a\<close> and \<open>c\<close> in a vector at position 4.\<close>

definition string_buffer :: "u8 list" where
  "string_buffer = [2, 0, 0, 0,  8, 0, 0, 0,  12, 0, 0, 0,  1, 0, 0, 0, 97, 0, 0, 0,  1, 0, 0, 0, 99, 0, 0, 0]"

lemmas string_read_defs = string_vec_at_def offset_vec_at_def vec_len_def read_le_def
  counted_string_at_def string_len_def c_string_at_def

lemma string_buffer_len: "vec_len string_buffer (Some 4) = Inr 2"
  by (simp add: string_read_defs string_buffer_def)

lemma string_buffer_at:
  "and_then (string_vec_at string_buffer (Some 4) 0) (counted_string_at string_buffer) = Inr (1, ''a'')"
  "and_then (string_vec_at string_buffer (Some 4) 1) (counted_string_at string_buffer) = Inr (1, ''c'')"
  by (simp_all add: string_read_defs string_buffer_def char_of_def bit_0)

theorem string_vec_search_witness:
  "string_vec_find string_buffer (Some 4) ''c'' = string_vec_scan string_buffer (Some 4) ''c'' \<and>
   string_vec_scan string_buffer (Some 4) ''c'' = Inr (Some 1)"
proof -
  let ?ks = "[(1, ''a''), (1, ''c'')] :: (nat \<times> string) list"
  have at: "and_then (string_vec_at string_buffer (Some 4) i) (counted_string_at string_buffer) = Inr (?ks ! i)"
    if "i < length ?ks" for i
  proof -
    from that have "i = 0 \<or> i = 1" by auto
    then show ?thesis using string_buffer_at by auto
  qed
  have "strings_sorted ?ks" by (simp add: strings_sorted_def)
  from string_vec_search [OF _ at this, of "''c''"] show ?thesis
    by (simp add: string_buffer_len upt_rec)
qed

text \<open>C33: sorting a vector and searching it find every key that it had, and no other.\<close>

theorem sort_then_find:
  "\<exists>ys r. heap_sort key xs = Inr ys \<and>
     find_by_field (\<lambda>i. and_then (elem_at ys i) (\<lambda>x. Inr (key x))) (length ys) (\<lambda>v. scalar_cmp v k) = Inr r \<and>
     (case r of None \<Rightarrow> k \<notin> key ` set xs | Some i \<Rightarrow> i < length ys \<and> key (ys ! i) = k)"
proof -
  obtain ys where ys: "heap_sort key xs = Inr ys" "mset ys = mset xs" "sorted (map key ys)"
    using heap_sorted [of key xs] by blast
  have le: "key (ys ! i) \<le> key (ys ! j)" if "i \<le> j" "j < length ys" for i j
    using sorted_nth_mono [OF ys(3) that(1)] that by simp
  have sign: "scalar_cmp v k = 0 \<longleftrightarrow> v = k" "scalar_cmp v k < 0 \<longleftrightarrow> v < k" "0 < scalar_cmp v k \<longleftrightarrow> k < v" for v
    by (auto simp: scalar_cmp_def)
  have "find_by_field (\<lambda>i. and_then (elem_at ys i) (\<lambda>x. Inr (key x))) (length (map key ys)) (\<lambda>v. scalar_cmp v k) =
      Inr (find (\<lambda>i. scalar_cmp (map key ys ! i) k = 0) [0..<length (map key ys)])"
    by (rule vec.find_sorted) (use le in \<open>auto simp: sign intro: le_less_trans less_le_trans\<close>)
  moreover have "find (\<lambda>i. scalar_cmp (map key ys ! i) k = 0) [0..<length (map key ys)] = None \<longleftrightarrow>
      k \<notin> key ` set xs"
  proof -
    have "set xs = set ys" using mset_eq_setD [OF ys(2)] by simp
    then show ?thesis by (auto simp: find_None_iff sign in_set_conv_nth) (metis imageI nth_mem)+
  qed
  ultimately show ?thesis
    using ys(1)
    by (auto simp: sign find_Some_iff split: option.splits intro!: exI [of _ ys])
qed

end
