(* ===== verification/Fb_Clone.thy ===== *)
theory Fb_Clone
  imports Fb_Builder
begin

text \<open>
  Cloning: the generated functions that copy a table of a finished buffer into a buffer under
  construction, \<open>src/backend/api-schema/response/gen/*_builder.h\<close>, and the macros they come from. A
  source is a buffer \<open>src\<close> with a pointer into it. The runtime has four more operations than the
  building functions use; its reference map is keyed by source pointers.
\<close>

section \<open>The runtime\<close>

record 'b cloning_runtime =
  cl_base :: "'b builder_runtime"
  cl_refmap_find :: "ptr \<Rightarrow> 'b \<Rightarrow> nat"
  cl_refmap_insert :: "ptr \<Rightarrow> nat \<Rightarrow> 'b \<Rightarrow> 'b \<times> nat"
  cl_create_string :: "u8 list \<Rightarrow> 'b \<Rightarrow> 'b \<times> nat"
  cl_table_add_copy :: "nat \<Rightarrow> u8 list \<Rightarrow> nat \<Rightarrow> nat \<Rightarrow> 'b \<Rightarrow> 'b \<times> nat option" \<comment> \<open>id, data, size, alignment\<close>

section \<open>The macros\<close>

text \<open>What a reader of the source returns, or how it fails.\<close>

definition build_read :: "'r outcome \<Rightarrow> ('b, 'r) build" where
  "build_read r = (\<lambda>b. and_then r (\<lambda>x. Inr (b, x)))"

text \<open>\<open>__flatbuffers_memoize_begin\<close>, \<open>_end\<close>, and both around one operation.\<close>

definition memoize_begin :: "'b cloning_runtime \<Rightarrow> ptr \<Rightarrow> ('b, nat) build \<Rightarrow> ('b, nat) build" where
  "memoize_begin C src rest =
     build_then (build_call (\<lambda>b. (b, cl_refmap_find C src b))) (\<lambda>ref.
       if ref \<noteq> 0 then build_return ref else rest)"

definition memoize_end :: "'b cloning_runtime \<Rightarrow> ptr \<Rightarrow> ('b, nat) build \<Rightarrow> ('b, nat) build" where
  "memoize_end C src op = build_then op (\<lambda>ref. build_call (cl_refmap_insert C src ref))"

definition memoize :: "'b cloning_runtime \<Rightarrow> ptr \<Rightarrow> ('b, nat) build \<Rightarrow> ('b, nat) build" where
  "memoize C src op = memoize_begin C src (memoize_end C src op)"

text \<open>\<open>string_clone\<close>; \<open>_vec_clone\<close> of a vector of bytes and of a vector of tables.\<close>

definition string_clone :: "'b cloning_runtime \<Rightarrow> u8 list \<Rightarrow> ptr \<Rightarrow> ('b, nat) build" where
  "string_clone C src s =
     memoize C s (build_then (build_read (vec_bytes src s)) (\<lambda>v. build_call (cl_create_string C v)))"

definition uint8_vec_clone :: "'b cloning_runtime \<Rightarrow> u8 list \<Rightarrow> ptr \<Rightarrow> ('b, nat) build" where
  "uint8_vec_clone C src vec =
     memoize C vec (build_then (build_read (vec_bytes src vec)) (\<lambda>v.
       build_call (rt_create_vector (cl_base C) v 1 1)))"

fun clone_elements ::
  "'b cloning_runtime \<Rightarrow> (nat \<Rightarrow> ptr outcome) \<Rightarrow> (ptr \<Rightarrow> ('b, nat) build) \<Rightarrow> nat list \<Rightarrow> ('b, bool) build" where
  "clone_elements C at clone [] = build_return True"
| "clone_elements C at clone (i # is) =
     build_then (build_read (at i)) (\<lambda>p.
     build_then (clone p) (\<lambda>e.
       if e = 0 then build_return False
       else build_then (build_call (rt_offset_vector_push (cl_base C) e)) (\<lambda>slot.
         if slot = None then build_return False else clone_elements C at clone is)))"

definition offset_vec_clone ::
  "'b cloning_runtime \<Rightarrow> u8 list \<Rightarrow> (nat \<Rightarrow> ptr outcome) \<Rightarrow> (ptr \<Rightarrow> ('b, nat) build) \<Rightarrow> ptr \<Rightarrow> ('b, nat) build" where
  "offset_vec_clone C src at clone vec =
     memoize_begin C vec
       (build_then (build_read (vec_len src vec)) (\<lambda>len.
        build_then (build_call (rt_start_offset_vector (cl_base C))) (\<lambda>rc.
          if rc \<noteq> 0 then build_return 0
          else build_then (clone_elements C at clone [0..<len]) (\<lambda>done.
            if done then memoize_end C vec (build_call (rt_end_offset_vector (cl_base C)))
            else build_return 0))))"

text \<open>\<open>_clone\<close> of a table: the fields that are present, one after another.\<close>

definition table_clone ::
  "'b cloning_runtime \<Rightarrow> ptr \<Rightarrow> ('b, int) build list \<Rightarrow> ('b, nat) build \<Rightarrow> ('b, nat) build" where
  "table_clone C t picks finish =
     memoize_begin C t
       (build_then (any_failed picks) (\<lambda>failed.
          if failed then build_return 0 else memoize_end C t finish))"

text \<open>\<open>_pick\<close> of a field: a missing field succeeds with 0. \<open>get\<close> reads the field of the source,
  \<open>add\<close> is the field's \<open>_add\<close>.\<close>

definition ref_field_pick ::
  "u8 list \<Rightarrow> (u8 list \<Rightarrow> ptr \<Rightarrow> ptr outcome) \<Rightarrow> (ptr \<Rightarrow> ('b, nat) build) \<Rightarrow> (nat \<Rightarrow> ('b, int) build) \<Rightarrow>
   ptr \<Rightarrow> ('b, int) build" where
  "ref_field_pick src get clone add t =
     build_then (build_read (get src t)) (\<lambda>p.
       if p = None then build_return 0 else build_then (clone p) add)"

definition string_field_pick ::
  "'b cloning_runtime \<Rightarrow> u8 list \<Rightarrow> (u8 list \<Rightarrow> ptr \<Rightarrow> ptr outcome) \<Rightarrow> (nat \<Rightarrow> ('b, int) build) \<Rightarrow>
   ptr \<Rightarrow> ('b, int) build" where
  "string_field_pick C src get add t = ref_field_pick src get (string_clone C src) add t"

definition source_bytes :: "u8 list \<Rightarrow> ptr \<Rightarrow> nat \<Rightarrow> u8 list outcome" where
  "source_bytes src p n =
     and_then (deref p) (\<lambda>q.
       if 0 \<le> q \<and> q + int n \<le> int (length src) then Inr (take n (drop (nat q) src)) else Inl Out_of_bounds)"

definition scalar_field_clone ::
  "'b cloning_runtime \<Rightarrow> u8 list \<Rightarrow> nat \<Rightarrow> nat \<Rightarrow> nat \<Rightarrow> ptr \<Rightarrow> ('b, int) build" where
  "scalar_field_clone C src ID S A p =
     build_then (build_read (source_bytes src p S)) (\<lambda>v.
     build_then (build_call (cl_table_add_copy C ID v S A)) (\<lambda>q.
       build_return (if q = None then - 1 else 0)))"

definition scalar_field_pick ::
  "'b cloning_runtime \<Rightarrow> u8 list \<Rightarrow> nat \<Rightarrow> nat \<Rightarrow> nat \<Rightarrow> ptr \<Rightarrow> ('b, int) build" where
  "scalar_field_pick C src ID S A t =
     build_then (build_read (scalar_field src ID t)) (\<lambda>p.
       if p = None then build_return 0 else scalar_field_clone C src ID S A p)"

definition union_field_pick ::
  "u8 list \<Rightarrow> (u8 list \<Rightarrow> ptr \<Rightarrow> fb_union outcome) \<Rightarrow> (fb_union \<Rightarrow> ('b, union_ref) build) \<Rightarrow>
   (union_ref \<Rightarrow> ('b, int) build) \<Rightarrow> ptr \<Rightarrow> ('b, int) build" where
  "union_field_pick src get clone add t =
     build_then (build_read (get src t)) (\<lambda>u.
       if u_type u \<noteq> 0 then build_then (clone u) add else build_return 0)"

section \<open>The generated functions\<close>

text \<open>\<open>r_check_contract_builder.h\<close>\<close>

definition Response_User_username_pick :: "'b cloning_runtime \<Rightarrow> u8 list \<Rightarrow> ptr \<Rightarrow> ('b, int) build" where
  "Response_User_username_pick C src t =
     string_field_pick C src Response_User_username_get (Response_User_username_add (cl_base C)) t"

definition Response_User_firstName_pick :: "'b cloning_runtime \<Rightarrow> u8 list \<Rightarrow> ptr \<Rightarrow> ('b, int) build" where
  "Response_User_firstName_pick C src t =
     string_field_pick C src Response_User_firstName_get (Response_User_firstName_add (cl_base C)) t"

definition Response_User_lastName_pick :: "'b cloning_runtime \<Rightarrow> u8 list \<Rightarrow> ptr \<Rightarrow> ('b, int) build" where
  "Response_User_lastName_pick C src t =
     string_field_pick C src Response_User_lastName_get (Response_User_lastName_add (cl_base C)) t"

definition Response_User_clone :: "'b cloning_runtime \<Rightarrow> u8 list \<Rightarrow> ptr \<Rightarrow> ('b, nat) build" where
  "Response_User_clone C src t =
     table_clone C t
       [Response_User_start (cl_base C),
        Response_User_username_pick C src t,
        Response_User_firstName_pick C src t,
        Response_User_lastName_pick C src t]
       (Response_User_end (cl_base C))"

definition Response_User_clone_as_root :: "'b cloning_runtime \<Rightarrow> u8 list \<Rightarrow> ptr \<Rightarrow> ('b, nat) build" where
  "Response_User_clone_as_root C src t =
     create_as_root (cl_base C) Response_User_identifier (Response_User_clone C src t)"

definition Response_CheckContract_id_pick :: "'b cloning_runtime \<Rightarrow> u8 list \<Rightarrow> ptr \<Rightarrow> ('b, int) build" where
  "Response_CheckContract_id_pick C src t =
     scalar_field_pick C src 0 8 8 t"

definition Response_CheckContract_name_pick :: "'b cloning_runtime \<Rightarrow> u8 list \<Rightarrow> ptr \<Rightarrow> ('b, int) build" where
  "Response_CheckContract_name_pick C src t =
     string_field_pick C src Response_CheckContract_name_get (Response_CheckContract_name_add (cl_base C)) t"

definition Response_CheckContract_description_pick :: "'b cloning_runtime \<Rightarrow> u8 list \<Rightarrow> ptr \<Rightarrow> ('b, int) build" where
  "Response_CheckContract_description_pick C src t =
     string_field_pick C src Response_CheckContract_description_get (Response_CheckContract_description_add (cl_base C)) t"

definition Response_CheckContract_price_pick :: "'b cloning_runtime \<Rightarrow> u8 list \<Rightarrow> ptr \<Rightarrow> ('b, int) build" where
  "Response_CheckContract_price_pick C src t =
     scalar_field_pick C src 3 8 8 t"

definition Response_CheckContract_attachment_pick :: "'b cloning_runtime \<Rightarrow> u8 list \<Rightarrow> ptr \<Rightarrow> ('b, int) build" where
  "Response_CheckContract_attachment_pick C src t =
     ref_field_pick src Response_CheckContract_attachment_get (uint8_vec_clone C src) (Response_CheckContract_attachment_add (cl_base C)) t"

definition Response_CheckContract_status_pick :: "'b cloning_runtime \<Rightarrow> u8 list \<Rightarrow> ptr \<Rightarrow> ('b, int) build" where
  "Response_CheckContract_status_pick C src t =
     scalar_field_pick C src 5 1 1 t"

definition Response_CheckContract_created_at_pick :: "'b cloning_runtime \<Rightarrow> u8 list \<Rightarrow> ptr \<Rightarrow> ('b, int) build" where
  "Response_CheckContract_created_at_pick C src t =
     scalar_field_pick C src 6 8 8 t"

definition Response_CheckContract_by_user_pick :: "'b cloning_runtime \<Rightarrow> u8 list \<Rightarrow> ptr \<Rightarrow> ('b, int) build" where
  "Response_CheckContract_by_user_pick C src t =
     ref_field_pick src Response_CheckContract_by_user_get (Response_User_clone C src) (Response_CheckContract_by_user_add (cl_base C)) t"

definition Response_CheckContract_clone :: "'b cloning_runtime \<Rightarrow> u8 list \<Rightarrow> ptr \<Rightarrow> ('b, nat) build" where
  "Response_CheckContract_clone C src t =
     table_clone C t
       [Response_CheckContract_start (cl_base C),
        Response_CheckContract_id_pick C src t,
        Response_CheckContract_price_pick C src t,
        Response_CheckContract_created_at_pick C src t,
        Response_CheckContract_name_pick C src t,
        Response_CheckContract_description_pick C src t,
        Response_CheckContract_attachment_pick C src t,
        Response_CheckContract_by_user_pick C src t,
        Response_CheckContract_status_pick C src t]
       (Response_CheckContract_end (cl_base C))"

definition Response_CheckContract_vec_clone :: "'b cloning_runtime \<Rightarrow> u8 list \<Rightarrow> ptr \<Rightarrow> ('b, nat) build" where
  "Response_CheckContract_vec_clone C src vec =
     offset_vec_clone C src (\<lambda>i. Response_CheckContract_vec_at src vec i) (Response_CheckContract_clone C src) vec"

definition Response_CheckContract_clone_as_root :: "'b cloning_runtime \<Rightarrow> u8 list \<Rightarrow> ptr \<Rightarrow> ('b, nat) build" where
  "Response_CheckContract_clone_as_root C src t =
     create_as_root (cl_base C) Response_CheckContract_identifier (Response_CheckContract_clone C src t)"

text \<open>\<open>r_login_builder.h\<close>\<close>

definition Response_Login_token_pick :: "'b cloning_runtime \<Rightarrow> u8 list \<Rightarrow> ptr \<Rightarrow> ('b, int) build" where
  "Response_Login_token_pick C src t =
     string_field_pick C src Response_Login_token_get (Response_Login_token_add (cl_base C)) t"

definition Response_Login_clone :: "'b cloning_runtime \<Rightarrow> u8 list \<Rightarrow> ptr \<Rightarrow> ('b, nat) build" where
  "Response_Login_clone C src t =
     table_clone C t
       [Response_Login_start (cl_base C),
        Response_Login_token_pick C src t]
       (Response_Login_end (cl_base C))"

definition Response_Login_clone_as_root :: "'b cloning_runtime \<Rightarrow> u8 list \<Rightarrow> ptr \<Rightarrow> ('b, nat) build" where
  "Response_Login_clone_as_root C src t =
     create_as_root (cl_base C) Response_Login_identifier (Response_Login_clone C src t)"

text \<open>\<open>r_register_builder.h\<close>\<close>

definition Response_Register_token_pick :: "'b cloning_runtime \<Rightarrow> u8 list \<Rightarrow> ptr \<Rightarrow> ('b, int) build" where
  "Response_Register_token_pick C src t =
     string_field_pick C src Response_Register_token_get (Response_Register_token_add (cl_base C)) t"

definition Response_Register_clone :: "'b cloning_runtime \<Rightarrow> u8 list \<Rightarrow> ptr \<Rightarrow> ('b, nat) build" where
  "Response_Register_clone C src t =
     table_clone C t
       [Response_Register_start (cl_base C),
        Response_Register_token_pick C src t]
       (Response_Register_end (cl_base C))"

definition Response_Register_clone_as_root :: "'b cloning_runtime \<Rightarrow> u8 list \<Rightarrow> ptr \<Rightarrow> ('b, nat) build" where
  "Response_Register_clone_as_root C src t =
     create_as_root (cl_base C) Response_Register_identifier (Response_Register_clone C src t)"

text \<open>\<open>r_get_me_builder.h\<close>\<close>

definition Response_GetMe_username_pick :: "'b cloning_runtime \<Rightarrow> u8 list \<Rightarrow> ptr \<Rightarrow> ('b, int) build" where
  "Response_GetMe_username_pick C src t =
     string_field_pick C src Response_GetMe_username_get (Response_GetMe_username_add (cl_base C)) t"

definition Response_GetMe_password_pick :: "'b cloning_runtime \<Rightarrow> u8 list \<Rightarrow> ptr \<Rightarrow> ('b, int) build" where
  "Response_GetMe_password_pick C src t =
     string_field_pick C src Response_GetMe_password_get (Response_GetMe_password_add (cl_base C)) t"

definition Response_GetMe_firstName_pick :: "'b cloning_runtime \<Rightarrow> u8 list \<Rightarrow> ptr \<Rightarrow> ('b, int) build" where
  "Response_GetMe_firstName_pick C src t =
     string_field_pick C src Response_GetMe_firstName_get (Response_GetMe_firstName_add (cl_base C)) t"

definition Response_GetMe_lastName_pick :: "'b cloning_runtime \<Rightarrow> u8 list \<Rightarrow> ptr \<Rightarrow> ('b, int) build" where
  "Response_GetMe_lastName_pick C src t =
     string_field_pick C src Response_GetMe_lastName_get (Response_GetMe_lastName_add (cl_base C)) t"

definition Response_GetMe_admin_pick :: "'b cloning_runtime \<Rightarrow> u8 list \<Rightarrow> ptr \<Rightarrow> ('b, int) build" where
  "Response_GetMe_admin_pick C src t =
     scalar_field_pick C src 4 1 1 t"

definition Response_GetMe_clone :: "'b cloning_runtime \<Rightarrow> u8 list \<Rightarrow> ptr \<Rightarrow> ('b, nat) build" where
  "Response_GetMe_clone C src t =
     table_clone C t
       [Response_GetMe_start (cl_base C),
        Response_GetMe_username_pick C src t,
        Response_GetMe_password_pick C src t,
        Response_GetMe_firstName_pick C src t,
        Response_GetMe_lastName_pick C src t,
        Response_GetMe_admin_pick C src t]
       (Response_GetMe_end (cl_base C))"

definition Response_GetMe_clone_as_root :: "'b cloning_runtime \<Rightarrow> u8 list \<Rightarrow> ptr \<Rightarrow> ('b, nat) build" where
  "Response_GetMe_clone_as_root C src t =
     create_as_root (cl_base C) Response_GetMe_identifier (Response_GetMe_clone C src t)"

text \<open>\<open>r_edit_me_builder.h\<close>\<close>

definition Response_EditMe_token_pick :: "'b cloning_runtime \<Rightarrow> u8 list \<Rightarrow> ptr \<Rightarrow> ('b, int) build" where
  "Response_EditMe_token_pick C src t =
     string_field_pick C src Response_EditMe_token_get (Response_EditMe_token_add (cl_base C)) t"

definition Response_EditMe_clone :: "'b cloning_runtime \<Rightarrow> u8 list \<Rightarrow> ptr \<Rightarrow> ('b, nat) build" where
  "Response_EditMe_clone C src t =
     table_clone C t
       [Response_EditMe_start (cl_base C),
        Response_EditMe_token_pick C src t]
       (Response_EditMe_end (cl_base C))"

definition Response_EditMe_clone_as_root :: "'b cloning_runtime \<Rightarrow> u8 list \<Rightarrow> ptr \<Rightarrow> ('b, nat) build" where
  "Response_EditMe_clone_as_root C src t =
     create_as_root (cl_base C) Response_EditMe_identifier (Response_EditMe_clone C src t)"

text \<open>\<open>r_request_contract_builder.h\<close>\<close>

definition Response_RequestContract_result_pick :: "'b cloning_runtime \<Rightarrow> u8 list \<Rightarrow> ptr \<Rightarrow> ('b, int) build" where
  "Response_RequestContract_result_pick C src t =
     ref_field_pick src Response_RequestContract_result_get (Response_CheckContract_clone C src) (Response_RequestContract_result_add (cl_base C)) t"

definition Response_RequestContract_clone :: "'b cloning_runtime \<Rightarrow> u8 list \<Rightarrow> ptr \<Rightarrow> ('b, nat) build" where
  "Response_RequestContract_clone C src t =
     table_clone C t
       [Response_RequestContract_start (cl_base C),
        Response_RequestContract_result_pick C src t]
       (Response_RequestContract_end (cl_base C))"

definition Response_RequestContract_clone_as_root :: "'b cloning_runtime \<Rightarrow> u8 list \<Rightarrow> ptr \<Rightarrow> ('b, nat) build" where
  "Response_RequestContract_clone_as_root C src t =
     create_as_root (cl_base C) Response_RequestContract_identifier (Response_RequestContract_clone C src t)"

text \<open>\<open>r_list_contracts_builder.h\<close>\<close>

definition Response_ListContracts_contracts_pick :: "'b cloning_runtime \<Rightarrow> u8 list \<Rightarrow> ptr \<Rightarrow> ('b, int) build" where
  "Response_ListContracts_contracts_pick C src t =
     ref_field_pick src Response_ListContracts_contracts_get (Response_CheckContract_vec_clone C src) (Response_ListContracts_contracts_add (cl_base C)) t"

definition Response_ListContracts_clone :: "'b cloning_runtime \<Rightarrow> u8 list \<Rightarrow> ptr \<Rightarrow> ('b, nat) build" where
  "Response_ListContracts_clone C src t =
     table_clone C t
       [Response_ListContracts_start (cl_base C),
        Response_ListContracts_contracts_pick C src t]
       (Response_ListContracts_end (cl_base C))"

definition Response_ListContracts_clone_as_root :: "'b cloning_runtime \<Rightarrow> u8 list \<Rightarrow> ptr \<Rightarrow> ('b, nat) build" where
  "Response_ListContracts_clone_as_root C src t =
     create_as_root (cl_base C) Response_ListContracts_identifier (Response_ListContracts_clone C src t)"

text \<open>\<open>response_api_builder.h\<close>\<close>

definition Response_MessageType_clone :: "'b cloning_runtime \<Rightarrow> u8 list \<Rightarrow> fb_union \<Rightarrow> ('b, union_ref) build" where
  "Response_MessageType_clone C src u =
     (let v = u_value u
      in if u_type u = 1 then build_then (Response_Login_clone C src v) (\<lambda>r. build_return (Response_MessageType_as_Login r))
         else if u_type u = 2 then build_then (Response_Register_clone C src v) (\<lambda>r. build_return (Response_MessageType_as_Register r))
         else if u_type u = 3 then build_then (Response_GetMe_clone C src v) (\<lambda>r. build_return (Response_MessageType_as_GetMe r))
         else if u_type u = 4 then build_then (Response_EditMe_clone C src v) (\<lambda>r. build_return (Response_MessageType_as_EditMe r))
         else if u_type u = 5 then build_then (Response_RequestContract_clone C src v) (\<lambda>r. build_return (Response_MessageType_as_RequestContract r))
         else if u_type u = 6 then build_then (Response_ListContracts_clone C src v) (\<lambda>r. build_return (Response_MessageType_as_ListContracts r))
         else if u_type u = 7 then build_then (Response_CheckContract_clone C src v) (\<lambda>r. build_return (Response_MessageType_as_CheckContract r))
         else build_return Response_MessageType_as_NONE)"

definition Response_Message_msg_pick :: "'b cloning_runtime \<Rightarrow> u8 list \<Rightarrow> ptr \<Rightarrow> ('b, int) build" where
  "Response_Message_msg_pick C src t =
     union_field_pick src Response_Message_msg_union (Response_MessageType_clone C src) (Response_Message_msg_add (cl_base C)) t"

definition Response_Message_error_pick :: "'b cloning_runtime \<Rightarrow> u8 list \<Rightarrow> ptr \<Rightarrow> ('b, int) build" where
  "Response_Message_error_pick C src t =
     scalar_field_pick C src 2 1 1 t"

definition Response_Message_errorDescription_pick :: "'b cloning_runtime \<Rightarrow> u8 list \<Rightarrow> ptr \<Rightarrow> ('b, int) build" where
  "Response_Message_errorDescription_pick C src t =
     string_field_pick C src Response_Message_errorDescription_get (Response_Message_errorDescription_add (cl_base C)) t"

definition Response_Message_clone :: "'b cloning_runtime \<Rightarrow> u8 list \<Rightarrow> ptr \<Rightarrow> ('b, nat) build" where
  "Response_Message_clone C src t =
     table_clone C t
       [Response_Message_start (cl_base C),
        Response_Message_msg_pick C src t,
        Response_Message_errorDescription_pick C src t,
        Response_Message_error_pick C src t]
       (Response_Message_end (cl_base C))"

definition Response_Message_clone_as_root :: "'b cloning_runtime \<Rightarrow> u8 list \<Rightarrow> ptr \<Rightarrow> ('b, nat) build" where
  "Response_Message_clone_as_root C src t =
     create_as_root (cl_base C) Response_Message_identifier (Response_Message_clone C src t)"

end
