(* ===== verification/Fb_Open.thy ===== *)
theory Fb_Open
  imports Fb_Clone
begin

text \<open>
  Buffers with a size prefix, open strings and vectors: the macros of
  \<open>src/backend/api-schema/response/gen/flatbuffers_common_builder.h\<close> that put a string or a vector together
  piece by piece, cut slices out of a finished buffer, build vectors of unions, and do the same for a
  field of an open table. \<open>D\<close> is the runtime, \<open>src\<close> a finished buffer; a null result is 0 or
  \<open>None\<close>, as in \<open>Fb_Builder\<close>. An array argument is the list of its bytes or of its elements.
\<close>

section \<open>The runtime\<close>

record 'b editing_runtime =
  ed_cloning :: "'b cloning_runtime"
  ed_native_pe :: bool \<comment> \<open>\<open>is_native_pe\<close>: the target has the byte order of the wire\<close>
  ed_read :: "nat \<Rightarrow> nat \<Rightarrow> nat \<Rightarrow> 'b \<Rightarrow> u8 list" \<comment> \<open>\<open>n\<close> bytes at \<open>p + k\<close>\<close>
  ed_write :: "nat \<Rightarrow> nat \<Rightarrow> u8 list \<Rightarrow> 'b \<Rightarrow> 'b" \<comment> \<open>bytes at \<open>p + k\<close>\<close>
  ed_write_ref :: "nat \<Rightarrow> nat \<Rightarrow> nat \<Rightarrow> 'b \<Rightarrow> 'b" \<comment> \<open>\<open>p[i] = ref\<close>\<close>
  ed_start_buffer :: "string option \<Rightarrow> nat \<Rightarrow> nat \<Rightarrow> 'b \<Rightarrow> 'b \<times> int" \<comment> \<open>identifier, block alignment, flags\<close>
  ed_start_vector :: "nat \<Rightarrow> nat \<Rightarrow> nat \<Rightarrow> 'b \<Rightarrow> 'b \<times> int" \<comment> \<open>size, alignment, most elements\<close>
  ed_extend_vector :: "nat \<Rightarrow> 'b \<Rightarrow> 'b \<times> nat option"
  ed_append_vector :: "u8 list \<Rightarrow> nat \<Rightarrow> 'b \<Rightarrow> 'b \<times> nat option"
  ed_truncate_vector :: "nat \<Rightarrow> 'b \<Rightarrow> 'b \<times> int"
  ed_vector_edit :: "'b \<Rightarrow> nat"
  ed_vector_count :: "'b \<Rightarrow> nat"
  ed_end_vector :: "'b \<Rightarrow> 'b \<times> nat"
  ed_create_offset_vector :: "nat list \<Rightarrow> 'b \<Rightarrow> 'b \<times> nat"
  ed_extend_offset_vector :: "nat \<Rightarrow> 'b \<Rightarrow> 'b \<times> nat option"
  ed_append_offset_vector :: "nat list \<Rightarrow> 'b \<Rightarrow> 'b \<times> nat option"
  ed_truncate_offset_vector :: "nat \<Rightarrow> 'b \<Rightarrow> 'b \<times> int"
  ed_offset_vector_edit :: "'b \<Rightarrow> nat"
  ed_offset_vector_count :: "'b \<Rightarrow> nat"
  ed_start_union_vector :: "'b \<Rightarrow> 'b \<times> int"
  ed_end_union_vector :: "'b \<Rightarrow> 'b \<times> nat \<times> nat"
  ed_create_union_vector :: "union_ref list \<Rightarrow> 'b \<Rightarrow> 'b \<times> nat \<times> nat"
  ed_create_type_vector :: "u8 list \<Rightarrow> 'b \<Rightarrow> 'b \<times> nat"
  ed_extend_union_vector :: "nat \<Rightarrow> 'b \<Rightarrow> 'b \<times> nat option"
  ed_append_union_vector :: "union_ref list \<Rightarrow> 'b \<Rightarrow> 'b \<times> nat option"
  ed_truncate_union_vector :: "nat \<Rightarrow> 'b \<Rightarrow> 'b \<times> int"
  ed_union_vector_edit :: "'b \<Rightarrow> nat"
  ed_union_vector_count :: "'b \<Rightarrow> nat"
  ed_union_vector_push :: "union_ref \<Rightarrow> 'b \<Rightarrow> 'b \<times> nat option"
  ed_start_string :: "'b \<Rightarrow> 'b \<times> int"
  ed_end_string :: "'b \<Rightarrow> 'b \<times> nat"
  ed_create_string_strn :: "string \<Rightarrow> nat \<Rightarrow> 'b \<Rightarrow> 'b \<times> nat"
  ed_append_string :: "u8 list \<Rightarrow> 'b \<Rightarrow> 'b \<times> nat option"
  ed_append_string_str :: "string \<Rightarrow> 'b \<Rightarrow> 'b \<times> nat option"
  ed_append_string_strn :: "string \<Rightarrow> nat \<Rightarrow> 'b \<Rightarrow> 'b \<times> nat option"
  ed_extend_string :: "nat \<Rightarrow> 'b \<Rightarrow> 'b \<times> nat option"
  ed_truncate_string :: "nat \<Rightarrow> 'b \<Rightarrow> 'b \<times> int"
  ed_string_edit :: "'b \<Rightarrow> nat"
  ed_string_len :: "'b \<Rightarrow> nat"

abbreviation ed_base :: "'b editing_runtime \<Rightarrow> 'b builder_runtime" where
  "ed_base D \<equiv> cl_base (ed_cloning D)"

text \<open>A call that only looks at the builder; the first \<open>n\<close> elements of an array argument; \<open>n\<close> bytes of
  the source, none of which is read when there are none.\<close>

definition build_get :: "('b \<Rightarrow> 'r) \<Rightarrow> ('b, 'r) build" where
  "build_get f = build_call (\<lambda>b. (b, f b))"

definition block :: "'a list \<Rightarrow> nat \<Rightarrow> 'a list outcome" where
  "block xs n = (if n \<le> length xs then Inr (take n xs) else Inl Out_of_bounds)"

definition source_block :: "u8 list \<Rightarrow> ptr \<Rightarrow> nat \<Rightarrow> u8 list outcome" where
  "source_block src p n = (if n = 0 then Inr [] else source_bytes src p n)"

text \<open>An \<open>int\<close> returned as a reference: the reference has the bits of the \<open>int\<close>.\<close>

definition ref_of_int :: "int \<Rightarrow> nat" where
  "ref_of_int rc = nat (rc mod 2 ^ 32)"

definition count_max :: "nat \<Rightarrow> nat" where
  "count_max S = (2 ^ 32 - 1) div (if S = 0 then 1 else S)"

section \<open>Buffers\<close>

text \<open>\<open>__flatbuffers_build_buffer\<close> and the roots of a table with a size prefix; the flag \<open>flatcc_builder_with_size\<close> is 2.\<close>

definition buffer_start_with_size :: "'b editing_runtime \<Rightarrow> string option \<Rightarrow> ('b, int) build" where
  "buffer_start_with_size D fid = build_call (ed_start_buffer D fid 0 2)"

definition buffer_start_aligned :: "'b editing_runtime \<Rightarrow> string option \<Rightarrow> nat \<Rightarrow> ('b, int) build" where
  "buffer_start_aligned D fid block_align = build_call (ed_start_buffer D fid block_align 0)"

definition buffer_start_aligned_with_size :: "'b editing_runtime \<Rightarrow> string option \<Rightarrow> nat \<Rightarrow> ('b, int) build" where
  "buffer_start_aligned_with_size D fid block_align = build_call (ed_start_buffer D fid block_align 2)"

definition start_as_root_with_size ::
  "'b editing_runtime \<Rightarrow> string option \<Rightarrow> ('b, int) build \<Rightarrow> ('b, int) build" where
  "start_as_root_with_size D fid start =
     build_then (buffer_start_with_size D fid) (\<lambda>rc. if rc \<noteq> 0 then build_return (- 1) else start)"

definition create_as_root_with_size ::
  "'b editing_runtime \<Rightarrow> string option \<Rightarrow> ('b, nat) build \<Rightarrow> ('b, nat) build" where
  "create_as_root_with_size D fid create =
     build_then (buffer_start_with_size D fid) (\<lambda>rc.
       if rc \<noteq> 0 then build_return 0 else build_then create (buffer_end (ed_base D)))"

definition clone_as_root_with_size ::
  "'b editing_runtime \<Rightarrow> string option \<Rightarrow> ('b, nat) build \<Rightarrow> ('b, nat) build" where
  "clone_as_root_with_size D fid clone =
     build_then (buffer_start_with_size D fid) (\<lambda>rc.
       if rc \<noteq> 0 then build_return 0 else build_then clone (buffer_end (ed_base D)))"

section \<open>Strings\<close>

text \<open>\<open>__flatbuffers_build_string\<close>\<close>

definition string_start :: "'b editing_runtime \<Rightarrow> ('b, int) build" where
  "string_start D = build_call (ed_start_string D)"

definition string_end :: "'b editing_runtime \<Rightarrow> ('b, nat) build" where
  "string_end D = build_call (ed_end_string D)"

definition string_create :: "'b editing_runtime \<Rightarrow> u8 list \<Rightarrow> nat \<Rightarrow> ('b, nat) build" where
  "string_create D s len =
     build_then (build_read (block s len)) (\<lambda>v. build_call (cl_create_string (ed_cloning D) v))"

definition string_create_strn :: "'b editing_runtime \<Rightarrow> string \<Rightarrow> nat \<Rightarrow> ('b, nat) build" where
  "string_create_strn D s max_len = build_call (ed_create_string_strn D s max_len)"

text \<open>The bounds of a slice: \<open>if (index >= n) index = n; n -= index; if (len > n) len = n\<close>\<close>

definition slice_bounds :: "nat \<Rightarrow> nat \<Rightarrow> nat \<Rightarrow> nat \<times> nat" where
  "slice_bounds n index len =
     (let index = (if index \<ge> n then n else index);
          n = n - index;
          len = (if len > n then n else len)
      in (index, len))"

definition string_slice :: "'b editing_runtime \<Rightarrow> u8 list \<Rightarrow> ptr \<Rightarrow> nat \<Rightarrow> nat \<Rightarrow> ('b, nat) build" where
  "string_slice D src s index len =
     build_then (build_read (string_len src s)) (\<lambda>n.
       let (index, len) = slice_bounds n index len
       in build_then (build_read (source_block src (map_option (\<lambda>p. p + int index) s) len)) (\<lambda>v.
          build_call (cl_create_string (ed_cloning D) v)))"

text \<open>\<open>__flatbuffers_build_string_ops\<close>\<close>

definition string_append :: "'b editing_runtime \<Rightarrow> u8 list \<Rightarrow> nat \<Rightarrow> ('b, nat option) build" where
  "string_append D s len = build_then (build_read (block s len)) (\<lambda>v. build_call (ed_append_string D v))"

definition string_append_str :: "'b editing_runtime \<Rightarrow> string \<Rightarrow> ('b, nat option) build" where
  "string_append_str D s = build_call (ed_append_string_str D s)"

definition string_append_strn :: "'b editing_runtime \<Rightarrow> string \<Rightarrow> nat \<Rightarrow> ('b, nat option) build" where
  "string_append_strn D s len = build_call (ed_append_string_strn D s len)"

definition string_reserved_len :: "'b editing_runtime \<Rightarrow> ('b, nat) build" where
  "string_reserved_len D = build_get (ed_string_len D)"

definition string_extend :: "'b editing_runtime \<Rightarrow> nat \<Rightarrow> ('b, nat option) build" where
  "string_extend D len = build_call (ed_extend_string D len)"

definition string_edit :: "'b editing_runtime \<Rightarrow> ('b, nat) build" where
  "string_edit D = build_get (ed_string_edit D)"

definition string_truncate :: "'b editing_runtime \<Rightarrow> nat \<Rightarrow> ('b, int) build" where
  "string_truncate D len = build_call (ed_truncate_string D len)"

section \<open>Vectors of scalars\<close>

text \<open>An element has \<open>S\<close> bytes and is given and kept as its bytes; \<open>_cast_to_pe\<close> reverses them where the byte order of
  the target is not the one of the wire.\<close>

definition cast_to_pe :: "'b editing_runtime \<Rightarrow> u8 list \<Rightarrow> u8 list" where
  "cast_to_pe D v = (if ed_native_pe D then v else rev v)"

text \<open>\<open>_to_pe\<close> and \<open>_copy_to_pe\<close>: in place, and from an array of the caller.\<close>

definition to_pe :: "'b editing_runtime \<Rightarrow> nat \<Rightarrow> nat \<Rightarrow> nat \<Rightarrow> ('b, unit) build" where
  "to_pe D S p k =
     build_then (build_get (ed_read D p k S)) (\<lambda>v. build_do (ed_write D p k (cast_to_pe D v)))"

definition copy_to_pe :: "'b editing_runtime \<Rightarrow> nat \<Rightarrow> nat \<Rightarrow> nat \<Rightarrow> u8 list \<Rightarrow> ('b, unit) build" where
  "copy_to_pe D S p k data =
     build_then (build_read (block (drop k data) S)) (\<lambda>v. build_do (ed_write D p k (cast_to_pe D v)))"

fun for_each :: "('a \<Rightarrow> ('b, unit) build) \<Rightarrow> 'a list \<Rightarrow> ('b, unit) build" where
  "for_each f [] = build_return ()"
| "for_each f (i # is) = build_then (f i) (\<lambda>_. for_each f is)"

text \<open>\<open>__flatbuffers_build_vector\<close>\<close>

definition vec_start :: "'b editing_runtime \<Rightarrow> nat \<Rightarrow> nat \<Rightarrow> ('b, int) build" where
  "vec_start D S A = build_call (ed_start_vector D S A (count_max S))"

definition vec_end_pe :: "'b editing_runtime \<Rightarrow> ('b, nat) build" where
  "vec_end_pe D = build_call (ed_end_vector D)"

definition vec_end :: "'b editing_runtime \<Rightarrow> nat \<Rightarrow> ('b, nat) build" where
  "vec_end D S =
     (if \<not> ed_native_pe D
      then build_then (build_get (ed_vector_edit D)) (\<lambda>p.
           build_then (build_get (ed_vector_count D)) (\<lambda>n.
           build_then (for_each (\<lambda>i. to_pe D S p (i * S)) [0..<n]) (\<lambda>_. vec_end_pe D)))
      else vec_end_pe D)"

definition vec_create_pe :: "'b editing_runtime \<Rightarrow> nat \<Rightarrow> nat \<Rightarrow> u8 list \<Rightarrow> nat \<Rightarrow> ('b, nat) build" where
  "vec_create_pe D S A data len =
     build_then (build_read (block data (S * len))) (\<lambda>v. build_call (rt_create_vector (ed_base D) v S A))"

definition vec_create :: "'b editing_runtime \<Rightarrow> nat \<Rightarrow> nat \<Rightarrow> u8 list \<Rightarrow> nat \<Rightarrow> ('b, nat) build" where
  "vec_create D S A data len =
     (if \<not> ed_native_pe D
      then build_then (build_call (ed_start_vector D S A (count_max S))) (\<lambda>ret.
           if ret \<noteq> 0 then build_return (ref_of_int ret)
           else build_then (build_call (ed_extend_vector D len)) (\<lambda>p.
             case p of
               None \<Rightarrow> build_return 0
             | Some p \<Rightarrow>
                 build_then (for_each (\<lambda>i. copy_to_pe D S p (i * S) data) [0..<len]) (\<lambda>_. vec_end_pe D)))
      else vec_create_pe D S A data len)"

definition vec_clone :: "'b editing_runtime \<Rightarrow> u8 list \<Rightarrow> nat \<Rightarrow> nat \<Rightarrow> ptr \<Rightarrow> ('b, nat) build" where
  "vec_clone D src S A vec =
     memoize (ed_cloning D) vec
       (build_then (build_read (vec_len src vec)) (\<lambda>n.
        build_then (build_read (source_block src vec (S * n))) (\<lambda>v.
          build_call (rt_create_vector (ed_base D) v S A))))"

definition vec_slice :: "'b editing_runtime \<Rightarrow> u8 list \<Rightarrow> nat \<Rightarrow> nat \<Rightarrow> ptr \<Rightarrow> nat \<Rightarrow> nat \<Rightarrow> ('b, nat) build" where
  "vec_slice D src S A vec index len =
     build_then (build_read (vec_len src vec)) (\<lambda>n.
       let (index, len) = slice_bounds n index len
       in build_then (build_read (source_block src (map_option (\<lambda>p. p + int (S * index)) vec) (S * len))) (\<lambda>v.
          build_call (rt_create_vector (ed_base D) v S A)))"

text \<open>\<open>__flatbuffers_build_vector_ops\<close>\<close>

definition vec_extend :: "'b editing_runtime \<Rightarrow> nat \<Rightarrow> ('b, nat option) build" where
  "vec_extend D len = build_call (ed_extend_vector D len)"

definition vec_append :: "'b editing_runtime \<Rightarrow> nat \<Rightarrow> u8 list \<Rightarrow> nat \<Rightarrow> ('b, nat option) build" where
  "vec_append D S data len =
     build_then (build_read (block data (S * len))) (\<lambda>v. build_call (ed_append_vector D v len))"

definition vec_truncate :: "'b editing_runtime \<Rightarrow> nat \<Rightarrow> ('b, int) build" where
  "vec_truncate D len = build_call (ed_truncate_vector D len)"

definition vec_edit :: "'b editing_runtime \<Rightarrow> ('b, nat) build" where
  "vec_edit D = build_get (ed_vector_edit D)"

definition vec_reserved_len :: "'b editing_runtime \<Rightarrow> ('b, nat) build" where
  "vec_reserved_len D = build_get (ed_vector_count D)"

text \<open>\<open>_push\<close> copies with \<open>memcpy\<close>; \<open>_push_copy\<close> and \<open>_push_clone\<close> assign the element that \<open>p\<close> points to;
  \<open>_push_create\<close> assigns a value.\<close>

definition vec_push :: "'b editing_runtime \<Rightarrow> nat \<Rightarrow> u8 list \<Rightarrow> ('b, nat option) build" where
  "vec_push D S p =
     build_then (build_call (ed_extend_vector D 1)) (\<lambda>q.
       case q of
         None \<Rightarrow> build_return None
       | Some q \<Rightarrow>
           build_then (build_read (block p S)) (\<lambda>v.
           build_then (build_do (ed_write D q 0 v)) (\<lambda>_. build_return (Some q))))"

definition vec_push_create :: "'b editing_runtime \<Rightarrow> u8 list \<Rightarrow> ('b, nat option) build" where
  "vec_push_create D v0 =
     build_then (build_call (ed_extend_vector D 1)) (\<lambda>q.
       case q of
         None \<Rightarrow> build_return None
       | Some q \<Rightarrow> build_then (build_do (ed_write D q 0 v0)) (\<lambda>_. build_return (Some q)))"

definition vec_push_copy :: "'b editing_runtime \<Rightarrow> nat \<Rightarrow> u8 list \<Rightarrow> ('b, nat option) build" where
  "vec_push_copy D S p = vec_push D S p"

section \<open>Vectors of references\<close>

text \<open>\<open>__flatbuffers_build_offset_vector\<close> and \<open>_ops\<close>; \<open>_start\<close>, \<open>_end\<close>, \<open>_push\<close> and \<open>_clone\<close> are in
  \<open>Fb_Builder\<close> and \<open>Fb_Clone\<close>.\<close>

definition offset_vec_create :: "'b editing_runtime \<Rightarrow> nat list \<Rightarrow> nat \<Rightarrow> ('b, nat) build" where
  "offset_vec_create D data len =
     build_then (build_read (block data len)) (\<lambda>v. build_call (ed_create_offset_vector D v))"

definition offset_vec_extend :: "'b editing_runtime \<Rightarrow> nat \<Rightarrow> ('b, nat option) build" where
  "offset_vec_extend D len = build_call (ed_extend_offset_vector D len)"

definition offset_vec_append :: "'b editing_runtime \<Rightarrow> nat list \<Rightarrow> nat \<Rightarrow> ('b, nat option) build" where
  "offset_vec_append D data len =
     build_then (build_read (block data len)) (\<lambda>v. build_call (ed_append_offset_vector D v))"

definition offset_vec_truncate :: "'b editing_runtime \<Rightarrow> nat \<Rightarrow> ('b, int) build" where
  "offset_vec_truncate D len = build_call (ed_truncate_offset_vector D len)"

definition offset_vec_edit :: "'b editing_runtime \<Rightarrow> ('b, nat) build" where
  "offset_vec_edit D = build_get (ed_offset_vector_edit D)"

definition offset_vec_reserved_len :: "'b editing_runtime \<Rightarrow> ('b, nat) build" where
  "offset_vec_reserved_len D = build_get (ed_offset_vector_count D)"

text \<open>\<open>__flatbuffers_build_string_vector_ops\<close> and \<open>__flatbuffers_build_table_vector_ops\<close>: the reference of
  a new element, pushed.\<close>

abbreviation push_of :: "'b editing_runtime \<Rightarrow> ('b, nat) build \<Rightarrow> ('b, nat option) build" where
  "push_of D m \<equiv> build_then m (offset_vec_push (ed_base D))"

definition string_vec_push_start :: "'b editing_runtime \<Rightarrow> ('b, int) build" where
  "string_vec_push_start D = string_start D"

definition string_vec_push_end :: "'b editing_runtime \<Rightarrow> ('b, nat option) build" where
  "string_vec_push_end D = push_of D (string_end D)"

definition string_vec_push_create :: "'b editing_runtime \<Rightarrow> u8 list \<Rightarrow> nat \<Rightarrow> ('b, nat option) build" where
  "string_vec_push_create D s len = push_of D (string_create D s len)"

definition string_vec_push_create_str :: "'b editing_runtime \<Rightarrow> string \<Rightarrow> ('b, nat option) build" where
  "string_vec_push_create_str D s = push_of D (string_create_str (ed_base D) s)"

definition string_vec_push_create_strn :: "'b editing_runtime \<Rightarrow> string \<Rightarrow> nat \<Rightarrow> ('b, nat option) build" where
  "string_vec_push_create_strn D s max_len = push_of D (string_create_strn D s max_len)"

definition string_vec_push_clone :: "'b editing_runtime \<Rightarrow> u8 list \<Rightarrow> ptr \<Rightarrow> ('b, nat option) build" where
  "string_vec_push_clone D src s = push_of D (string_clone (ed_cloning D) src s)"

definition string_vec_push_slice ::
  "'b editing_runtime \<Rightarrow> u8 list \<Rightarrow> ptr \<Rightarrow> nat \<Rightarrow> nat \<Rightarrow> ('b, nat option) build" where
  "string_vec_push_slice D src s index len = push_of D (string_slice D src s index len)"

definition table_vec_push_start :: "('b, int) build \<Rightarrow> ('b, int) build" where
  "table_vec_push_start start = start"

definition table_vec_push_end :: "'b editing_runtime \<Rightarrow> ('b, nat) build \<Rightarrow> ('b, nat option) build" where
  "table_vec_push_end D finish = push_of D finish"

definition table_vec_push_create :: "'b editing_runtime \<Rightarrow> ('b, nat) build \<Rightarrow> ('b, nat option) build" where
  "table_vec_push_create D create = push_of D create"

section \<open>Vectors of unions\<close>

text \<open>\<open>__flatbuffers_build_union_vector\<close> and \<open>_ops\<close>. The result is two references, of the vector of types and of
  the vector of values.\<close>

definition union_vec_start :: "'b editing_runtime \<Rightarrow> ('b, int) build" where
  "union_vec_start D = build_call (ed_start_union_vector D)"

definition union_vec_end :: "'b editing_runtime \<Rightarrow> ('b, nat \<times> nat) build" where
  "union_vec_end D = build_call (ed_end_union_vector D)"

definition union_vec_create :: "'b editing_runtime \<Rightarrow> union_ref list \<Rightarrow> nat \<Rightarrow> ('b, nat \<times> nat) build" where
  "union_vec_create D data len =
     build_then (build_read (block data len)) (\<lambda>v. build_call (ed_create_union_vector D v))"

definition union_vec_extend :: "'b editing_runtime \<Rightarrow> nat \<Rightarrow> ('b, nat option) build" where
  "union_vec_extend D len = build_call (ed_extend_union_vector D len)"

definition union_vec_append :: "'b editing_runtime \<Rightarrow> union_ref list \<Rightarrow> nat \<Rightarrow> ('b, nat option) build" where
  "union_vec_append D data len =
     build_then (build_read (block data len)) (\<lambda>v. build_call (ed_append_union_vector D v))"

definition union_vec_truncate :: "'b editing_runtime \<Rightarrow> nat \<Rightarrow> ('b, int) build" where
  "union_vec_truncate D len = build_call (ed_truncate_union_vector D len)"

definition union_vec_edit :: "'b editing_runtime \<Rightarrow> ('b, nat) build" where
  "union_vec_edit D = build_get (ed_union_vector_edit D)"

definition union_vec_reserved_len :: "'b editing_runtime \<Rightarrow> ('b, nat) build" where
  "union_vec_reserved_len D = build_get (ed_union_vector_count D)"

definition union_vec_push :: "'b editing_runtime \<Rightarrow> union_ref \<Rightarrow> ('b, nat option) build" where
  "union_vec_push D ref = build_call (ed_union_vector_push D ref)"

definition union_vec_push_clone ::
  "'b editing_runtime \<Rightarrow> (fb_union \<Rightarrow> ('b, union_ref) build) \<Rightarrow> fb_union \<Rightarrow> ('b, nat option) build" where
  "union_vec_push_clone D clone u = build_then (clone u) (union_vec_push D)"

text \<open>\<open>_vec_clone\<close>: the types as one block, the values one after another.\<close>

fun clone_values ::
  "'b editing_runtime \<Rightarrow> (nat \<Rightarrow> fb_union outcome) \<Rightarrow> (fb_union \<Rightarrow> ('b, union_ref) build) \<Rightarrow> nat list \<Rightarrow>
   ('b, bool) build" where
  "clone_values D at clone [] = build_return True"
| "clone_values D at clone (i # is) =
     build_then (build_read (at i)) (\<lambda>u.
     build_then (clone u) (\<lambda>uref.
       if snd uref = 0 then build_return False
       else build_then (build_call (rt_offset_vector_push (ed_base D) (snd uref))) (\<lambda>slot.
         if slot = None then build_return False else clone_values D at clone is)))"

definition union_values_clone ::
  "'b editing_runtime \<Rightarrow> u8 list \<Rightarrow> (fb_union \<Rightarrow> ('b, union_ref) build) \<Rightarrow> fb_union_vec \<Rightarrow> nat \<Rightarrow> ('b, nat) build" where
  "union_values_clone D src clone vec len =
     build_then (build_call (rt_start_offset_vector (ed_base D))) (\<lambda>rc.
       if rc \<noteq> 0 then build_return 0
       else build_then (clone_values D (union_vec_at src vec) clone [0..<len]) (\<lambda>all.
         if all then memoize_end (ed_cloning D) (uv_value vec) (build_call (rt_end_offset_vector (ed_base D)))
         else build_return 0))"

definition union_vec_clone ::
  "'b editing_runtime \<Rightarrow> u8 list \<Rightarrow> (fb_union \<Rightarrow> ('b, union_ref) build) \<Rightarrow> fb_union_vec \<Rightarrow> ('b, nat \<times> nat) build" where
  "union_vec_clone D src clone vec =
     (if uv_type vec = None then build_return (0, 0)
      else
        build_then (build_get (cl_refmap_find (ed_cloning D) (uv_type vec))) (\<lambda>ty.
        build_then (build_get (cl_refmap_find (ed_cloning D) (uv_value vec))) (\<lambda>v.
        build_then (build_read (union_vec_len src vec)) (\<lambda>len.
        build_then
          (if ty = 0
           then build_then (build_read (source_block src (uv_type vec) len)) (\<lambda>types.
             memoize_end (ed_cloning D) (uv_type vec) (build_call (ed_create_type_vector D types)))
           else build_return ty) (\<lambda>ty.
        if ty = 0 then build_return (0, 0)
        else
          build_then (if v = 0 then union_values_clone D src clone vec len else build_return v) (\<lambda>v.
          if v = 0 then build_return (0, 0) else build_return (ty, v)))))))"

text \<open>\<open>__flatbuffers_build_union_table_vector_value_field\<close> and its variant for strings: \<open>as\<close> makes the union reference
  of the member.\<close>

abbreviation push_member ::
  "'b editing_runtime \<Rightarrow> (nat \<Rightarrow> union_ref) \<Rightarrow> ('b, nat) build \<Rightarrow> ('b, nat option) build" where
  "push_member D as m \<equiv> build_then m (\<lambda>ref. union_vec_push D (as ref))"

definition member_push :: "'b editing_runtime \<Rightarrow> (nat \<Rightarrow> union_ref) \<Rightarrow> nat \<Rightarrow> ('b, nat option) build" where
  "member_push D as ref = union_vec_push D (as ref)"

definition member_push_start :: "('b, int) build \<Rightarrow> ('b, int) build" where
  "member_push_start start = start"

definition member_push_end ::
  "'b editing_runtime \<Rightarrow> (nat \<Rightarrow> union_ref) \<Rightarrow> ('b, nat) build \<Rightarrow> ('b, nat option) build" where
  "member_push_end D as finish = push_member D as finish"

definition member_push_create ::
  "'b editing_runtime \<Rightarrow> (nat \<Rightarrow> union_ref) \<Rightarrow> ('b, nat) build \<Rightarrow> ('b, nat option) build" where
  "member_push_create D as create = push_member D as create"

definition member_push_clone ::
  "'b editing_runtime \<Rightarrow> (nat \<Rightarrow> union_ref) \<Rightarrow> ('b, nat) build \<Rightarrow> ('b, nat option) build" where
  "member_push_clone D as clone = push_member D as clone"

section \<open>Fields of an open table\<close>

text \<open>The operations of a field hand the reference to its \<open>_add\<close>. Strings:\<close>

definition string_field_start :: "'b editing_runtime \<Rightarrow> ('b, int) build" where
  "string_field_start D = build_call (ed_start_string D)"

definition string_field_end :: "'b editing_runtime \<Rightarrow> (nat \<Rightarrow> ('b, int) build) \<Rightarrow> ('b, int) build" where
  "string_field_end D add = build_then (build_call (ed_end_string D)) add"

definition string_field_create ::
  "'b editing_runtime \<Rightarrow> (nat \<Rightarrow> ('b, int) build) \<Rightarrow> u8 list \<Rightarrow> nat \<Rightarrow> ('b, int) build" where
  "string_field_create D add s len = build_then (string_create D s len) add"

definition string_field_create_str ::
  "'b editing_runtime \<Rightarrow> (nat \<Rightarrow> ('b, int) build) \<Rightarrow> string \<Rightarrow> ('b, int) build" where
  "string_field_create_str D add s = build_then (string_create_str (ed_base D) s) add"

definition string_field_create_strn ::
  "'b editing_runtime \<Rightarrow> (nat \<Rightarrow> ('b, int) build) \<Rightarrow> string \<Rightarrow> nat \<Rightarrow> ('b, int) build" where
  "string_field_create_strn D add s max_len = build_then (string_create_strn D s max_len) add"

definition string_field_clone ::
  "'b editing_runtime \<Rightarrow> (nat \<Rightarrow> ('b, int) build) \<Rightarrow> u8 list \<Rightarrow> ptr \<Rightarrow> ('b, int) build" where
  "string_field_clone D add src s = build_then (string_clone (ed_cloning D) src s) add"

definition string_field_slice ::
  "'b editing_runtime \<Rightarrow> (nat \<Rightarrow> ('b, int) build) \<Rightarrow> u8 list \<Rightarrow> ptr \<Rightarrow> nat \<Rightarrow> nat \<Rightarrow> ('b, int) build" where
  "string_field_slice D add src s index len = build_then (string_slice D src s index len) add"

text \<open>Vectors of scalars:\<close>

definition vec_field_start :: "'b editing_runtime \<Rightarrow> nat \<Rightarrow> nat \<Rightarrow> ('b, int) build" where
  "vec_field_start D S A = vec_start D S A"

definition vec_field_end_pe :: "'b editing_runtime \<Rightarrow> (nat \<Rightarrow> ('b, int) build) \<Rightarrow> ('b, int) build" where
  "vec_field_end_pe D add = build_then (vec_end_pe D) add"

definition vec_field_end :: "'b editing_runtime \<Rightarrow> nat \<Rightarrow> (nat \<Rightarrow> ('b, int) build) \<Rightarrow> ('b, int) build" where
  "vec_field_end D S add = build_then (vec_end D S) add"

definition vec_field_create_pe ::
  "'b editing_runtime \<Rightarrow> nat \<Rightarrow> nat \<Rightarrow> (nat \<Rightarrow> ('b, int) build) \<Rightarrow> u8 list \<Rightarrow> nat \<Rightarrow> ('b, int) build" where
  "vec_field_create_pe D S A add data len = build_then (vec_create_pe D S A data len) add"

definition vec_field_create ::
  "'b editing_runtime \<Rightarrow> nat \<Rightarrow> nat \<Rightarrow> (nat \<Rightarrow> ('b, int) build) \<Rightarrow> u8 list \<Rightarrow> nat \<Rightarrow> ('b, int) build" where
  "vec_field_create D S A add data len = build_then (vec_create D S A data len) add"

definition vec_field_slice ::
  "'b editing_runtime \<Rightarrow> nat \<Rightarrow> nat \<Rightarrow> (nat \<Rightarrow> ('b, int) build) \<Rightarrow> u8 list \<Rightarrow> ptr \<Rightarrow> nat \<Rightarrow> nat \<Rightarrow> ('b, int) build" where
  "vec_field_slice D S A add src vec index len = build_then (vec_slice D src S A vec index len) add"

definition vec_field_clone ::
  "'b editing_runtime \<Rightarrow> nat \<Rightarrow> nat \<Rightarrow> (nat \<Rightarrow> ('b, int) build) \<Rightarrow> u8 list \<Rightarrow> ptr \<Rightarrow> ('b, int) build" where
  "vec_field_clone D S A add src vec = build_then (vec_clone D src S A vec) add"

text \<open>Tables, and vectors of references:\<close>

definition table_field_end :: "('b, nat) build \<Rightarrow> (nat \<Rightarrow> ('b, int) build) \<Rightarrow> ('b, int) build" where
  "table_field_end finish add = build_then finish add"

definition table_field_create :: "('b, nat) build \<Rightarrow> (nat \<Rightarrow> ('b, int) build) \<Rightarrow> ('b, int) build" where
  "table_field_create create add = build_then create add"

definition offset_vec_field_start :: "'b editing_runtime \<Rightarrow> ('b, int) build" where
  "offset_vec_field_start D = build_call (rt_start_offset_vector (ed_base D))"

definition offset_vec_field_end :: "'b editing_runtime \<Rightarrow> (nat \<Rightarrow> ('b, int) build) \<Rightarrow> ('b, int) build" where
  "offset_vec_field_end D add = build_then (build_call (rt_end_offset_vector (ed_base D))) add"

definition offset_vec_field_create ::
  "'b editing_runtime \<Rightarrow> (nat \<Rightarrow> ('b, int) build) \<Rightarrow> nat list \<Rightarrow> nat \<Rightarrow> ('b, int) build" where
  "offset_vec_field_create D add data len = build_then (offset_vec_create D data len) add"

text \<open>A member of a union field, \<open>__flatbuffers_build_union_table_value_field\<close>: a null reference is refused.\<close>

definition member_add :: "(nat \<Rightarrow> union_ref) \<Rightarrow> (union_ref \<Rightarrow> ('b, int) build) \<Rightarrow> nat \<Rightarrow> ('b, int) build" where
  "member_add as add ref = add (as ref)"

definition member_end ::
  "(nat \<Rightarrow> union_ref) \<Rightarrow> (union_ref \<Rightarrow> ('b, int) build) \<Rightarrow> ('b, nat) build \<Rightarrow> ('b, int) build" where
  "member_end as add finish =
     build_then finish (\<lambda>ref. if ref \<noteq> 0 then member_add as add ref else build_return (- 1))"

definition member_create ::
  "(nat \<Rightarrow> union_ref) \<Rightarrow> (union_ref \<Rightarrow> ('b, int) build) \<Rightarrow> ('b, nat) build \<Rightarrow> ('b, int) build" where
  "member_create as add create =
     build_then create (\<lambda>ref. if ref \<noteq> 0 then add (as ref) else build_return (- 1))"

definition member_clone ::
  "(nat \<Rightarrow> union_ref) \<Rightarrow> (union_ref \<Rightarrow> ('b, int) build) \<Rightarrow> ('b, nat) build \<Rightarrow> ('b, int) build" where
  "member_clone as add clone =
     build_then clone (\<lambda>ref. if ref \<noteq> 0 then add (as ref) else build_return (- 1))"

text \<open>A field with a vector of unions, \<open>__flatbuffers_build_union_vector_field\<close>:\<close>

definition union_vec_add :: "'b editing_runtime \<Rightarrow> nat \<Rightarrow> nat \<times> nat \<Rightarrow> ('b, int) build" where
  "union_vec_add D ID uvref =
     (if fst uvref = 0 \<or> snd uvref = 0 then build_return (if fst uvref = snd uvref then 0 else - 1)
      else
        build_then (build_call (rt_table_add_offset (ed_base D) (ID - 1))) (\<lambda>p.
          case p of
            None \<Rightarrow> build_return (- 1)
          | Some p \<Rightarrow>
              build_then (build_do (rt_store_ref (ed_base D) p (fst uvref))) (\<lambda>_.
              build_then (build_call (rt_table_add_offset (ed_base D) ID)) (\<lambda>p.
                case p of
                  None \<Rightarrow> build_return (- 1)
                | Some p \<Rightarrow>
                    build_then (build_do (rt_store_ref (ed_base D) p (snd uvref))) (\<lambda>_. build_return 0)))))"

definition union_vec_field_start :: "'b editing_runtime \<Rightarrow> ('b, int) build" where
  "union_vec_field_start D = build_call (ed_start_union_vector D)"

definition union_vec_field_end :: "'b editing_runtime \<Rightarrow> nat \<Rightarrow> ('b, int) build" where
  "union_vec_field_end D ID = build_then (build_call (ed_end_union_vector D)) (union_vec_add D ID)"

definition union_vec_field_create :: "'b editing_runtime \<Rightarrow> nat \<Rightarrow> union_ref list \<Rightarrow> nat \<Rightarrow> ('b, int) build" where
  "union_vec_field_create D ID data len = build_then (union_vec_create D data len) (union_vec_add D ID)"

definition union_vec_field_clone ::
  "'b editing_runtime \<Rightarrow> nat \<Rightarrow> u8 list \<Rightarrow> (fb_union \<Rightarrow> ('b, union_ref) build) \<Rightarrow> fb_union_vec \<Rightarrow> ('b, int) build" where
  "union_vec_field_clone D ID src clone vec = build_then (union_vec_clone D src clone vec) (union_vec_add D ID)"

definition union_vec_field_pick ::
  "'b editing_runtime \<Rightarrow> nat \<Rightarrow> u8 list \<Rightarrow> (ptr \<Rightarrow> fb_union_vec outcome) \<Rightarrow>
   (fb_union \<Rightarrow> ('b, union_ref) build) \<Rightarrow> ptr \<Rightarrow> ('b, int) build" where
  "union_vec_field_pick D ID src get clone t =
     build_then (build_read (get t)) (\<lambda>vec.
       if uv_type vec \<noteq> None then union_vec_field_clone D ID src clone vec else build_return 0)"

end
