(* ===== verification/Fb_Copy.thy ===== *)
theory Fb_Copy
  imports Fb_Clone Fb_Encoder
begin

text \<open>
  Cloning a response: without a reference map, the clone of a table that represents a response is
  an object with the same fields, so the finished copy is read as the same response.
\<close>

section \<open>Objects that are read alike\<close>

definition read_alike :: "fb_obj \<Rightarrow> fb_obj \<Rightarrow> bool" where
  "read_alike x y \<longleftrightarrow> (\<forall>buf p. represents buf p x \<longrightarrow> represents buf p y)"

lemma read_alikeD: "read_alike x y \<Longrightarrow> represents buf p x \<Longrightarrow> represents buf p y"
  by (simp add: read_alike_def)

lemma read_alike_refl [intro]: "read_alike x x"
  by (simp add: read_alike_def)

lemma read_alike_trans: "read_alike x y \<Longrightarrow> read_alike y z \<Longrightarrow> read_alike x z"
  by (simp add: read_alike_def)

lemma read_alike_reorder: "set fs' = set fs \<Longrightarrow> read_alike (FB_table fs) (FB_table fs')"
  using represents_reorder unfolding read_alike_def by blast

lemma read_alike_field:
  assumes "read_alike x y"
  shows "read_alike (FB_table (us @ (ID, FB_ref x) # vs)) (FB_table (us @ (ID, FB_ref y) # vs))"
  unfolding read_alike_def
proof (intro allI impI)
  fix buf p
  let ?fs = "us @ (ID, FB_ref x) # vs" and ?gs = "us @ (ID, FB_ref y) # vs"
  assume a: "represents buf p (FB_table ?fs)"
  have t: "table_ok buf p" and absent: "i \<notin> fst ` set ?fs \<Longrightarrow> vt_entry buf p i = 0"
    and inline: "(i, FB_inline bs) \<in> set ?fs \<Longrightarrow> vt_entry buf p i \<noteq> 0 \<and> bytes_at buf (p + vt_entry buf p i) bs"
    and ref: "(i, FB_ref z) \<in> set ?fs \<Longrightarrow> vt_entry buf p i \<noteq> 0 \<and>
      p + vt_entry buf p i + 4 \<le> length buf \<and> represents buf (target buf (p + vt_entry buf p i)) z" for i bs z
    using a by (elim rep_tableE; blast)+
  show "represents buf p (FB_table ?gs)"
  proof (rule rep_table [OF t])
    fix i z
    assume "(i, FB_ref z) \<in> set ?gs"
    then have "i = ID \<and> z = y \<or> (i, FB_ref z) \<in> set ?fs" by auto
    then show "vt_entry buf p i \<noteq> 0 \<and> p + vt_entry buf p i + 4 \<le> length buf \<and>
        represents buf (target buf (p + vt_entry buf p i)) z"
      using ref [of i z] ref [of ID x] read_alikeD [OF assms] by auto
  next
    fix i
    assume "i \<notin> fst ` set ?gs"
    then show "vt_entry buf p i = 0" by (intro absent) simp
  next
    fix i bs
    assume "(i, FB_inline bs) \<in> set ?gs"
    then show "vt_entry buf p i \<noteq> 0 \<and> bytes_at buf (p + vt_entry buf p i) bs" by (intro inline) simp
  qed
qed

lemma read_alike_offsets:
  assumes "\<And>x. x \<in> set xs \<Longrightarrow> read_alike (f x) (g x)"
  shows "read_alike (FB_offsets (map f xs)) (FB_offsets (map g xs))"
  unfolding read_alike_def
proof (intro allI impI)
  fix buf p
  assume "represents buf p (FB_offsets (map f xs))"
  then show "represents buf p (FB_offsets (map g xs))"
    using read_alikeD [OF assms] by (elim rep_offsetsE) (rule rep_offsets, auto)
qed

section \<open>Reading the source\<close>

lemma source_ref:
  assumes "represents src p (FB_table fs)"
  shows "map_of fs ID = None \<Longrightarrow> \<not> r \<Longrightarrow> offset_field src ID r (int adj) (Some (int p)) = Inr None"
    "map_of fs ID = Some (FB_ref x) \<Longrightarrow>
      \<exists>q. represents src q x \<and> offset_field src ID r (int adj) (Some (int p)) = Inr (Some (int (q + adj)))"
proof -
  show "offset_field src ID r (int adj) (Some (int p)) = Inr None" if "map_of fs ID = None" "\<not> r"
    using table_facts(2) [OF assms that(1)] that(2) offset_field_ok [OF table_facts(1) [OF assms], of ID r adj] by simp
  show "\<exists>q. represents src q x \<and> offset_field src ID r (int adj) (Some (int p)) = Inr (Some (int (q + adj)))"
    if "map_of fs ID = Some (FB_ref x)"
    using read_ref [OF assms that] .
qed

lemma source_string:
  assumes "represents src q (FB_string s)"
  shows "vec_bytes src (Some (int (q + 4))) = Inr s"
proof -
  from assms have b: "q + 4 + Suc (length s) \<le> length src" "take (Suc (length s)) (drop (q + 4) src) = s @ [0]"
    "u32_at src q = length s" by (auto elim!: rep_stringE simp: bytes_at_def)
  from arg_cong [OF b(2), of "take (length s)"] have "take (length s) (drop (q + 4) src) = s" by (simp add: min_def)
  moreover have "vec_len src (Some (int (q + 4))) = Inr (length s)" using b by (simp add: vec_len_def u32_at_def)
  ultimately show ?thesis using b(1) by (simp add: vec_bytes_def del: of_nat_add)
qed

lemma source_scalar:
  assumes "represents src p (FB_table fs)"
  shows "map_of fs ID = None \<Longrightarrow> scalar_field src ID (Some (int p)) = Inr None"
    "map_of fs ID = Some (FB_inline v) \<Longrightarrow>
      \<exists>q. scalar_field src ID (Some (int p)) = Inr (Some q) \<and> source_bytes src (Some q) (length v) = Inr v"
  using table_facts(2) [OF assms, of ID] table_facts(3) [OF assms, of ID v]
  by (auto simp: scalar_field_ok [OF table_facts(1) [OF assms]] source_bytes_def bytes_at_def simp flip: of_nat_add)

section \<open>The copy\<close>

text \<open>The fields in the order in which cloning adds them.\<close>

definition copied_contract :: "contract_info \<Rightarrow> fb_obj" where
  "copied_contract c = FB_table
     (id_field c @ opt_field 3 (stored (double_eq (ci_price c) minus_one) (double_bytes (ci_price c))) @
      opt_field 6 (stored (ci_created_at c = 0) (int64_bytes (ci_created_at c))) @
      [text_field 1 (ci_name c)] @ opt_field 2 (opt_text (ci_description c)) @
      opt_field 4 (opt_bytes (ci_attachment c)) @ user_field c @
      opt_field 5 (stored (ci_status c = status_Processing) (uint8_bytes (ci_status c))))"

fun copied_body :: "response_body \<Rightarrow> fb_obj" where
  "copied_body (Res_RequestContract c) = FB_table [(0, FB_ref (copied_contract c))]"
| "copied_body (Res_ListContracts cs) = FB_table [(0, FB_ref (FB_offsets (map copied_contract cs)))]"
| "copied_body (Res_CheckContract c) = copied_contract c"
| "copied_body m = body_obj m"

definition copied_value :: "response_body option \<Rightarrow> (nat \<times> fb_field) list" where
  "copied_value m =
     (case m of None \<Rightarrow> []
      | Some m \<Rightarrow> [(0, FB_inline [of_nat (body_type m)]), (1, FB_ref (copied_body m))])"

definition copied_message :: "response \<Rightarrow> fb_obj" where
  "copied_message a = FB_table (copied_value (r_msg a) @ opt_field 3 (opt_text (r_errorDescription a)) @
     opt_field 2 (stored (\<not> r_error a) (bool_bytes (r_error a))))"

lemma copied_contract_alike: "read_alike (copied_contract c) (requested_obj c)" "read_alike (copied_contract c) (row_obj c)"
  unfolding copied_contract_def requested_obj_def row_obj_def detail_fields_def
  by (rule read_alike_reorder, auto)+

lemma copied_body_alike: "read_alike (copied_body m) (body_obj m)"
proof (cases m)
  case (Res_RequestContract c)
  then show ?thesis using read_alike_field [OF copied_contract_alike(1), of "[]" 0 c "[]"] by simp
next
  case (Res_ListContracts cs)
  have "read_alike (FB_offsets (map copied_contract cs)) (FB_offsets (map row_obj cs))"
    by (rule read_alike_offsets) (rule copied_contract_alike)
  then show ?thesis using Res_ListContracts read_alike_field [of _ _ "[]" 0 "[]"] by simp
qed (auto simp: copied_contract_alike)

lemma copied_message_alike: "read_alike (copied_message a) (message_obj a)"
proof -
  let ?rest = "opt_field 3 (opt_text (r_errorDescription a)) @ opt_field 2 (stored (\<not> r_error a) (bool_bytes (r_error a)))"
  have "read_alike (FB_table (copied_value (r_msg a) @ ?rest)) (FB_table (value_fields (r_msg a) @ ?rest))"
  proof (cases "r_msg a")
    case (Some m)
    from read_alike_field [OF copied_body_alike, of "[(0, FB_inline [of_nat (body_type m)])]" 1 m ?rest]
    show ?thesis using Some by (simp add: copied_value_def value_fields_def)
  qed (simp add: copied_value_def value_fields_def read_alike_refl)
  moreover have "read_alike (FB_table (value_fields (r_msg a) @ ?rest)) (message_obj a)"
    unfolding message_obj_def by (rule read_alike_reorder) auto
  ultimately show ?thesis unfolding copied_message_def by (rule read_alike_trans)
qed

text \<open>The copy of a finished response: its root cloned as the root of a new buffer.\<close>

definition cloned :: "'b cloning_runtime \<Rightarrow> u8 list \<Rightarrow> u8 list option outcome" where
  "cloned C src =
     and_then (Response_Message_as_root src) (\<lambda>t.
     and_then (Response_Message_clone_as_root C src t (rt_init (cl_base C))) (\<lambda>(b, _).
       Inr (rt_finalize_aligned_buffer (cl_base C) b)))"

lemma response_root: "4 \<le> length buf \<Longrightarrow> Response_Message_as_root buf = Inr (Some (int (u32_at buf 0)))"
  using read_le_in [of 0 4 buf]
  by (simp add: Response_Message_as_root_def read_root_def Response_Message_identifier_def has_identifier_def u32_at_def)

section \<open>The contract of the cloning runtime\<close>

text \<open>Without a reference map nothing is found and nothing is inserted.\<close>

locale flatcc_cloning = flatcc_builder "cl_base C" frames object place root
  for C :: "'b cloning_runtime" and frames :: "'b \<Rightarrow> frame list"
    and object :: "'b \<Rightarrow> nat \<Rightarrow> fb_obj option" and place :: "'b \<Rightarrow> nat \<Rightarrow> nat option"
    and root :: "'b \<Rightarrow> fb_obj option" +
  assumes no_refmap: "cl_refmap_find C p b = 0" "cl_refmap_insert C p r b = (b, r)"
    and copy_string: "frames b \<noteq> [] \<Longrightarrow> cl_create_string C v b = (b', r) \<Longrightarrow>
      frames b' = frames b \<and> object b \<subseteq>\<^sub>m object b' \<and> object b' r = Some (FB_string v)"
    and table_add_copy: "frames b = Table_frame n fs # st \<Longrightarrow> ID < n \<Longrightarrow> ID \<notin> fst ` set fs \<Longrightarrow> length v = sz \<Longrightarrow>
      cl_table_add_copy C ID v sz al b = (b', res) \<Longrightarrow>
      res \<noteq> None \<and> frames b' = Table_frame n (fs @ [(ID, FB_inline v)]) # st \<and> object b \<subseteq>\<^sub>m object b'"
begin

lemma wp_read [simp]: "wp dg (build_read r) Q b \<longleftrightarrow> (case r of Inr x \<Rightarrow> Q x b | Inl e \<Rightarrow> dg \<and> e = Dangling)"
  by (cases r) (simp_all add: wp_def build_read_def)

lemma wp_memoize [simp]:
  "wp dg (memoize_begin C p m) Q b \<longleftrightarrow> wp dg m Q b" "wp dg (memoize_end C p m) Q b \<longleftrightarrow> wp dg m Q b"
  "wp dg (memoize C p m) Q b \<longleftrightarrow> wp dg m Q b"
  by (simp_all add: memoize_begin_def memoize_end_def memoize_def no_refmap)

lemma table_clone_wp:
  "wp dg (table_clone C t ms fin) Q b \<longleftrightarrow> wp dg (any_failed ms) (\<lambda>f b'. if f then Q 0 b' else wp dg fin Q b') b"
  by (simp add: table_clone_def if_distrib [where f = "\<lambda>m. wp dg m _ _"] cong: if_cong)

lemma any_failed_step:
  assumes "wp dg m (\<lambda>rc b'. rc = 0 \<and> wp dg (any_failed ms) Q b') b"
  shows "wp dg (any_failed (m # ms)) Q b"
  using assms unfolding wp_any_failed by (rule wp_mono) simp

text \<open>\<open>clones f x y\<close>: where the source has an \<open>x\<close>, \<open>f\<close> completes a \<open>y\<close>.\<close>

definition clones :: "u8 list \<Rightarrow> nat \<Rightarrow> (ptr \<Rightarrow> ('b, nat) build) \<Rightarrow> fb_obj \<Rightarrow> fb_obj \<Rightarrow> bool" where
  "clones src adj f x y \<longleftrightarrow> (\<forall>dg q st H b Q. represents src q x \<longrightarrow> holds st H b \<longrightarrow> st \<noteq> [] \<longrightarrow>
     (\<forall>r b'. holds st (insert (r, y) H) b' \<longrightarrow> Q r b') \<longrightarrow> wp dg (f (Some (int (q + adj)))) Q b)"

lemma clonesI:
  assumes "\<And>dg q st H b Q. represents src q x \<Longrightarrow> holds st H b \<Longrightarrow> st \<noteq> [] \<Longrightarrow>
    (\<And>r b'. holds st (insert (r, y) H) b' \<Longrightarrow> Q r b') \<Longrightarrow> wp dg (f (Some (int (q + adj)))) Q b"
  shows "clones src adj f x y"
  unfolding clones_def using assms by blast

lemma clones_wp:
  assumes "clones src adj f x y" "represents src q x" "holds st H b" "st \<noteq> []"
    and "\<And>r b'. holds st (insert (r, y) H) b' \<Longrightarrow> Q r b'"
  shows "wp dg (f (Some (int (q + adj)))) Q b"
  using assms unfolding clones_def by blast

lemma clones_string: "clones src 4 (string_clone C src) (FB_string s) (FB_string s)"
proof (rule clonesI)
  fix dg q st H b Q
  assume a: "represents src q (FB_string s)" "holds st H b" "st \<noteq> []"
    and q: "\<And>r b'. holds st (insert (r, FB_string s) H) b' \<Longrightarrow> Q r b'"
  obtain b' r where c: "cl_create_string C s b = (b', r)" by fastforce
  have "frames b \<noteq> []" "frames b = st" using a(2,3) by (simp_all add: holds_def)
  with copy_string [OF this(1) c] holds_step [OF a(2), of b' st] have "holds st (insert (r, FB_string s) H) b'"
    by (simp add: holds_insert)
  with q c source_string [OF a(1)] show "wp dg (string_clone C src (Some (int (q + 4)))) Q b"
    by (simp add: string_clone_def del: of_nat_add)
qed

lemma clones_bytes: "clones src 4 (uint8_vec_clone C src) (FB_bytes v) (FB_bytes v)"
proof (rule clonesI)
  fix dg q st H b Q
  assume a: "represents src q (FB_bytes v)" "holds st H b" "st \<noteq> []"
    and q: "\<And>r b'. holds st (insert (r, FB_bytes v) H) b' \<Longrightarrow> Q r b'"
  have "wp dg (uint8_vec_create (cl_base C) v) Q b" by (rule bytes_wp [OF a(2,3) q])
  with read_bytes [OF a(1)] show "wp dg (uint8_vec_clone C src (Some (int (q + 4)))) Q b"
    by (simp add: uint8_vec_clone_def uint8_vec_create_def del: of_nat_add)
qed

section \<open>Picking fields\<close>

text \<open>What a pick adds: the field of the source, if it is there.\<close>

lemma ref_pick_wp:
  assumes "holds (Table_frame n fs # st) H b" "represents src p (FB_table fs0)"
    and "map_of fs0 ID = map_option FB_ref x" "\<And>z. x = Some z \<Longrightarrow> clones src adj f z (g z)"
    and "r \<longrightarrow> x \<noteq> None" "ID < n" "ID \<notin> fst ` set fs"
    and "\<And>b'. holds (Table_frame n (fs @ opt_field ID (map_option (\<lambda>z. FB_ref (g z)) x)) # st) H b' \<Longrightarrow> Q 0 b'"
  shows "wp dg (ref_field_pick src (\<lambda>buf t. offset_field buf ID r (int adj) t) f (offset_add (cl_base C) ID) (Some (int p))) Q b"
proof (cases x)
  case None
  with assms(1,3,5,8) source_ref(1) [OF assms(2), of ID r adj] show ?thesis
    by (simp add: ref_field_pick_def opt_field_def)
next
  case (Some z)
  with assms(3) source_ref(2) [OF assms(2), of ID z r adj] obtain q where
    q: "represents src q z" "offset_field src ID r (int adj) (Some (int p)) = Inr (Some (int (q + adj)))" by auto
  have "wp dg (f (Some (int (q + adj)))) (\<lambda>r'. wp dg (offset_add (cl_base C) ID r') Q) b"
  proof (rule clones_wp [OF assms(4) [OF Some] q(1) assms(1)])
    fix r' b'
    assume h: "holds (Table_frame n fs # st) (insert (r', g z) H) b'"
    show "wp dg (offset_add (cl_base C) ID r') Q b'"
      by (rule offset_add_wp [OF h insertI1 assms(6,7)], rule assms(8)) (auto simp: Some opt_field_def elim: holds_less)
  qed simp
  with q(2) show ?thesis by (simp add: ref_field_pick_def del: of_nat_add)
qed

lemma scalar_pick_wp:
  assumes "holds (Table_frame n fs # st) H b" "represents src p (FB_table fs0)"
    and "map_of fs0 ID = stored d v" "length v = sz" "ID < n" "ID \<notin> fst ` set fs"
    and "\<And>b'. holds (Table_frame n (fs @ opt_field ID (stored d v)) # st) H b' \<Longrightarrow> Q 0 b'"
  shows "wp dg (scalar_field_pick C src ID sz al (Some (int p))) Q b"
proof (cases d)
  case True
  with assms(1,3,7) source_scalar(1) [OF assms(2), of ID] show ?thesis
    by (simp add: scalar_field_pick_def opt_field_def stored_def)
next
  case False
  with assms(3,4) source_scalar(2) [OF assms(2), of ID v] obtain q where
    q: "scalar_field src ID (Some (int p)) = Inr (Some q)" "source_bytes src (Some q) sz = Inr v"
    by (auto simp: stored_def)
  obtain b' res where c: "cl_table_add_copy C ID v sz al b = (b', res)" by fastforce
  have f: "frames b = Table_frame n fs # st" using assms(1) by (simp add: holds_def)
  from table_add_copy [OF f assms(5,6,4) c] holds_step [OF assms(1)]
  obtain k where "res = Some k" "holds (Table_frame n (fs @ [(ID, FB_inline v)]) # st) H b'" by auto
  with assms(7) False q c show ?thesis
    by (simp add: scalar_field_pick_def scalar_field_clone_def opt_field_def stored_def)
qed

lemma string_pick_wp:
  assumes "holds (Table_frame n fs # st) H b" "represents src p (FB_table fs0)" "map_of fs0 ID = opt_text v"
    and "r \<longrightarrow> v \<noteq> None" "ID < n" "ID \<notin> fst ` set fs"
    and "\<And>b'. holds (Table_frame n (fs @ opt_field ID (opt_text v)) # st) H b' \<Longrightarrow> Q 0 b'"
  shows "wp dg (string_field_pick C src (\<lambda>buf t. vector_field buf ID r t) (offset_add (cl_base C) ID) (Some (int p))) Q b"
  using ref_pick_wp [OF assms(1,2), where x = "map_option (\<lambda>s. FB_string (text_bytes s)) v" and r = r and adj = 4
      and g = "\<lambda>z. z" and f = "string_clone C src" and Q = Q and ID = ID and dg = dg] assms(3-7) clones_string
  by (auto simp: string_field_pick_def vector_field_def opt_text_def option.map_comp comp_def)

lemma text_pick_wp:
  assumes "holds (Table_frame n fs # st) H b" "represents src p (FB_table fs0)"
    and "map_of fs0 ID = Some (FB_ref (FB_string (text_bytes s)))" "ID < n" "ID \<notin> fst ` set fs"
    and "\<And>b'. holds (Table_frame n (fs @ [text_field ID s]) # st) H b' \<Longrightarrow> Q 0 b'"
  shows "wp dg (string_field_pick C src (\<lambda>buf t. vector_field buf ID r t) (offset_add (cl_base C) ID) (Some (int p))) Q b"
  using string_pick_wp [OF assms(1,2), where v = "Some s" and r = r and Q = Q and ID = ID and dg = dg] assms(3-6)
  by (simp add: opt_text_def opt_field_def text_field_def)

lemma bytes_pick_wp:
  assumes "holds (Table_frame n fs # st) H b" "represents src p (FB_table fs0)" "map_of fs0 ID = opt_bytes v"
    and "ID < n" "ID \<notin> fst ` set fs"
    and "\<And>b'. holds (Table_frame n (fs @ opt_field ID (opt_bytes v)) # st) H b' \<Longrightarrow> Q 0 b'"
  shows "wp dg (ref_field_pick src (\<lambda>buf t. vector_field buf ID False t) (uint8_vec_clone C src)
    (offset_add (cl_base C) ID) (Some (int p))) Q b"
  using ref_pick_wp [OF assms(1,2), where x = "map_option FB_bytes v" and r = False and adj = 4
      and g = "\<lambda>z. z" and f = "uint8_vec_clone C src" and Q = Q and ID = ID and dg = dg] assms(3-6) clones_bytes
  by (auto simp: vector_field_def opt_bytes_def option.map_comp comp_def)

lemma table_pick_wp:
  assumes "holds (Table_frame n fs # st) H b" "represents src p (FB_table fs0)"
    and "map_of fs0 ID = Some (FB_ref x)" "clones src 0 f x y" "ID < n" "ID \<notin> fst ` set fs"
    and "\<And>b'. holds (Table_frame n (fs @ [(ID, FB_ref y)]) # st) H b' \<Longrightarrow> Q 0 b'"
  shows "wp dg (ref_field_pick src (\<lambda>buf t. table_field buf ID r t) f (offset_add (cl_base C) ID) (Some (int p))) Q b"
  using ref_pick_wp [OF assms(1,2), where x = "Some x" and r = r and adj = 0
      and g = "\<lambda>z. y" and f = f and Q = Q and ID = ID and dg = dg] assms(3-7)
  by (simp add: table_field_def opt_field_def)

section \<open>The tables\<close>

lemmas user_clone_defs = Response_User_clone_def Response_User_start_def Response_User_end_def Response_User_required_def
  Response_User_username_pick_def Response_User_firstName_pick_def Response_User_lastName_pick_def
  Response_User_username_get_def [abs_def] Response_User_firstName_get_def [abs_def] Response_User_lastName_get_def [abs_def]
  Response_User_username_add_def [abs_def] Response_User_firstName_add_def [abs_def] Response_User_lastName_add_def [abs_def]

lemma clones_user: "clones src 0 (Response_User_clone C src) (user_obj u) (user_obj u)"
proof (rule clonesI)
  fix dg q st H b Q
  assume t: "represents src q (user_obj u)" and h: "holds st H b" "st \<noteq> []"
    and q: "\<And>r b'. holds st (insert (r, user_obj u) H) b' \<Longrightarrow> Q r b'"
  note pick = text_pick_wp [OF _ t [unfolded user_obj_def]]
  show "wp dg (Response_User_clone C src (Some (int (q + 0)))) Q b"
    unfolding user_clone_defs table_clone_wp add_0_right
    by (rule any_failed_step, rule table_start_wp [OF h], rule conjI [OF refl])
      (rule any_failed_step, erule pick, (simp add: lookup_simps del: map_of.simps(2) One_nat_def; fail)+, rule conjI [OF refl]
       | simp only: wp_any_failed if_False, erule table_end_wp, simp, rule q, simp add: user_obj_def)+
qed

lemmas contract_clone_defs = Response_CheckContract_clone_def Response_CheckContract_start_def
  Response_CheckContract_end_def Response_CheckContract_required_def
  Response_CheckContract_id_pick_def Response_CheckContract_name_pick_def Response_CheckContract_description_pick_def
  Response_CheckContract_price_pick_def Response_CheckContract_attachment_pick_def Response_CheckContract_status_pick_def
  Response_CheckContract_created_at_pick_def Response_CheckContract_by_user_pick_def
  Response_CheckContract_name_get_def [abs_def] Response_CheckContract_description_get_def [abs_def]
  Response_CheckContract_attachment_get_def [abs_def] Response_CheckContract_by_user_get_def [abs_def]
  Response_CheckContract_name_add_def [abs_def] Response_CheckContract_description_add_def [abs_def]
  Response_CheckContract_attachment_add_def [abs_def] Response_CheckContract_by_user_add_def [abs_def]

lemma clones_contract: "clones src 0 (Response_CheckContract_clone C src) (requested_obj c) (copied_contract c)"
proof (rule clonesI)
  fix dg q st H b Q
  assume t: "represents src q (requested_obj c)" and h: "holds st H b" "st \<noteq> []"
    and q: "\<And>r b'. holds st (insert (r, copied_contract c) H) b' \<Longrightarrow> Q r b'"
  note t = t [unfolded requested_obj_def]
  note picks = scalar_pick_wp [OF _ t contract_lookup(1)] scalar_pick_wp [OF _ t contract_lookup(4)]
    scalar_pick_wp [OF _ t contract_lookup(7)] text_pick_wp [OF _ t contract_lookup(2)]
    string_pick_wp [OF _ t contract_lookup(3)] bytes_pick_wp [OF _ t contract_lookup(5)]
    table_pick_wp [OF _ t contract_lookup(8) clones_user] scalar_pick_wp [OF _ t contract_lookup(6)]
  show "wp dg (Response_CheckContract_clone C src (Some (int (q + 0)))) Q b"
    unfolding contract_clone_defs table_clone_wp add_0_right
    by (rule any_failed_step, rule table_start_wp [OF h], rule conjI [OF refl])
      (rule any_failed_step, erule picks, (simp add: image_Un del: One_nat_def; fail)+, rule conjI [OF refl]
       | simp only: wp_any_failed if_False, erule table_end_wp, simp, rule q, simp add: copied_contract_def id_field_def user_field_def)+
qed

lemma clones_row: "clones src 0 (Response_CheckContract_clone C src) (row_obj c) (copied_contract c)"
  using clones_contract [of src c] row_requested unfolding clones_def by blast

text \<open>Tables with one string.\<close>

lemma clones_token:
  "clones src 0 (Response_Login_clone C src) (FB_table [text_field 0 t]) (FB_table [text_field 0 t])"
  "clones src 0 (Response_Register_clone C src) (FB_table [text_field 0 t]) (FB_table [text_field 0 t])"
  "clones src 0 (Response_EditMe_clone C src) (FB_table [text_field 0 t]) (FB_table [text_field 0 t])"
proof -
  let ?x = "FB_table [text_field 0 t]"
  have "clones src 0 (\<lambda>p. table_clone C p [table_start (cl_base C) 1,
      string_field_pick C src (\<lambda>buf t. vector_field buf 0 True t) (offset_add (cl_base C) 0) p]
      (table_end (cl_base C) [0])) ?x ?x"
  proof (rule clonesI)
    fix dg q st H b Q
    assume x: "represents src q ?x" and h: "holds st H b" "st \<noteq> []"
      and q: "\<And>r b'. holds st (insert (r, ?x) H) b' \<Longrightarrow> Q r b'"
    show "wp dg (table_clone C (Some (int (q + 0))) [table_start (cl_base C) 1,
      string_field_pick C src (\<lambda>buf t. vector_field buf 0 True t) (offset_add (cl_base C) 0) (Some (int (q + 0)))]
      (table_end (cl_base C) [0])) Q b"
      unfolding table_clone_wp add_0_right
      by (rule any_failed_step, rule table_start_wp [OF h], rule conjI [OF refl])
        (rule any_failed_step, erule text_pick_wp [OF _ x], (simp add: lookup_simps del: map_of.simps(2); fail)+,
         rule conjI [OF refl], simp only: wp_any_failed if_False, erule table_end_wp, simp, rule q, simp)
  qed
  then show "clones src 0 (Response_Login_clone C src) ?x ?x" "clones src 0 (Response_Register_clone C src) ?x ?x"
    "clones src 0 (Response_EditMe_clone C src) ?x ?x"
    by (simp_all add: Response_Login_clone_def [abs_def] Response_Login_start_def Response_Login_token_pick_def
      Response_Login_end_def Response_Login_required_def Response_Login_token_get_def [abs_def]
      Response_Login_token_add_def [abs_def]
      Response_Register_clone_def [abs_def] Response_Register_start_def Response_Register_token_pick_def
      Response_Register_end_def Response_Register_required_def Response_Register_token_get_def [abs_def]
      Response_Register_token_add_def [abs_def]
      Response_EditMe_clone_def [abs_def] Response_EditMe_start_def Response_EditMe_token_pick_def
      Response_EditMe_end_def Response_EditMe_required_def Response_EditMe_token_get_def [abs_def]
      Response_EditMe_token_add_def [abs_def])
qed

lemmas get_me_clone_defs = Response_GetMe_clone_def Response_GetMe_start_def Response_GetMe_end_def
  Response_GetMe_required_def Response_GetMe_username_pick_def Response_GetMe_password_pick_def
  Response_GetMe_firstName_pick_def Response_GetMe_lastName_pick_def Response_GetMe_admin_pick_def
  Response_GetMe_username_get_def [abs_def] Response_GetMe_password_get_def [abs_def]
  Response_GetMe_firstName_get_def [abs_def] Response_GetMe_lastName_get_def [abs_def]
  Response_GetMe_username_add_def [abs_def] Response_GetMe_password_add_def [abs_def]
  Response_GetMe_firstName_add_def [abs_def] Response_GetMe_lastName_add_def [abs_def]

lemma clones_me: "clones src 0 (Response_GetMe_clone C src) (me_obj m) (me_obj m)"
proof (rule clonesI)
  fix dg q st H b Q
  assume t: "represents src q (me_obj m)" and h: "holds st H b" "st \<noteq> []"
    and q: "\<And>r b'. holds st (insert (r, me_obj m) H) b' \<Longrightarrow> Q r b'"
  note t = t [unfolded me_obj_def]
  note picks = text_pick_wp [OF _ t] scalar_pick_wp [OF _ t, where d = "\<not> mi_admin m" and v = "bool_bytes (mi_admin m)"]
  show "wp dg (Response_GetMe_clone C src (Some (int (q + 0)))) Q b"
    unfolding get_me_clone_defs table_clone_wp add_0_right
    by (rule any_failed_step, rule table_start_wp [OF h], rule conjI [OF refl])
      (rule any_failed_step, erule picks,
         (simp add: lookup_simps image_Un del: map_of.simps(2) map_of_append One_nat_def; fail)+, rule conjI [OF refl]
       | simp only: wp_any_failed if_False, erule table_end_wp, simp, rule q, simp add: me_obj_def)+
qed

lemma clone_elements_wp:
  assumes "holds (Offsets_frame ys # st) H b"
    and "\<And>i. i \<in> set is \<Longrightarrow> \<exists>q. at i = Inr (Some (int q)) \<and> represents src q (f i) \<and> clones src 0 cl (f i) (g i)"
    and "\<And>b'. holds (Offsets_frame (ys @ map g is) # st) H b' \<Longrightarrow> Q True b'"
  shows "wp dg (clone_elements C at cl is) Q b"
  using assms
proof (induction "is" arbitrary: ys b)
  case (Cons i "is")
  from Cons.prems(2) [of i] obtain q where
    q: "at i = Inr (Some (int q))" "represents src q (f i)" "clones src 0 cl (f i) (g i)" by auto
  let ?rest = "\<lambda>e. if e = 0 then build_return False
    else build_then (build_call (rt_offset_vector_push (cl_base C) e)) (\<lambda>slot.
      if slot = None then build_return False else clone_elements C at cl is)"
  have "wp dg (cl (Some (int (q + 0)))) (\<lambda>e. wp dg (?rest e) Q) b"
  proof (rule clones_wp [OF q(3,2) Cons.prems(1)])
    fix e b'
    assume h: "holds (Offsets_frame ys # st) (insert (e, g i) H) b'"
    have e: "object b' e = Some (g i)" "e \<noteq> 0" using holds_nonnull [OF h insertI1] by simp_all
    obtain b2 res where c: "rt_offset_vector_push (cl_base C) e b' = (b2, res)" by fastforce
    have f: "frames b' = Offsets_frame ys # st" using h by (simp add: holds_def)
    from push [OF f e(1) c] have "res \<noteq> None" "holds (Offsets_frame (ys @ [g i]) # st) H b2"
      using holds_less [OF holds_step [OF h, of b2] subset_insertI] by auto
    moreover have "wp dg (clone_elements C at cl is) Q b2"
      by (rule Cons.IH [OF calculation(2)]) (use Cons.prems(2,3) in auto)
    ultimately show "wp dg (?rest e) Q b'" using e(2) c by auto
  qed simp
  with q(1) show ?case by simp
qed simp

lemma clones_contracts:
  "clones src 4 (Response_CheckContract_vec_clone C src) (FB_offsets (map row_obj cs)) (FB_offsets (map copied_contract cs))"
proof (rule clonesI)
  fix dg q st H b Q
  assume x: "represents src q (FB_offsets (map row_obj cs))" and h: "holds st H b" "st \<noteq> []"
    and q: "\<And>r b'. holds st (insert (r, FB_offsets (map copied_contract cs)) H) b' \<Longrightarrow> Q r b'"
  let ?vec = "Some (int (q + 4))" and ?R = "cl_base C"
  let ?at = "\<lambda>i. Response_CheckContract_vec_at src ?vec i" and ?cl = "Response_CheckContract_clone C src"
  note len = offset_elements(1) [OF x]
  have at: "\<exists>t. ?at i = Inr (Some (int t)) \<and> represents src t (row_obj (cs ! i)) \<and>
      clones src 0 ?cl (row_obj (cs ! i)) (copied_contract (cs ! i))" if "i \<in> set [0..<length cs]" for i
    using offset_elements(2) [OF x, of i] that clones_row by (auto simp: Response_CheckContract_vec_at_def)
  have all: "map (\<lambda>i. copied_contract (cs ! i)) [0..<length cs] = map copied_contract cs"
    by (rule nth_equalityI) simp_all
  let ?rest = "\<lambda>ok. if ok then memoize_end C ?vec (build_call (rt_end_offset_vector ?R)) else build_return 0"
  have "wp dg (offset_vec_start ?R) (\<lambda>rc. wp dg (if rc \<noteq> 0 then build_return 0
      else build_then (clone_elements C ?at ?cl [0..<length cs]) ?rest) Q) b"
  proof (rule vec_start_wp [OF h])
    fix b1
    assume h1: "holds (Offsets_frame [] # st) H b1"
    have "wp dg (clone_elements C ?at ?cl [0..<length cs]) (\<lambda>ok. wp dg (?rest ok) Q) b1"
    proof (rule clone_elements_wp [OF h1 at])
      fix b2
      assume "holds (Offsets_frame ([] @ map (\<lambda>i. copied_contract (cs ! i)) [0..<length cs]) # st) H b2"
      then have "holds (Offsets_frame (map copied_contract cs) # st) H b2" unfolding all by simp
      from vec_end_wp [OF this q] show "wp dg (?rest True) Q b2" by (simp add: offset_vec_end_def)
    qed
    then show "wp dg (if (0 :: int) \<noteq> 0 then build_return 0
      else build_then (clone_elements C ?at ?cl [0..<length cs]) ?rest) Q b1" by simp
  qed
  with len show "wp dg (Response_CheckContract_vec_clone C src ?vec) Q b"
    by (simp add: Response_CheckContract_vec_clone_def offset_vec_clone_def offset_vec_start_def del: of_nat_add)
qed

text \<open>Tables with one reference.\<close>

lemma clones_one_ref:
  assumes "clones src adj f x y" "adj = 0 \<and> get = (\<lambda>buf t. table_field buf 0 r t) \<or> adj = 4 \<and> get = (\<lambda>buf t. vector_field buf 0 r t)"
  shows "clones src 0 (\<lambda>p. table_clone C p [table_start (cl_base C) 1,
      ref_field_pick src get f (offset_add (cl_base C) 0) p] (table_end (cl_base C) [0]))
    (FB_table [(0, FB_ref x)]) (FB_table [(0, FB_ref y)])"
proof (rule clonesI)
  fix dg q st H b Q
  assume t: "represents src q (FB_table [(0, FB_ref x)])" and h: "holds st H b" "st \<noteq> []"
    and q: "\<And>r b'. holds st (insert (r, FB_table [(0, FB_ref y)]) H) b' \<Longrightarrow> Q r b'"
  have get: "get = (\<lambda>buf t. offset_field buf 0 r (int adj) t)"
    using assms(2) by (auto simp: table_field_def vector_field_def fun_eq_iff)
  note pick = ref_pick_wp [OF _ t, where x = "Some x" and g = "\<lambda>_. y" and f = f and r = r and adj = adj and ID = 0]
  show "wp dg (table_clone C (Some (int (q + 0))) [table_start (cl_base C) 1,
      ref_field_pick src get f (offset_add (cl_base C) 0) (Some (int (q + 0)))] (table_end (cl_base C) [0])) Q b"
    unfolding table_clone_wp add_0_right get
    by (rule any_failed_step, rule table_start_wp [OF h], rule conjI [OF refl])
      (rule any_failed_step, erule pick, (simp add: assms(1); fail)+, rule conjI [OF refl],
       simp only: wp_any_failed if_False, erule table_end_wp, simp add: opt_field_def, rule q, simp add: opt_field_def)
qed

lemma clones_request: "clones src 0 (Response_RequestContract_clone C src) (FB_table [(0, FB_ref (requested_obj c))])
    (FB_table [(0, FB_ref (copied_contract c))])"
  using clones_one_ref [OF clones_contract, where get = "\<lambda>buf t. table_field buf 0 True t" and r = True]
  by (simp add: Response_RequestContract_clone_def [abs_def] Response_RequestContract_start_def
    Response_RequestContract_result_pick_def Response_RequestContract_end_def Response_RequestContract_required_def
    Response_RequestContract_result_get_def [abs_def] Response_RequestContract_result_add_def [abs_def])

lemma clones_list: "clones src 0 (Response_ListContracts_clone C src)
    (FB_table [(0, FB_ref (FB_offsets (map row_obj cs)))]) (FB_table [(0, FB_ref (FB_offsets (map copied_contract cs)))])"
  using clones_one_ref [OF clones_contracts, where get = "\<lambda>buf t. vector_field buf 0 True t" and r = True]
  by (simp add: Response_ListContracts_clone_def [abs_def] Response_ListContracts_start_def
    Response_ListContracts_contracts_pick_def Response_ListContracts_end_def Response_ListContracts_required_def
    Response_ListContracts_contracts_get_def [abs_def] Response_ListContracts_contracts_add_def [abs_def])

section \<open>The message\<close>

lemma clones_body:
  assumes "represents src q (body_obj m)" "holds st H b" "st \<noteq> []"
    and "\<And>r b'. holds st (insert (r, copied_body m) H) b' \<Longrightarrow> Q (body_type m, r) b'"
  shows "wp dg (Response_MessageType_clone C src \<lparr>u_type = body_type m, u_value = Some (int q)\<rparr>) Q b"
proof -
  have tag: "wp dg (build_then (f (Some (int q))) (\<lambda>r. build_return (t, r))) Q b"
    if "clones src 0 f (body_obj m) (copied_body m)" "t = body_type m" for f t
    using clones_wp [OF that(1) assms(1-3), of "\<lambda>r. Q (t, r)"] assms(4) that(2) by simp
  show ?thesis
    unfolding Response_MessageType_clone_def union_defs Let_def
    by (cases m; simp del: wp_then; rule tag; simp add: clones_token clones_me clones_request clones_list clones_row)
qed

lemma union_pick_wp:
  assumes "holds (Table_frame 4 [] # st) H b" "represents src p (message_obj a)"
    "r_msg a = None \<or> dg \<or> stores_last (cl_base C)"
    and "\<And>b'. holds (Table_frame 4 (copied_value (r_msg a)) # st) H b' \<Longrightarrow> Q 0 b'"
  shows "wp dg (Response_Message_msg_pick C src (Some (int p))) Q b"
proof -
  obtain fs where fs: "message_obj a = FB_table fs" by (simp add: message_obj_def)
  note t = assms(2) [unfolded fs] and look = message_lookup [OF fs]
  note pick = Response_Message_msg_pick_def union_field_pick_def Response_Message_msg_union_def
  show ?thesis
  proof (cases "r_msg a")
    case None
    with read_union_field(1) [OF t, of 1 False] look(3) assms(1,4) show ?thesis
      by (simp add: pick copied_value_def)
  next
    case (Some m)
    from read_union_field(2) [OF t, of 1 "body_type m" "body_obj m" False] look(4) [OF Some] obtain q where
      u: "union_field src 1 False (Some (int p)) = Inr \<lparr>u_type = body_type m, u_value = Some (int q)\<rparr>"
        "represents src q (body_obj m)" by (auto simp: body_type_range)
    have "wp dg (Response_MessageType_clone C src \<lparr>u_type = body_type m, u_value = Some (int q)\<rparr>)
        (\<lambda>u. wp dg (Response_Message_msg_add (cl_base C) u) Q) b"
    proof (rule clones_body [OF u(2) assms(1)])
      fix r b'
      assume h: "holds (Table_frame 4 [] # st) (insert (r, copied_body m) H) b'"
      show "wp dg (Response_Message_msg_add (cl_base C) (body_type m, r)) Q b'"
        unfolding Response_Message_msg_add_def
        by (rule union_add_wp [OF h insertI1 body_type_range(1)], insert assms(3), simp_all add: Some, rule assms(4))
          (auto simp: copied_value_def Some elim: holds_less)
    qed simp
    with u(1) body_type_range [of m] show ?thesis by (simp add: pick)
  qed
qed

lemmas message_clone_defs = Response_Message_clone_def Response_Message_start_def Response_Message_end_def
  Response_Message_required_def Response_Message_errorDescription_pick_def Response_Message_error_pick_def
  Response_Message_errorDescription_get_def [abs_def] Response_Message_errorDescription_add_def [abs_def]

lemma message_clone_wp:
  assumes t: "represents src q (message_obj a)" and h: "holds st H b" "st \<noteq> []"
    and d: "r_msg a = None \<or> dg \<or> stores_last (cl_base C)"
    and q: "\<And>r b'. holds st (insert (r, copied_message a) H) b' \<Longrightarrow> Q r b'"
  shows "wp dg (Response_Message_clone C src (Some (int q))) Q b"
proof -
  obtain fs where fs: "message_obj a = FB_table fs" by (simp add: message_obj_def)
  note t' = t [unfolded fs] and look = message_lookup [OF fs]
  have ids: "2 \<notin> fst ` set (copied_value m)" "3 \<notin> fst ` set (copied_value m)" for m
    by (cases m; simp add: copied_value_def)+
  show ?thesis
    unfolding message_clone_defs table_clone_wp
    by (rule any_failed_step, rule table_start_wp [OF h], rule conjI [OF refl])
      (rule any_failed_step, erule union_pick_wp [OF _ t d], rule conjI [OF refl],
       rule any_failed_step, erule string_pick_wp [OF _ t' look(2)], (simp add: ids; fail)+, rule conjI [OF refl],
       rule any_failed_step, erule scalar_pick_wp [OF _ t' look(1)], (simp add: ids image_Un; fail)+, rule conjI [OF refl],
       simp only: wp_any_failed if_False, erule table_end_wp, simp, rule q, simp add: copied_message_def)
qed

lemma clone_as_root_wp:
  assumes "represents src q (message_obj a)" "holds [] H b" "r_msg a = None \<or> dg \<or> stores_last (cl_base C)"
  shows "wp dg (Response_Message_clone_as_root C src (Some (int q)))
    (\<lambda>_ b'. frames b' = [] \<and> root b' = Some (copied_message a)) b"
proof -
  obtain b1 rc where c: "rt_start_buffer (cl_base C) Response_Message_identifier b = (b1, rc)" by fastforce
  have "frames b = []" using assms(2) by (simp add: holds_def)
  from start_buffer [OF this c] holds_step [OF assms(2)]
  have rc: "rc = 0" and h: "holds [Buffer_frame] H b1" by auto
  let ?Q = "\<lambda>_ b'. frames b' = [] \<and> root b' = Some (copied_message a)"
  have "wp dg (Response_Message_clone C src (Some (int q))) (\<lambda>r. wp dg (buffer_end (cl_base C) r) ?Q) b1"
  proof (rule message_clone_wp [OF assms(1) h _ assms(3)])
    fix r b2
    assume h2: "holds [Buffer_frame] (insert (r, copied_message a) H) b2"
    obtain b3 r3 where e: "rt_end_buffer (cl_base C) r b2 = (b3, r3)" by fastforce
    from h2 have "frames b2 = [Buffer_frame]" "object b2 r = Some (copied_message a)" by (simp_all add: holds_def)
    from end_buffer [OF this e] e show "wp dg (buffer_end (cl_base C) r) ?Q b2" by (simp add: buffer_end_def)
  qed simp
  with c rc show ?thesis
    by (simp add: Response_Message_clone_as_root_def create_as_root_def buffer_start_def)
qed

lemma cloned_root:
  assumes "4 \<le> length src" "represents src (u32_at src 0) (message_obj a)"
  shows "cloned C src = Inl Dangling \<and> r_msg a \<noteq> None \<and> \<not> stores_last (cl_base C) \<or>
    (\<exists>b. cloned C src = Inr (rt_finalize_aligned_buffer (cl_base C) b) \<and>
       frames b = [] \<and> root b = Some (copied_message a))"
proof -
  define dg where "dg \<longleftrightarrow> r_msg a \<noteq> None \<and> \<not> stores_last (cl_base C)"
  let ?m = "Response_Message_clone_as_root C src (Some (int (u32_at src 0))) (rt_init (cl_base C))"
  have "holds [] {} (rt_init (cl_base C))" using init by (simp add: holds_def)
  then have "wp dg (Response_Message_clone_as_root C src (Some (int (u32_at src 0))))
      (\<lambda>_ b'. frames b' = [] \<and> root b' = Some (copied_message a)) (rt_init (cl_base C))"
    by (rule clone_as_root_wp [OF assms(2)]) (auto simp: dg_def)
  with response_root [OF assms(1)] show ?thesis
    by (cases ?m) (auto simp: wp_def cloned_def dg_def)
qed

lemma cloned_represents:
  assumes "4 \<le> length src" "represents src (u32_at src 0) (message_obj a)"
  shows "cloned C src = Inl Dangling \<and> r_msg a \<noteq> None \<and> \<not> stores_last (cl_base C) \<or>
    (\<exists>res. cloned C src = Inr res \<and>
      (\<forall>buf. res = Some buf \<longrightarrow> 4 \<le> length buf \<and> represents buf (u32_at buf 0) (message_obj a)))"
  using cloned_root [OF assms] finalize read_alikeD [OF copied_message_alike] by fastforce

end

section \<open>The operations over the list runtime\<close>

definition list_cloning :: "builder_state cloning_runtime" where
  "list_cloning =
     \<lparr>cl_base = list_runtime,
      cl_refmap_find = (\<lambda>p b. 0),
      cl_refmap_insert = (\<lambda>p r b. (b, r)),
      cl_create_string = (\<lambda>v. bs_new (FB_string v)),
      cl_table_add_copy = (\<lambda>ID v sz al. bs_add ID (FB_inline v))\<rparr>"

lemma list_cloning_base [simp]: "cl_base list_cloning = list_runtime"
  by (simp add: list_cloning_def)

interpretation copied: flatcc_cloning list_cloning bs_frames bs_object bs_place bs_root
  unfolding flatcc_cloning_def flatcc_cloning_axioms_def list_cloning_base
  by (intro conjI built.flatcc_builder_axioms)
    (auto simp: list_cloning_def bs_new_def bs_add_def bs_update_def bs_object_def map_le_def nth_append)

section \<open>Properties\<close>

lemma sample_copy_fits: "fits (copied_message sample_answer)"
  by (simp add: sample_answer_def sample_contract_def copied_message_def ok_response_def opt_field_def opt_text_def
    opt_bytes_def stored_def copied_value_def copied_contract_def built.contract_parts user_obj_def text_field_def text_bytes_def
    double_eq_def minus_one_def table_fits_def inline_size_def slots_start_def vtable_slots_def table_bytes_def
    offsets_bytes_def status_Processing_def id_field_def user_field_def)

text \<open>C22: cloning the root of a finished response as the root of a new buffer, by the generated clone
  functions and without a reference map, runs without a failing assertion and with every read
  inside the source, and the copy, if the runtime yields one, is read back as the same response. As for
  the source, the type of a union is stored through a pointer that need not have survived, which
  is undefined with a runtime that does not keep it.\<close>

theorem clone_read_back:
  assumes "flatcc_builder B frames object place root" "flatcc_cloning C frames' object' place' root'"
    and "response_wf a" "(\<exists>d. a = error_response d) \<or> (\<exists>m. a = ok_response m)"
    and "finished B a = Inr (Some src)"
  shows "cloned C src = Inl Dangling \<and> r_msg a \<noteq> None \<and> \<not> stores_last (cl_base C) \<or>
    (\<exists>res. cloned C src = Inr res \<and> (\<forall>buf. res = Some buf \<longrightarrow> read_response buf = Inr (response_sent a)))"
proof -
  from flatcc_builder.finished_represents [OF assms(1,3,4)] assms(5)
  have "4 \<le> length src" "represents src (u32_at src 0) (message_obj a)" by simp_all
  from flatcc_cloning.cloned_represents [OF assms(2) this] read_response_obj [OF _ _ assms(3)] show ?thesis by blast
qed

theorem clone_read_back_witness:
  "\<exists>src buf. finished list_runtime sample_answer = Inr (Some src) \<and> cloned list_cloning src = Inr (Some buf) \<and>
    read_response buf = Inr (response_sent sample_answer)"
proof -
  have a: "response_wf sample_answer" "(\<exists>d. sample_answer = error_response d) \<or> (\<exists>m. sample_answer = ok_response m)"
    by (auto simp: sample_answer_def sample_contract_def response_wf_def contract_wf_def user_wf_def wf_double_def)
  define src where "src = le_bytes 4 4 @ encode (message_obj sample_answer)"
  have f: "finished list_runtime sample_answer = Inr (Some src)"
    using list_runtime_finished [OF a] sample_answer_fits by (simp add: src_def)
  have "4 \<le> length src" by (simp add: src_def)
  moreover have "represents src (u32_at src 0) (message_obj sample_answer)"
    unfolding src_def by (rule encode_finalized [OF sample_answer_fits])
  ultimately obtain b where "cloned list_cloning src = Inr (rt_finalize_aligned_buffer list_runtime b)"
    "bs_root b = Some (copied_message sample_answer)"
    using copied.cloned_root list_runtime_last by auto
  then have "\<exists>buf. cloned list_cloning src = Inr (Some buf)"
    using sample_copy_fits by (simp add: list_runtime_def)
  with clone_read_back [OF built.flatcc_builder_axioms copied.flatcc_cloning_axioms a f] f list_runtime_last show ?thesis by fastforce
qed

end
