(* ===== verification/Fb_Edit.thy ===== *)
theory Fb_Edit
  imports Fb_Open Fb_Copy
begin

text \<open>
  What the macros for open strings and vectors build. A script of edits is replayed on a list; the contract
  \<open>flatcc_editing\<close> states, after the comments of \<open>flatcc_builder.h\<close>, what the runtime does with the
  innermost frame; the rules show that the finished string or vector is the replayed list.
\<close>

section \<open>Edits\<close>

definition overwrite :: "nat \<Rightarrow> 'a list \<Rightarrow> 'a list \<Rightarrow> 'a list" where
  "overwrite k v xs = take k xs @ v @ drop (k + length v) xs"

definition shorten :: "nat \<Rightarrow> 'a list \<Rightarrow> 'a list" where
  "shorten n xs = take (length xs - n) xs"

lemma overwrite_one: "k < length xs \<Longrightarrow> overwrite k [x] xs = xs[k := x]"
  by (simp add: overwrite_def upd_conv_take_nth_drop)

lemma length_overwrite [simp]: "k + length v \<le> length xs \<Longrightarrow> length (overwrite k v xs) = length xs"
  by (simp add: overwrite_def)

lemma overwrite_end: "overwrite (length xs) v (xs @ replicate (length v) x) = xs @ v"
  by (simp add: overwrite_def)

lemma overwrite_same: "k + n \<le> length xs \<Longrightarrow> overwrite k (take n (drop k xs)) xs = xs"
  by (metis overwrite_def append_take_drop_id drop_drop add.commute length_take length_drop min.absorb2 le_diff_conv2 add_leD1)

text \<open>What a client may do to an open string: through the pointer of \<open>_edit\<close> it writes below the reserved
  length.\<close>

datatype text_edit =
    Append "u8 list"
  | Append_str string
  | Append_strn string nat
  | Extend nat
  | Truncate nat
  | Put nat u8

fun text_after :: "text_edit \<Rightarrow> u8 list \<Rightarrow> u8 list" where
  "text_after (Append v) s = s @ v"
| "text_after (Append_str t) s = s @ text_bytes t"
| "text_after (Append_strn t n) s = s @ text_bytes (take n t)"
| "text_after (Extend n) s = s @ replicate n 0"
| "text_after (Truncate n) s = (if n \<le> length s then shorten n s else s)"
| "text_after (Put i c) s = s[i := c]"

fun text_edit_ok :: "text_edit \<Rightarrow> bool" where
  "text_edit_ok (Append_str t) = cstr t"
| "text_edit_ok (Append_strn t n) = cstr t"
| "text_edit_ok _ = True"

fun edit_text :: "'b editing_runtime \<Rightarrow> text_edit \<Rightarrow> ('b, unit) build" where
  "edit_text D (Append v) = build_then (string_append D v (length v)) (\<lambda>_. build_return ())"
| "edit_text D (Append_str t) = build_then (string_append_str D t) (\<lambda>_. build_return ())"
| "edit_text D (Append_strn t n) = build_then (string_append_strn D t n) (\<lambda>_. build_return ())"
| "edit_text D (Extend n) = build_then (string_extend D n) (\<lambda>_. build_return ())"
| "edit_text D (Truncate n) = build_then (string_truncate D n) (\<lambda>_. build_return ())"
| "edit_text D (Put i c) =
     build_then (string_edit D) (\<lambda>p.
     build_then (string_reserved_len D) (\<lambda>n.
       if i < n then build_do (ed_write D p i [c]) else build_return ()))"

definition edited_string :: "'b editing_runtime \<Rightarrow> text_edit list \<Rightarrow> ('b, nat) build" where
  "edited_string D es =
     build_then (string_start D) (\<lambda>rc.
       if rc \<noteq> 0 then build_return 0
       else build_then (for_each (edit_text D) es) (\<lambda>_. string_end D))"

text \<open>The same for a vector of elements of \<open>S\<close> bytes.\<close>

datatype bytes_edit =
    Vec_push "u8 list"
  | Vec_push_create "u8 list"
  | Vec_append "u8 list" nat
  | Vec_extend nat
  | Vec_truncate nat
  | Vec_put nat "u8 list"

fun vec_after :: "nat \<Rightarrow> bytes_edit \<Rightarrow> u8 list \<Rightarrow> u8 list" where
  "vec_after S (Vec_push v) xs = xs @ v"
| "vec_after S (Vec_push_create v) xs = xs @ v"
| "vec_after S (Vec_append v n) xs = xs @ v"
| "vec_after S (Vec_extend n) xs = xs @ replicate (S * n) 0"
| "vec_after S (Vec_truncate n) xs = (if S * n \<le> length xs then shorten (S * n) xs else xs)"
| "vec_after S (Vec_put i v) xs = (if S * i < length xs then overwrite (S * i) v xs else xs)"

fun vec_edit_ok :: "nat \<Rightarrow> bytes_edit \<Rightarrow> bool" where
  "vec_edit_ok S (Vec_append v n) \<longleftrightarrow> length v = S * n"
| "vec_edit_ok S (Vec_push v) \<longleftrightarrow> length v = S"
| "vec_edit_ok S (Vec_push_create v) \<longleftrightarrow> length v = S"
| "vec_edit_ok S (Vec_put i v) \<longleftrightarrow> length v = S"
| "vec_edit_ok S _ \<longleftrightarrow> True"

fun edit_vec :: "'b editing_runtime \<Rightarrow> nat \<Rightarrow> bytes_edit \<Rightarrow> ('b, unit) build" where
  "edit_vec D S (Vec_push v) = build_then (vec_push D S v) (\<lambda>_. build_return ())"
| "edit_vec D S (Vec_push_create v) = build_then (vec_push_create D v) (\<lambda>_. build_return ())"
| "edit_vec D S (Vec_append v n) = build_then (vec_append D S v n) (\<lambda>_. build_return ())"
| "edit_vec D S (Vec_extend n) = build_then (vec_extend D n) (\<lambda>_. build_return ())"
| "edit_vec D S (Vec_truncate n) = build_then (vec_truncate D n) (\<lambda>_. build_return ())"
| "edit_vec D S (Vec_put i v) =
     build_then (vec_edit D) (\<lambda>p.
     build_then (vec_reserved_len D) (\<lambda>n.
       if i < n then build_do (ed_write D p (S * i) v) else build_return ()))"

definition edited_vec :: "'b editing_runtime \<Rightarrow> nat \<Rightarrow> nat \<Rightarrow> bytes_edit list \<Rightarrow> ('b, nat) build" where
  "edited_vec D S A es =
     build_then (vec_start D S A) (\<lambda>rc.
       if rc \<noteq> 0 then build_return 0
       else build_then (for_each (edit_vec D S) es) (\<lambda>_. vec_end D S))"

text \<open>The same for a vector of references. \<open>val r\<close> is the object that a reference of the script refers to.\<close>

datatype ref_edit =
    Ref_push nat
  | Ref_append "nat list"
  | Ref_extend nat
  | Ref_truncate nat
  | Ref_put nat nat

fun refs_of :: "ref_edit \<Rightarrow> nat set" where
  "refs_of (Ref_push r) = {r}"
| "refs_of (Ref_append rs) = set rs"
| "refs_of (Ref_put i r) = {r}"
| "refs_of _ = {}"

fun refs_after :: "(nat \<Rightarrow> fb_obj) \<Rightarrow> ref_edit \<Rightarrow> fb_obj option list \<Rightarrow> fb_obj option list" where
  "refs_after val (Ref_push r) xs = xs @ [Some (val r)]"
| "refs_after val (Ref_append rs) xs = xs @ map (\<lambda>r. Some (val r)) rs"
| "refs_after val (Ref_extend n) xs = xs @ replicate n None"
| "refs_after val (Ref_truncate n) xs = (if n \<le> length xs then shorten n xs else xs)"
| "refs_after val (Ref_put i r) xs = xs[i := Some (val r)]"

fun edit_refs :: "'b editing_runtime \<Rightarrow> ref_edit \<Rightarrow> ('b, unit) build" where
  "edit_refs D (Ref_push r) = build_then (offset_vec_push (ed_base D) r) (\<lambda>_. build_return ())"
| "edit_refs D (Ref_append rs) = build_then (offset_vec_append D rs (length rs)) (\<lambda>_. build_return ())"
| "edit_refs D (Ref_extend n) = build_then (offset_vec_extend D n) (\<lambda>_. build_return ())"
| "edit_refs D (Ref_truncate n) = build_then (offset_vec_truncate D n) (\<lambda>_. build_return ())"
| "edit_refs D (Ref_put i r) =
     build_then (offset_vec_edit D) (\<lambda>p.
     build_then (offset_vec_reserved_len D) (\<lambda>n.
       if i < n then build_do (ed_write_ref D p i r) else build_return ()))"

definition edited_refs :: "'b editing_runtime \<Rightarrow> ref_edit list \<Rightarrow> ('b, nat) build" where
  "edited_refs D es =
     build_then (offset_vec_start (ed_base D)) (\<lambda>rc.
       if rc \<noteq> 0 then build_return 0
       else build_then (for_each (edit_refs D) es) (\<lambda>_. offset_vec_end (ed_base D)))"

section \<open>The contract of the runtime\<close>

text \<open>A step to given frames that keeps the completed objects.\<close>

definition steps_to ::
  "('b \<Rightarrow> frame list) \<Rightarrow> ('b \<Rightarrow> nat \<Rightarrow> fb_obj option) \<Rightarrow> 'b \<Rightarrow> frame list \<Rightarrow> 'b \<Rightarrow> bool" where
  "steps_to frames object b st b' \<longleftrightarrow> frames b' = st \<and> object b \<subseteq>\<^sub>m object b'"

text \<open>\<open>sized b\<close>: the root of a finished buffer with a size prefix. \<open>spot b p\<close>: the byte or the element of the innermost frame that the pointer \<open>p\<close> points to. As in
  \<open>flatcc_builder\<close>, memory does not run out.\<close>

locale flatcc_editing = flatcc_cloning "ed_cloning D" frames object place root
  for D :: "'b editing_runtime" and frames :: "'b \<Rightarrow> frame list"
    and object :: "'b \<Rightarrow> nat \<Rightarrow> fb_obj option" and place :: "'b \<Rightarrow> nat \<Rightarrow> nat option"
    and root :: "'b \<Rightarrow> fb_obj option" +
  fixes spot :: "'b \<Rightarrow> nat \<Rightarrow> nat option" and sized :: "'b \<Rightarrow> fb_obj option"
  assumes start_string: "frames b \<noteq> [] \<Longrightarrow> ed_start_string D b = (b', rc) \<Longrightarrow>
      rc = 0 \<and> steps_to frames object b (Text_frame [] # frames b) b'"
    and end_string: "frames b = Text_frame s # st \<Longrightarrow> ed_end_string D b = (b', r) \<Longrightarrow>
      steps_to frames object b st b' \<and> object b' r = Some (FB_string s)"
    and create_strn: "frames b \<noteq> [] \<Longrightarrow> cstr t \<Longrightarrow> ed_create_string_strn D t n b = (b', r) \<Longrightarrow>
      steps_to frames object b (frames b) b' \<and> object b' r = Some (FB_string (text_bytes (take n t)))"
    and append_string: "frames b = Text_frame s # st \<Longrightarrow> ed_append_string D v b = (b', res) \<Longrightarrow>
      steps_to frames object b (Text_frame (s @ v) # st) b'"
    and append_str: "frames b = Text_frame s # st \<Longrightarrow> cstr t \<Longrightarrow> ed_append_string_str D t b = (b', res) \<Longrightarrow>
      steps_to frames object b (Text_frame (s @ text_bytes t) # st) b'"
    and append_strn: "frames b = Text_frame s # st \<Longrightarrow> cstr t \<Longrightarrow> ed_append_string_strn D t n b = (b', res) \<Longrightarrow>
      steps_to frames object b (Text_frame (s @ text_bytes (take n t)) # st) b'"
    and extend_string: "frames b = Text_frame s # st \<Longrightarrow> ed_extend_string D n b = (b', res) \<Longrightarrow>
      steps_to frames object b (Text_frame (s @ replicate n 0) # st) b'"
    and truncate_string: "frames b = Text_frame s # st \<Longrightarrow> ed_truncate_string D n b = (b', rc) \<Longrightarrow>
      if n \<le> length s then rc = 0 \<and> steps_to frames object b (Text_frame (shorten n s) # st) b'
      else rc = - 1 \<and> steps_to frames object b (frames b) b'"
    and string_len: "frames b = Text_frame s # st \<Longrightarrow> ed_string_len D b = length s"
    and string_spot: "frames b = Text_frame s # st \<Longrightarrow> spot b (ed_string_edit D b) = Some 0"
    and write_text: "frames b = Text_frame s # st \<Longrightarrow> spot b p = Some j \<Longrightarrow> j + k + length v \<le> length s \<Longrightarrow>
      steps_to frames object b (Text_frame (overwrite (j + k) v s) # st) (ed_write D p k v b)"
    and start_bytes: "frames b \<noteq> [] \<Longrightarrow> 0 < S \<Longrightarrow> ed_start_vector D S A (count_max S) b = (b', rc) \<Longrightarrow>
      rc = 0 \<and> steps_to frames object b (Bytes_frame S [] # frames b) b'"
    and end_bytes: "frames b = Bytes_frame 1 bs # st \<Longrightarrow> ed_end_vector D b = (b', r) \<Longrightarrow>
      steps_to frames object b st b' \<and> object b' r = Some (FB_bytes bs)"
    and append_bytes: "frames b = Bytes_frame S bs # st \<Longrightarrow> length v = S * n \<Longrightarrow> ed_append_vector D v n b = (b', res) \<Longrightarrow>
      steps_to frames object b (Bytes_frame S (bs @ v) # st) b'"
    and extend_bytes: "frames b = Bytes_frame S bs # st \<Longrightarrow> ed_extend_vector D n b = (b', res) \<Longrightarrow>
      steps_to frames object b (Bytes_frame S (bs @ replicate (S * n) 0) # st) b' \<and>
      (\<exists>q. res = Some q \<and> spot b' q = Some (length bs))"
    and truncate_bytes: "frames b = Bytes_frame S bs # st \<Longrightarrow> ed_truncate_vector D n b = (b', rc) \<Longrightarrow>
      if S * n \<le> length bs then rc = 0 \<and> steps_to frames object b (Bytes_frame S (shorten (S * n) bs) # st) b'
      else rc = - 1 \<and> steps_to frames object b (frames b) b'"
    and bytes_count: "frames b = Bytes_frame S bs # st \<Longrightarrow> length bs = S * n \<Longrightarrow> 0 < S \<Longrightarrow> ed_vector_count D b = n"
    and bytes_spot: "frames b = Bytes_frame S bs # st \<Longrightarrow> spot b (ed_vector_edit D b) = Some 0"
    and read_bytes: "frames b = Bytes_frame S bs # st \<Longrightarrow> spot b p = Some j \<Longrightarrow> j + k + n \<le> length bs \<Longrightarrow>
      ed_read D p k n b = take n (drop (j + k) bs)"
    and write_bytes: "frames b = Bytes_frame S bs # st \<Longrightarrow> spot b p = Some j \<Longrightarrow> j + k + length v \<le> length bs \<Longrightarrow>
      steps_to frames object b (Bytes_frame S (overwrite (j + k) v bs) # st) (ed_write D p k v b) \<and>
      spot (ed_write D p k v b) = spot b"
    and create_refs: "frames b \<noteq> [] \<Longrightarrow> list_all2 (\<lambda>r x. object b r = Some x) rs ys \<Longrightarrow>
      ed_create_offset_vector D rs b = (b', r) \<Longrightarrow>
      steps_to frames object b (frames b) b' \<and> object b' r = Some (FB_offsets ys)"
    and append_refs: "frames b = Slots_frame xs # st \<Longrightarrow> list_all2 (\<lambda>r x. object b r = Some x) rs ys \<Longrightarrow>
      ed_append_offset_vector D rs b = (b', res) \<Longrightarrow> steps_to frames object b (Slots_frame (xs @ map Some ys) # st) b'"
    and push_ref: "frames b = Slots_frame xs # st \<Longrightarrow> object b r = Some x \<Longrightarrow>
      rt_offset_vector_push (ed_base D) r b = (b', res) \<Longrightarrow> steps_to frames object b (Slots_frame (xs @ [Some x]) # st) b'"
    and extend_refs: "frames b = Slots_frame xs # st \<Longrightarrow> ed_extend_offset_vector D n b = (b', res) \<Longrightarrow>
      steps_to frames object b (Slots_frame (xs @ replicate n None) # st) b'"
    and truncate_refs: "frames b = Slots_frame xs # st \<Longrightarrow> ed_truncate_offset_vector D n b = (b', rc) \<Longrightarrow>
      if n \<le> length xs then rc = 0 \<and> steps_to frames object b (Slots_frame (shorten n xs) # st) b'
      else rc = - 1 \<and> steps_to frames object b (frames b) b'"
    and refs_count: "frames b = Slots_frame xs # st \<Longrightarrow> ed_offset_vector_count D b = length xs"
    and refs_spot: "frames b = Slots_frame xs # st \<Longrightarrow> spot b (ed_offset_vector_edit D b) = Some 0"
    and write_ref: "frames b = Slots_frame xs # st \<Longrightarrow> spot b p = Some j \<Longrightarrow> j + i < length xs \<Longrightarrow> object b r = Some x \<Longrightarrow>
      steps_to frames object b (Slots_frame (xs[j + i := Some x]) # st) (ed_write_ref D p i r b)"
    and create_types: "frames b \<noteq> [] \<Longrightarrow> ed_create_type_vector D ts b = (b', r) \<Longrightarrow>
      steps_to frames object b (frames b) b' \<and> object b' r = Some (FB_bytes ts)"
    and start_unions: "frames b \<noteq> [] \<Longrightarrow> ed_start_union_vector D b = (b', rc) \<Longrightarrow>
      rc = 0 \<and> steps_to frames object b (Unions_frame [] # frames b) b'"
    and push_union: "frames b = Unions_frame us # st \<Longrightarrow> object b r = Some x \<Longrightarrow> 0 < ty \<Longrightarrow> ty < 256 \<Longrightarrow>
      ed_union_vector_push D (ty, r) b = (b', res) \<Longrightarrow> steps_to frames object b (Unions_frame (us @ [(ty, Some x)]) # st) b'"
    and end_unions: "frames b = Unions_frame (map (\<lambda>(t, x). (t, Some x)) ms) # st \<Longrightarrow>
      ed_end_union_vector D b = (b', ty, r) \<Longrightarrow>
      steps_to frames object b st b' \<and> object b' ty = Some (FB_bytes (map (\<lambda>u. of_nat (fst u)) ms)) \<and>
      object b' r = Some (FB_offsets (map snd ms))"
    and start_sized: "frames b = [] \<Longrightarrow> ed_start_buffer D fid al 2 b = (b', rc) \<Longrightarrow>
      rc = 0 \<and> steps_to frames object b [Sized_frame] b'"
    and end_sized: "frames b = [Sized_frame] \<Longrightarrow> object b r = Some x \<Longrightarrow> rt_end_buffer (ed_base D) r b = (b', r') \<Longrightarrow>
      frames b' = [] \<and> sized b' = Some x"
    and finalize_sized: "frames b = [] \<Longrightarrow> sized b = Some x \<Longrightarrow> rt_finalize_aligned_buffer (ed_base D) b = Some buf \<Longrightarrow>
      \<exists>rest. buf = le_bytes 4 (length rest) @ rest \<and> length rest < 2 ^ 32 \<and> 4 \<le> length rest \<and>
        represents rest (u32_at rest 0) x"
begin

lemma holds_steps: "holds st H b \<Longrightarrow> steps_to frames object b st' b' \<Longrightarrow> holds st' H b'"
  unfolding steps_to_def using holds_step by blast

lemma holds_new: "holds st H b \<Longrightarrow> steps_to frames object b st' b' \<and> object b' r = Some x \<Longrightarrow> holds st' (insert (r, x) H) b'"
  using holds_steps by (simp add: holds_insert)

lemma holds_frames: "holds st H b \<Longrightarrow> frames b = st"
  by (simp add: holds_def)

lemma wp_get [simp]: "wp dg (build_get f) Q b \<longleftrightarrow> Q (f b) b"
  by (simp add: build_get_def)

text \<open>A loop whose steps each turn one frame into the next.\<close>

lemma for_each_wp:
  assumes "\<And>x xs b. x \<in> set es \<Longrightarrow> I xs \<Longrightarrow> holds (F xs # st) H b \<Longrightarrow>
      I (g x xs) \<and> wp dg (f x) (\<lambda>_ b'. holds (F (g x xs) # st) H b') b"
    and "I xs" "holds (F xs # st) H b" and "\<And>b'. I (fold g es xs) \<Longrightarrow> holds (F (fold g es xs) # st) H b' \<Longrightarrow> Q () b'"
  shows "wp dg (for_each f es) Q b"
  using assms
proof (induction es arbitrary: xs b)
  case (Cons e es)
  from Cons.prems(1) [of e xs b] Cons.prems(2,3)
  have "I (g e xs)" "wp dg (f e) (\<lambda>_ b'. holds (F (g e xs) # st) H b') b" by simp_all
  moreover have "wp dg (for_each f es) Q b'" if "holds (F (g e xs) # st) H b'" for b'
    by (rule Cons.IH [OF _ \<open>I (g e xs)\<close> that]) (use Cons.prems in auto)
  ultimately show ?case by (auto elim: wp_mono)
qed simp

section \<open>Strings\<close>

lemma edit_text_wp:
  assumes "text_edit_ok e" "holds (Text_frame s # st) H b"
  shows "wp dg (edit_text D e) (\<lambda>_ b'. holds (Text_frame (text_after e s) # st) H b') b"
proof -
  note f = holds_frames [OF assms(2)] and step = holds_steps [OF assms(2)]
  show ?thesis
  proof (cases e)
    case (Append v)
    obtain b' p where c: "ed_append_string D v b = (b', p)" by fastforce
    with step [OF append_string [OF f c]] Append show ?thesis by (simp add: string_append_def block_def)
  next
    case (Put i c)
    then show ?thesis
    proof (cases "i < length s")
      case True
      with write_text [OF f string_spot [OF f], of i "[c]"] step Put string_len [OF f] show ?thesis
        by (simp add: string_edit_def string_reserved_len_def overwrite_one)
    qed (use assms(2) in \<open>simp add: string_edit_def string_reserved_len_def string_len [OF f] list_update_beyond\<close>)
  next
    case (Truncate n)
    obtain b' rc where c: "ed_truncate_string D n b = (b', rc)" by fastforce
    from truncate_string [OF f c] step [of _ b'] f Truncate c show ?thesis
      by (auto simp: string_truncate_def split: if_splits)
  next
    case (Append_str t)
    obtain b' p where c: "ed_append_string_str D t b = (b', p)" by fastforce
    with step [OF append_str [OF f _ c]] Append_str assms(1) show ?thesis by (simp add: string_append_str_def)
  next
    case (Append_strn t n)
    obtain b' p where c: "ed_append_string_strn D t n b = (b', p)" by fastforce
    with step [OF append_strn [OF f _ c]] Append_strn assms(1) show ?thesis by (simp add: string_append_strn_def)
  next
    case (Extend n)
    obtain b' p where c: "ed_extend_string D n b = (b', p)" by fastforce
    with step [OF extend_string [OF f c]] Extend show ?thesis by (simp add: string_extend_def)
  qed
qed

lemma edited_string_wp:
  assumes "holds st H b" "st \<noteq> []" "\<forall>e \<in> set es. text_edit_ok e"
    and "\<And>r b'. holds st (insert (r, FB_string (fold text_after es [])) H) b' \<Longrightarrow> Q r b'"
  shows "wp dg (edited_string D es) Q b"
proof -
  obtain b1 rc where c: "ed_start_string D b = (b1, rc)" by fastforce
  have f: "frames b = st" using assms(1) by (rule holds_frames)
  with start_string [OF _ c] assms(2) have rc: "rc = 0" and h: "holds (Text_frame [] # st) H b1"
    using holds_steps [OF assms(1)] by auto
  have "wp dg (for_each (edit_text D) es) (\<lambda>_ b2. wp dg (string_end D) Q b2) b1"
  proof (rule for_each_wp [where I = "\<lambda>_. True" and F = Text_frame and g = text_after, OF _ TrueI h])
    fix b2
    assume h2: "holds (Text_frame (fold text_after es []) # st) H b2"
    obtain b3 r where e: "ed_end_string D b2 = (b3, r)" by fastforce
    from holds_new [OF h2 end_string [OF holds_frames [OF h2] e]] assms(4) e show "wp dg (string_end D) Q b2"
      by (simp add: string_end_def)
  qed (use assms(3) edit_text_wp in auto)
  with c rc show ?thesis by (simp add: edited_string_def string_start_def)
qed

section \<open>Vectors of scalars\<close>

lemma vec_extend_wp:
  assumes "holds (Bytes_frame S xs # st) H b"
    and "\<And>q b'. holds (Bytes_frame S (xs @ replicate (S * n) 0) # st) H b' \<Longrightarrow> spot b' q = Some (length xs) \<Longrightarrow> Q (Some q) b'"
  shows "wp dg (build_call (ed_extend_vector D n)) Q b"
proof -
  obtain b' res where c: "ed_extend_vector D n b = (b', res)" by fastforce
  with extend_bytes [OF holds_frames [OF assms(1)] c] holds_steps [OF assms(1)] assms(2) show ?thesis by auto
qed

lemma write_bytes_wp:
  assumes "holds (Bytes_frame S xs # st) H b" "spot b p = Some j" "j + k + length v \<le> length xs"
    and "\<And>b'. holds (Bytes_frame S (overwrite (j + k) v xs) # st) H b' \<Longrightarrow> spot b' = spot b \<Longrightarrow> Q () b'"
  shows "wp dg (build_do (ed_write D p k v)) Q b"
  using write_bytes [OF holds_frames [OF assms(1)] assms(2,3)] holds_steps [OF assms(1)] assms(4) by auto

lemma push_create_wp:
  assumes "holds (Bytes_frame S xs # st) H b" "length v = S"
  shows "wp dg (vec_push_create D v) (\<lambda>_ b'. holds (Bytes_frame S (xs @ v) # st) H b') b"
  unfolding vec_push_create_def wp_then
proof (rule vec_extend_wp [OF assms(1)])
  fix q b'
  assume h: "holds (Bytes_frame S (xs @ replicate (S * 1) 0) # st) H b'" "spot b' q = Some (length xs)"
  have "wp dg (build_do (ed_write D q 0 v)) (\<lambda>_ b'. holds (Bytes_frame S (xs @ v) # st) H b') b'"
    by (rule write_bytes_wp [OF h]) (use assms(2) in \<open>auto simp: overwrite_end\<close>)
  then show "wp dg (case Some q of None \<Rightarrow> build_return None
      | Some q \<Rightarrow> build_then (build_do (ed_write D q 0 v)) (\<lambda>_. build_return (Some q)))
    (\<lambda>_ b'. holds (Bytes_frame S (xs @ v) # st) H b') b'" by simp
qed

lemma read_then: "build_then (build_read (Inr x)) f = f x"
  by (simp add: fun_eq_iff build_then_def build_read_def)

lemma push_is_create: "length v = S \<Longrightarrow> vec_push D S v = vec_push_create D v"
  by (simp add: vec_push_def vec_push_create_def block_def read_then cong: option.case_cong)

lemma edit_vec_wp:
  assumes "vec_edit_ok S e" "0 < S" "S dvd length xs" "holds (Bytes_frame S xs # st) H b"
  shows "S dvd length (vec_after S e xs) \<and> wp dg (edit_vec D S e) (\<lambda>_ b'. holds (Bytes_frame S (vec_after S e xs) # st) H b') b"
proof -
  note f = holds_frames [OF assms(4)] and step = holds_steps [OF assms(4)]
  obtain n where n: "length xs = S * n" using assms(3) by blast
  show ?thesis
  proof (cases e)
    case (Vec_push v)
    with push_create_wp [OF assms(4), of v] assms(1,3) show ?thesis by (simp add: push_is_create)
  next
    case (Vec_push_create v)
    with push_create_wp [OF assms(4), of v] assms(1,3) show ?thesis by simp
  next
    case (Vec_append v m)
    obtain b' res where c: "ed_append_vector D v m b = (b', res)" by fastforce
    with step [OF append_bytes [OF f _ c]] Vec_append assms(1,3) show ?thesis by (simp add: vec_append_def block_def)
  next
    case (Vec_extend m)
    have "wp dg (vec_extend D m) (\<lambda>_ b'. holds (Bytes_frame S (xs @ replicate (S * m) 0) # st) H b') b"
      unfolding vec_extend_def by (rule vec_extend_wp [OF assms(4)])
    with Vec_extend assms(3) show ?thesis by simp
  next
    case (Vec_truncate m)
    obtain b' rc where c: "ed_truncate_vector D m b = (b', rc)" by fastforce
    have "S dvd length (shorten (S * m) xs)" using assms(3) by (simp add: shorten_def)
    with truncate_bytes [OF f c] step [of _ b'] f Vec_truncate c assms(3) show ?thesis
      by (auto simp: vec_truncate_def split: if_splits)
  next
    case (Vec_put i v)
    show ?thesis
    proof (cases "i < n")
      case True
      then have "Suc i * S \<le> n * S" by (intro mult_le_mono1) simp
      with Vec_put assms(1) n have l: "S * i + length v \<le> length xs" by (simp add: mult.commute)
      have "wp dg (build_do (ed_write D (ed_vector_edit D b) (S * i) v))
          (\<lambda>_ b'. holds (Bytes_frame S (overwrite (S * i) v xs) # st) H b') b"
        by (rule write_bytes_wp [OF assms(4) bytes_spot [OF f]]) (use l in simp_all)
      with True Vec_put assms(2,3) n l show ?thesis
        by (simp add: vec_edit_def vec_reserved_len_def bytes_count [OF f n assms(2)])
    qed (use Vec_put assms n in \<open>simp add: vec_edit_def vec_reserved_len_def bytes_count [OF f n]\<close>)
  qed
qed

text \<open>An element of one byte is the same in either byte order.\<close>

lemma cast_byte [simp]: "length v = Suc 0 \<Longrightarrow> cast_to_pe D v = v"
  by (cases v) (simp_all add: cast_to_pe_def)

lemma to_pe_loop_wp:
  assumes "holds (Bytes_frame 1 xs # st) H b" "spot b p = Some 0" "\<forall>i \<in> set is. i < length xs"
    and "\<And>b'. holds (Bytes_frame 1 xs # st) H b' \<Longrightarrow> Q () b'"
  shows "wp dg (for_each (\<lambda>i. to_pe D 1 p (i * 1)) is) Q b"
  using assms
proof (induction "is" arbitrary: b)
  case (Cons i "is")
  note f = holds_frames [OF Cons.prems(1)]
  have i: "i < length xs" using Cons.prems(3) by simp
  let ?v = "take 1 (drop i xs)"
  have r: "ed_read D p i 1 b = ?v" using read_bytes [OF f Cons.prems(2), of i 1] i by simp
  have v: "overwrite (0 + i) ?v xs = xs"
    using overwrite_same [of i 1 xs] i by simp
  have "wp dg (build_do (ed_write D p i ?v)) (\<lambda>_. wp dg (for_each (\<lambda>i. to_pe D 1 p (i * 1)) is) Q) b"
  proof (rule write_bytes_wp [OF Cons.prems(1,2)])
    fix b'
    assume "holds (Bytes_frame 1 (overwrite (0 + i) ?v xs) # st) H b'" "spot b' = spot b"
    with v Cons.prems show "wp dg (for_each (\<lambda>i. to_pe D 1 p (i * 1)) is) Q b'" by (intro Cons.IH) simp_all
  qed (use i in simp)
  with r i show ?case by (simp add: to_pe_def)
qed simp

lemma bytes_end_wp:
  assumes "holds (Bytes_frame 1 xs # st) H b" and "\<And>r b'. holds st (insert (r, FB_bytes xs) H) b' \<Longrightarrow> Q r b'"
  shows "wp dg (vec_end D 1) Q b" "wp dg (vec_end_pe D) Q b"
proof -
  have fin: "wp dg (vec_end_pe D) Q b'" if h: "holds (Bytes_frame 1 xs # st) H b'" for b'
  proof -
    obtain b2 r where c: "ed_end_vector D b' = (b2, r)" by fastforce
    with holds_new [OF h end_bytes [OF holds_frames [OF h] c]] assms(2) show ?thesis by (simp add: vec_end_pe_def)
  qed
  show "wp dg (vec_end_pe D) Q b" by (rule fin [OF assms(1)])
  note f = holds_frames [OF assms(1)]
  have "wp dg (for_each (\<lambda>i. to_pe D 1 (ed_vector_edit D b) (i * 1)) [0..<length xs]) (\<lambda>_. wp dg (vec_end_pe D) Q) b"
    by (rule to_pe_loop_wp [OF assms(1) bytes_spot [OF f]]) (simp_all add: fin)
  with fin [OF assms(1)] bytes_count [OF f, of "length xs"] show "wp dg (vec_end D 1) Q b"
    by (simp add: vec_end_def)
qed

lemma edited_vec_wp:
  assumes "holds st H b" "st \<noteq> []" "\<forall>e \<in> set es. vec_edit_ok 1 e"
    and "\<And>r b'. holds st (insert (r, FB_bytes (fold (vec_after 1) es [])) H) b' \<Longrightarrow> Q r b'"
  shows "wp dg (edited_vec D 1 A es) Q b"
proof -
  obtain b1 rc where c: "ed_start_vector D 1 A (count_max 1) b = (b1, rc)" by fastforce
  have "frames b = st" using assms(1) by (rule holds_frames)
  with start_bytes [OF _ _ c] assms(2) have rc: "rc = 0" and h: "holds (Bytes_frame 1 [] # st) H b1"
    using holds_steps [OF assms(1)] by auto
  have "wp dg (for_each (edit_vec D 1) es) (\<lambda>_ b2. wp dg (vec_end D 1) Q b2) b1"
  proof (rule for_each_wp [where I = "\<lambda>xs. 1 dvd length xs" and F = "Bytes_frame 1" and g = "vec_after 1", OF _ _ h])
    fix b2
    assume "holds (Bytes_frame 1 (fold (vec_after 1) es []) # st) H b2"
    from bytes_end_wp(1) [OF this assms(4)] show "wp dg (vec_end D 1) Q b2" .
  next
    fix e xs b2
    assume "e \<in> set es" "1 dvd length xs" "holds (Bytes_frame 1 xs # st) H b2"
    with assms(3)
    show "1 dvd length (vec_after 1 e xs) \<and> wp dg (edit_vec D 1 e) (\<lambda>_. holds (Bytes_frame 1 (vec_after 1 e xs) # st) H) b2"
      by (intro edit_vec_wp) simp_all
  qed simp
  with c rc show ?thesis by (simp add: edited_vec_def vec_start_def)
qed

text \<open>\<open>_vec_create\<close> makes the same vector in either byte order.\<close>

lemma copy_loop_wp:
  assumes "holds (Bytes_frame 1 (take k data @ replicate (m - k) 0) # st) H b" "spot b p = Some 0" "k \<le> m" "m \<le> length data"
    and "\<And>b'. holds (Bytes_frame 1 (take m data) # st) H b' \<Longrightarrow> Q () b'"
  shows "wp dg (for_each (\<lambda>i. copy_to_pe D 1 p (i * 1) data) [k..<m]) Q b"
  using assms(1-3)
proof (induction "m - k" arbitrary: k b)
  case 0
  then show ?case using assms(5) by simp
next
  case (Suc d)
  then have k: "k < m" "k < length data" using assms(4) by simp_all
  let ?xs = "take k data @ replicate (m - k) 0" and ?v = "take 1 (drop k data)"
  have l: "length ?v = 1" using k by simp
  have "overwrite k ?v ?xs = take k data @ ?v @ replicate (m - Suc k) 0"
    using k l by (simp add: overwrite_def)
  moreover have "take k data @ ?v = take (Suc k) data"
    using k(2) by (simp add: take_Suc_conv_app_nth flip: Cons_nth_drop_Suc)
  ultimately have o: "overwrite (0 + k) ?v ?xs = take (Suc k) data @ replicate (m - Suc k) 0" by simp
  have "wp dg (build_do (ed_write D p k ?v))
      (\<lambda>_. wp dg (for_each (\<lambda>i. copy_to_pe D 1 p (i * 1) data) [Suc k..<m]) Q) b"
  proof (rule write_bytes_wp [OF Suc.prems(1,2)])
    fix b'
    assume "holds (Bytes_frame 1 (overwrite (0 + k) ?v ?xs) # st) H b'" "spot b' = spot b"
    with o Suc.prems Suc.hyps(2) k show "wp dg (for_each (\<lambda>i. copy_to_pe D 1 p (i * 1) data) [Suc k..<m]) Q b'"
      by (intro Suc.hyps(1)) simp_all
  qed (use k l in simp)
  with k l show ?case by (simp add: upt_conv_Cons copy_to_pe_def block_def)
qed

lemma vec_create_wp:
  assumes "holds st H b" "st \<noteq> []" "n \<le> length data"
    and "\<And>r b'. holds st (insert (r, FB_bytes (take n data)) H) b' \<Longrightarrow> Q r b'"
  shows "wp dg (vec_create D 1 1 data n) Q b"
proof (cases "ed_native_pe D")
  case True
  have "wp dg (uint8_vec_create (ed_base D) (take n data)) Q b" by (rule bytes_wp [OF assms(1,2,4)])
  with True assms(3) show ?thesis by (simp add: vec_create_def vec_create_pe_def block_def uint8_vec_create_def)
next
  case False
  obtain b1 rc where c: "ed_start_vector D 1 1 (count_max 1) b = (b1, rc)" by fastforce
  have "frames b = st" using assms(1) by (rule holds_frames)
  with start_bytes [OF _ _ c] assms(2) have rc: "rc = 0" and h: "holds (Bytes_frame 1 [] # st) H b1"
    using holds_steps [OF assms(1)] by auto
  let ?rest = "\<lambda>p. case p of None \<Rightarrow> build_return 0
    | Some p \<Rightarrow> build_then (for_each (\<lambda>i. copy_to_pe D 1 p (i * 1) data) [0..<n]) (\<lambda>_. vec_end_pe D)"
  have "wp dg (build_call (ed_extend_vector D n)) (\<lambda>p. wp dg (?rest p) Q) b1"
  proof (rule vec_extend_wp [OF h])
    fix q b2
    assume h2: "holds (Bytes_frame 1 ([] @ replicate (1 * n) 0) # st) H b2" "spot b2 q = Some (length [])"
    have "wp dg (for_each (\<lambda>i. copy_to_pe D 1 q (i * 1) data) [0..<n]) (\<lambda>_. wp dg (vec_end_pe D) Q) b2"
      by (rule copy_loop_wp [where st = st and H = H], (use h2 assms(3) in \<open>simp; fail\<close>)+)
        (rule bytes_end_wp(2) [OF _ assms(4)])
    then show "wp dg (?rest (Some q)) Q b2" by simp
  qed
  with False c rc show ?thesis by (simp add: vec_create_def cong: option.case_cong)
qed

section \<open>Vectors of references\<close>

lemma refs_hold: "holds st H b \<Longrightarrow> \<forall>r \<in> set rs. (r, val r) \<in> H \<Longrightarrow> list_all2 (\<lambda>r x. object b r = Some x) rs (map val rs)"
  by (auto simp: holds_def list_all2_conv_all_nth)

lemma edit_refs_wp:
  assumes "\<forall>r \<in> refs_of e. (r, val r) \<in> H" "holds (Slots_frame xs # st) H b"
  shows "wp dg (edit_refs D e) (\<lambda>_ b'. holds (Slots_frame (refs_after val e xs) # st) H b') b"
proof -
  note f = holds_frames [OF assms(2)] and step = holds_steps [OF assms(2)]
  show ?thesis
  proof (cases e)
    case (Ref_push r)
    with assms(1) have r: "object b r = Some (val r)" "r \<noteq> 0" using holds_nonnull [OF assms(2)] by simp_all
    obtain b' res where c: "rt_offset_vector_push (ed_base D) r b = (b', res)" by fastforce
    with step [OF push_ref [OF f r(1) c]] r(2) Ref_push show ?thesis by (simp add: offset_vec_push_def)
  next
    case (Ref_append rs)
    obtain b' res where c: "ed_append_offset_vector D rs b = (b', res)" by fastforce
    with step [OF append_refs [OF f refs_hold [OF assms(2)] c]] Ref_append assms(1) show ?thesis
      by (simp add: offset_vec_append_def block_def comp_def)
  next
    case (Ref_extend n)
    obtain b' res where c: "ed_extend_offset_vector D n b = (b', res)" by fastforce
    with step [OF extend_refs [OF f c]] Ref_extend show ?thesis by (simp add: offset_vec_extend_def)
  next
    case (Ref_truncate n)
    obtain b' rc where c: "ed_truncate_offset_vector D n b = (b', rc)" by fastforce
    from truncate_refs [OF f c] step [of _ b'] f Ref_truncate c show ?thesis
      by (auto simp: offset_vec_truncate_def split: if_splits)
  next
    case (Ref_put i r)
    with assms(1) have r: "object b r = Some (val r)" using holds_nonnull [OF assms(2)] by simp
    show ?thesis
    proof (cases "i < length xs")
      case True
      with write_ref [OF f refs_spot [OF f], of i r "val r"] r step Ref_put refs_count [OF f] show ?thesis
        by (simp add: offset_vec_edit_def offset_vec_reserved_len_def)
    qed (use Ref_put assms(2) in
      \<open>simp add: offset_vec_edit_def offset_vec_reserved_len_def refs_count [OF f] list_update_beyond\<close>)
  qed
qed

lemma edited_refs_wp:
  assumes "holds st H b" "st \<noteq> []" "\<forall>e \<in> set es. \<forall>r \<in> refs_of e. (r, val r) \<in> H"
    and "fold (refs_after val) es [] = map Some ys"
    and "\<And>r b'. holds st (insert (r, FB_offsets ys) H) b' \<Longrightarrow> Q r b'"
  shows "wp dg (edited_refs D es) Q b"
  unfolding edited_refs_def wp_then
proof (rule vec_start_wp [OF assms(1,2)])
  fix b1
  assume h: "holds (Offsets_frame [] # st) H b1"
  then have "holds (Slots_frame [] # st) H b1" by simp
  moreover have "wp dg (offset_vec_end (ed_base D)) Q b2" if "holds (Slots_frame (fold (refs_after val) es []) # st) H b2" for b2
    using that unfolding assms(4) by (rule vec_end_wp) (rule assms(5))
  ultimately have "wp dg (for_each (edit_refs D) es) (\<lambda>_. wp dg (offset_vec_end (ed_base D)) Q) b1"
    using assms(3) edit_refs_wp
    by (intro for_each_wp [where I = "\<lambda>_. True" and F = Slots_frame and g = "refs_after val" and xs = "[]" and st = st and H = H])
      auto
  then show "wp dg (if (0 :: int) \<noteq> 0 then build_return 0
    else build_then (for_each (edit_refs D) es) (\<lambda>_. offset_vec_end (ed_base D))) Q b1" by simp
qed

end

end
