(* ===== verification/Fb_Members.thy ===== *)
theory Fb_Members
  imports Fb_Edit
begin

text \<open>
  Slices of a finished buffer and vectors of unions, a runtime that meets the contract \<open>flatcc_editing\<close>,
  and the properties of the macros of \<open>Fb_Open\<close>.
\<close>

section \<open>Reading the source\<close>

lemma slice_bounds_less: "slice_bounds (length s) i n = (j, m) \<Longrightarrow> j + m \<le> length s \<and> take m (drop j s) = take n (drop i s)"
  by (auto simp: slice_bounds_def Let_def split: if_splits)

lemma source_block_ok:
  assumes "bytes_at src p s" "i + n \<le> length s"
  shows "source_block src (Some (int p + int i)) n = Inr (take n (drop i s))"
proof -
  from assms(1) have "take n (drop i s) = take n (drop i (take (length s) (drop p src)))"
    by (simp add: bytes_at_def)
  also have "\<dots> = take n (drop (p + i) src)" using assms(2) by (simp add: drop_take min_def add.commute)
  finally have "take n (drop (p + i) src) = take n (drop i s)" ..
  moreover have "p + i + n \<le> length src" using assms by (simp add: bytes_at_def)
  ultimately show ?thesis by (auto simp: source_block_def source_bytes_def simp flip: of_nat_add)
qed

lemma string_parts:
  assumes "represents src q (FB_string s)"
  shows "vec_len src (Some (int (q + 4))) = Inr (length s)" "bytes_at src (q + 4) s"
  using assms by (auto elim!: rep_stringE simp: bytes_at_append vec_len_def u32_at_def)

lemma bytes_parts:
  assumes "represents src q (FB_bytes s)"
  shows "vec_len src (Some (int (q + 4))) = Inr (length s)" "bytes_at src (q + 4) s"
  using assms by (auto elim!: rep_bytesE simp: vec_len_def u32_at_def)

text \<open>A member of a vector of unions whose types are \<open>ts\<close>: the value of a member of type 0 is not read.\<close>

lemma union_member:
  assumes "represents src p (FB_bytes ts)" "i < length ts"
  shows "ts ! i = 0 \<Longrightarrow>
      union_vec_at src \<lparr>uv_type = Some (int (p + 4)), uv_value = v\<rparr> i = Inr \<lparr>u_type = 0, u_value = None\<rparr>"
    "ts ! i \<noteq> 0 \<Longrightarrow> generic_vec_at src v i = Inr w \<Longrightarrow>
      union_vec_at src \<lparr>uv_type = Some (int (p + 4)), uv_value = v\<rparr> i = Inr \<lparr>u_type = unat (ts ! i), u_value = w\<rparr>"
proof -
  note t = bytes_parts [OF assms(1)]
  have "bytes_at src (p + 4 + i) [ts ! i]"
  proof -
    from assms(2) have "ts = take i ts @ [ts ! i] @ drop (Suc i) ts" by (simp add: id_take_nth_drop)
    with t(2) assms(2) bytes_at_append [of src "p + 4" "take i ts" "[ts ! i] @ drop (Suc i) ts"]
      bytes_at_append [of src "p + 4 + i" "[ts ! i]" "drop (Suc i) ts"] show ?thesis by (simp add: min_def)
  qed
  then have "p + 4 + i + 1 \<le> length src" "take 1 (drop (p + 4 + i) src) = [ts ! i]" by (simp_all add: bytes_at_def)
  with read_le_in [of "p + 4 + i" 1 src]
  have r: "read_utype src (int (p + 4) + int i) = Inr (unat (ts ! i))" by (simp flip: of_nat_add)
  then show "ts ! i = 0 \<Longrightarrow>
      union_vec_at src \<lparr>uv_type = Some (int (p + 4)), uv_value = v\<rparr> i = Inr \<lparr>u_type = 0, u_value = None\<rparr>"
    "ts ! i \<noteq> 0 \<Longrightarrow> generic_vec_at src v i = Inr w \<Longrightarrow>
      union_vec_at src \<lparr>uv_type = Some (int (p + 4)), uv_value = v\<rparr> i = Inr \<lparr>u_type = unat (ts ! i), u_value = w\<rparr>"
    using t(1) assms(2) by (simp_all add: union_vec_at_def deref_def unat_eq_0 del: of_nat_add)
qed

text \<open>The first values of a vector are the bodies \<open>ms\<close>.\<close>

definition member_values :: "u8 list \<Rightarrow> ptr \<Rightarrow> response_body list \<Rightarrow> bool" where
  "member_values src v ms \<longleftrightarrow>
     (\<forall>i < length ms. \<exists>t. generic_vec_at src v i = Inr (Some (int t)) \<and> represents src t (body_obj (ms ! i)))"

lemma represented_values: "represents src q (FB_offsets (map body_obj ms)) \<Longrightarrow> member_values src (Some (int (q + 4))) ms"
  using offset_elements(2) [of src q "map body_obj ms"] by (auto simp: member_values_def generic_vec_at_def)

context flatcc_editing
begin

section \<open>Slices\<close>

lemma string_slice_wp:
  assumes "represents src q (FB_string s)" "holds st H b" "st \<noteq> []"
    and "\<And>r b'. holds st (insert (r, FB_string (take n (drop i s))) H) b' \<Longrightarrow> Q r b'"
  shows "wp dg (string_slice D src (Some (int (q + 4))) i n) Q b"
proof -
  obtain j m where jm: "slice_bounds (length s) i n = (j, m)" by fastforce
  note less = slice_bounds_less [OF jm]
  obtain b' r where c: "cl_create_string (ed_cloning D) (take n (drop i s)) b = (b', r)" by fastforce
  have "frames b \<noteq> []" "frames b = st" using assms(2,3) by (simp_all add: holds_def)
  with copy_string [OF this(1) c] holds_step [OF assms(2), of b' st] have "Q r b'"
    by (intro assms(4)) (simp add: holds_insert)
  with c less string_parts(1) [OF assms(1)] source_block_ok [OF string_parts(2) [OF assms(1)], of j m] show ?thesis
    by (simp add: string_slice_def string_len_def jm del: of_nat_add)
qed

lemma vec_slice_wp:
  assumes "represents src q (FB_bytes s)" "holds st H b" "st \<noteq> []"
    and "\<And>r b'. holds st (insert (r, FB_bytes (take n (drop i s))) H) b' \<Longrightarrow> Q r b'"
  shows "wp dg (vec_slice D src 1 1 (Some (int (q + 4))) i n) Q b"
proof -
  obtain j m where jm: "slice_bounds (length s) i n = (j, m)" by fastforce
  note less = slice_bounds_less [OF jm]
  have "wp dg (uint8_vec_create (ed_base D) (take n (drop i s))) Q b" by (rule bytes_wp [OF assms(2-4)])
  with less bytes_parts(1) [OF assms(1)] source_block_ok [OF bytes_parts(2) [OF assms(1)], of j m] show ?thesis
    by (simp add: vec_slice_def uint8_vec_create_def jm del: of_nat_add)
qed

section \<open>Vectors of unions\<close>

lemma clone_values_wp:
  assumes "holds (Offsets_frame ys # st) H b"
    and "\<And>i. i \<in> set is \<Longrightarrow> \<exists>u. at i = Inr u \<and> (\<forall>dg st H b Q. holds st H b \<longrightarrow> st \<noteq> [] \<longrightarrow>
      (\<forall>r b'. holds st (insert (r, g i) H) b' \<longrightarrow> Q (t i, r) b') \<longrightarrow> wp dg (cl u) Q b)"
    and "\<And>b'. holds (Offsets_frame (ys @ map g is) # st) H b' \<Longrightarrow> wp dg (clone_values D at cl js) Q b'"
  shows "wp dg (clone_values D at cl (is @ js)) Q b"
  using assms
proof (induction "is" arbitrary: ys b)
  case (Cons i "is")
  from Cons.prems(2) [of i] obtain u where u: "at i = Inr u"
    "\<And>dg st H b Q. holds st H b \<Longrightarrow> st \<noteq> [] \<Longrightarrow> (\<forall>r b'. holds st (insert (r, g i) H) b' \<longrightarrow> Q (t i, r) b') \<Longrightarrow> wp dg (cl u) Q b"
    by auto
  let ?rest = "\<lambda>uref. if snd uref = 0 then build_return False
    else build_then (build_call (rt_offset_vector_push (ed_base D) (snd uref))) (\<lambda>slot.
      if slot = None then build_return False else clone_values D at cl (is @ js))"
  have "wp dg (cl u) (\<lambda>uref. wp dg (?rest uref) Q) b"
  proof (rule u(2) [OF Cons.prems(1)], simp, intro allI impI)
    fix e b'
    assume h: "holds (Offsets_frame ys # st) (insert (e, g i) H) b'"
    have e: "object b' e = Some (g i)" "e \<noteq> 0" using holds_nonnull [OF h insertI1] by simp_all
    obtain b2 res where c: "rt_offset_vector_push (ed_base D) e b' = (b2, res)" by fastforce
    have f: "frames b' = Offsets_frame ys # st" using h by (simp add: holds_def)
    from push [OF f e(1) c] have "res \<noteq> None" "holds (Offsets_frame (ys @ [g i]) # st) H b2"
      using holds_less [OF holds_step [OF h, of b2] subset_insertI] by auto
    moreover have "wp dg (clone_values D at cl (is @ js)) Q b2"
      by (rule Cons.IH [OF calculation(2)]) (use Cons.prems(2,3) in auto)
    ultimately show "wp dg (?rest (t i, e)) Q b'" using e(2) c by auto
  qed
  with u(1) show ?case by simp
qed simp

text \<open>The bodies \<open>ms\<close> stand first in a vector of unions of the source.\<close>

lemma union_body:
  assumes "represents src p (FB_bytes (map (\<lambda>m. of_nat (body_type m)) ms @ ts))" "member_values src v ms" "i < length ms"
  shows "\<exists>u. union_vec_at src \<lparr>uv_type = Some (int (p + 4)), uv_value = v\<rparr> i = Inr u \<and>
    (\<forall>dg st H b Q. holds st H b \<longrightarrow> st \<noteq> [] \<longrightarrow>
      (\<forall>r b'. holds st (insert (r, copied_body (ms ! i)) H) b' \<longrightarrow> Q (body_type (ms ! i), r) b') \<longrightarrow>
      wp dg (Response_MessageType_clone (ed_cloning D) src u) Q b)"
proof -
  have t: "unat (of_nat (body_type (ms ! i)) :: u8) = body_type (ms ! i)"
    using body_type_range(2) [of "ms ! i"] by (simp add: unat_of_nat)
  then have "(of_nat (body_type (ms ! i)) :: u8) \<noteq> 0" using body_type_range(1) [of "ms ! i"] by (metis unat_0 less_irrefl)
  moreover from assms(2,3) obtain k where
    k: "generic_vec_at src v i = Inr (Some (int k))" "represents src k (body_obj (ms ! i))" by (auto simp: member_values_def)
  ultimately have "union_vec_at src \<lparr>uv_type = Some (int (p + 4)), uv_value = v\<rparr> i =
      Inr \<lparr>u_type = body_type (ms ! i), u_value = Some (int k)\<rparr>"
    using union_member(2) [OF assms(1), of i v] assms(3) t by (simp add: nth_append del: of_nat_add)
  with clones_body k(2) show ?thesis by blast
qed

text \<open>The first part of a clone: the types are copied, the values are begun.\<close>

lemma union_clone_types_wp:
  fixes v :: ptr
  assumes "represents src p (FB_bytes ts)" "holds st H b" "st \<noteq> []"
  defines "uv \<equiv> \<lparr>uv_type = Some (int (p + 4)), uv_value = v\<rparr>"
  assumes "\<And>t b'. holds (Offsets_frame [] # st) (insert (t, FB_bytes ts) H) b' \<Longrightarrow> t \<noteq> 0 \<Longrightarrow>
    wp dg (clone_values D (union_vec_at src uv) cl [0..<length ts]) (\<lambda>all b2.
      if all then wp dg (offset_vec_end (ed_base D)) (\<lambda>v. Q (if v = 0 then (0, 0) else (t, v))) b2 else Q (0, 0) b2) b'"
  shows "wp dg (union_vec_clone D src cl uv) Q b"
proof -
  obtain b1 t where c: "ed_create_type_vector D ts b = (b1, t)" by fastforce
  have "frames b = st" using assms(2) by (rule holds_frames)
  with holds_new [OF assms(2), of st b1 t "FB_bytes ts"] create_types [OF _ c] assms(3)
  have h: "holds st (insert (t, FB_bytes ts) H) b1" by simp
  from holds_nonnull [OF this insertI1] have t: "t \<noteq> 0" by simp
  have block: "source_block src (Some (int (p + 4))) (length ts) = Inr ts"
    using source_block_ok [OF bytes_parts(2) [OF assms(1)], of 0 "length ts"] by simp
  have "wp dg (offset_vec_start (ed_base D)) (\<lambda>rc b'. rc = 0 \<and> holds (Offsets_frame [] # st) (insert (t, FB_bytes ts) H) b') b1"
    by (rule vec_start_wp [OF h assms(3)]) simp
  then obtain b2 where b2: "rt_start_offset_vector (ed_base D) b1 = (b2, 0)"
    "holds (Offsets_frame [] # st) (insert (t, FB_bytes ts) H) b2" by (auto simp: offset_vec_start_def split: prod.splits)
  from assms(5) [OF b2(2) t] have "wp dg (clone_values D (union_vec_at src uv) cl [0..<length ts])
    (\<lambda>all b3. wp dg (if all then memoize_end (ed_cloning D) (uv_value uv) (build_call (rt_end_offset_vector (ed_base D))) else build_return 0)
      (\<lambda>v. wp dg (if v = 0 then build_return (0, 0) else build_return (t, v)) Q) b3) b2"
    by (rule wp_mono) (auto simp: offset_vec_end_def split: prod.splits)
  note this [unfolded uv_def]
  with c t b2(1) bytes_parts(1) [OF assms(1)] block show ?thesis
    by (simp add: union_vec_clone_def union_values_clone_def uv_def no_refmap union_vec_len_def del: of_nat_add)
qed

lemma union_vec_clone_wp:
  assumes "represents src p (FB_bytes (map (\<lambda>m. of_nat (body_type m)) ms))" "member_values src v ms"
    and "holds st H b" "st \<noteq> []"
    and "\<And>t r b'. holds st (insert (r, FB_offsets (map copied_body ms))
      (insert (t, FB_bytes (map (\<lambda>m. of_nat (body_type m)) ms)) H)) b' \<Longrightarrow> Q (t, r) b'"
  shows "wp dg (union_vec_clone D src (Response_MessageType_clone (ed_cloning D) src)
    \<lparr>uv_type = Some (int (p + 4)), uv_value = v\<rparr>) Q b"
proof (rule union_clone_types_wp [OF assms(1,3,4)])
  let ?uv = "\<lparr>uv_type = Some (int (p + 4)), uv_value = v\<rparr>"
    and ?ts = "map (\<lambda>m. of_nat (body_type m)) ms :: u8 list" and ?cl = "Response_MessageType_clone (ed_cloning D) src"
  fix t b'
  assume h: "holds (Offsets_frame [] # st) (insert (t, FB_bytes ?ts) H) b'" "t \<noteq> 0"
  let ?R = "\<lambda>all b2. if all then wp dg (offset_vec_end (ed_base D)) (\<lambda>v. Q (if v = 0 then (0, 0) else (t, v))) b2 else Q (0, 0) b2"
  have "wp dg (clone_values D (union_vec_at src ?uv) ?cl ([0..<length ms] @ [])) ?R b'"
  proof (rule clone_values_wp [OF h(1), where g = "\<lambda>i. copied_body (ms ! i)" and t = "\<lambda>i. body_type (ms ! i)"])
    fix b2
    assume "holds (Offsets_frame ([] @ map (\<lambda>i. copied_body (ms ! i)) [0..<length ms]) # st) (insert (t, FB_bytes ?ts) H) b2"
    then have h2: "holds (Offsets_frame (map copied_body ms) # st) (insert (t, FB_bytes ?ts) H) b2"
      by (simp add: map_nth flip: map_map [of copied_body "(!) ms", unfolded comp_def])
    have "wp dg (offset_vec_end (ed_base D)) (\<lambda>v. Q (if v = 0 then (0, 0) else (t, v))) b2"
    proof (rule vec_end_wp [OF h2])
      fix v b3
      assume h3: "holds st (insert (v, FB_offsets (map copied_body ms)) (insert (t, FB_bytes ?ts) H)) b3"
      with holds_nonnull [OF h3 insertI1] assms(5) show "Q (if v = 0 then (0, 0) else (t, v)) b3" by simp
    qed
    then show "wp dg (clone_values D (union_vec_at src ?uv) ?cl []) ?R b2" by simp
  next
    fix i
    assume "i \<in> set [0..<length ms]"
    then show "\<exists>u. union_vec_at src ?uv i = Inr u \<and> (\<forall>dg st H b Q. holds st H b \<longrightarrow> st \<noteq> [] \<longrightarrow>
        (\<forall>r b'. holds st (insert (r, copied_body (ms ! i)) H) b' \<longrightarrow> Q (body_type (ms ! i), r) b') \<longrightarrow> wp dg (?cl u) Q b)"
      using union_body [of src p ms "[]" v i] assms(1,2) by simp
  qed
  then show "wp dg (clone_values D (union_vec_at src ?uv) ?cl [0..<length ?ts]) ?R b'" by simp
qed

text \<open>A member without a value ends the clone with two null references, and the vector of values stays open.\<close>

lemma union_vec_clone_none_wp:
  assumes "represents src p (FB_bytes (map (\<lambda>m. of_nat (body_type m)) ms @ 0 # ts))"
    and "member_values src v ms" "holds st H b" "st \<noteq> []"
    and "\<And>b'. frames b' = Offsets_frame (map copied_body ms) # st \<Longrightarrow> object b \<subseteq>\<^sub>m object b' \<Longrightarrow> Q (0, 0) b'"
  shows "wp dg (union_vec_clone D src (Response_MessageType_clone (ed_cloning D) src)
    \<lparr>uv_type = Some (int (p + 4)), uv_value = v\<rparr>) Q b"
proof -
  define H' where "H' = {(r, y). object b r = Some y}"
  have "holds st H' b" using holds_frames [OF assms(3)] by (auto simp: holds_def H'_def)
  note H' = this and mono = map_le_def dom_def
  show ?thesis
  proof (rule union_clone_types_wp [OF assms(1) H' assms(4)])
    let ?uv = "\<lparr>uv_type = Some (int (p + 4)), uv_value = v\<rparr>"
      and ?ts = "map (\<lambda>m. of_nat (body_type m)) ms @ 0 # ts" and ?cl = "Response_MessageType_clone (ed_cloning D) src"
    fix t b'
    assume h: "holds (Offsets_frame [] # st) (insert (t, FB_bytes ?ts) H') b'" "t \<noteq> 0"
    let ?R = "\<lambda>all b2. if all then wp dg (offset_vec_end (ed_base D)) (\<lambda>v. Q (if v = 0 then (0, 0) else (t, v))) b2 else Q (0, 0) b2"
    have none: "union_vec_at src ?uv (length ms) = Inr \<lparr>u_type = 0, u_value = None\<rparr>"
      using union_member(1) [OF assms(1), of "length ms"] by (simp add: nth_append del: of_nat_add)
    have "wp dg (clone_values D (union_vec_at src ?uv) ?cl ([0..<length ms] @ [length ms..<length ?ts])) ?R b'"
    proof (rule clone_values_wp [OF h(1), where g = "\<lambda>i. copied_body (ms ! i)" and t = "\<lambda>i. body_type (ms ! i)"])
      fix b2
      assume "holds (Offsets_frame ([] @ map (\<lambda>i. copied_body (ms ! i)) [0..<length ms]) # st) (insert (t, FB_bytes ?ts) H') b2"
      then have h2: "holds (Offsets_frame (map copied_body ms) # st) (insert (t, FB_bytes ?ts) H') b2"
        by (simp add: map_nth flip: map_map [of copied_body "(!) ms", unfolded comp_def])
      have "object b \<subseteq>\<^sub>m object b2" using h2 by (auto simp: holds_def H'_def map_le_def dom_def)
      moreover have "[length ms..<length ?ts] = length ms # [Suc (length ms)..<length ?ts]"
        by (rule upt_conv_Cons) simp
      ultimately show "wp dg (clone_values D (union_vec_at src ?uv) ?cl [length ms..<length ?ts]) ?R b2"
        using assms(5) h2 none
        by (simp add: Response_MessageType_clone_def Response_MessageType_as_NONE_def holds_def del: of_nat_add upt_Suc)
    next
      fix i
      assume "i \<in> set [0..<length ms]"
      then show "\<exists>u. union_vec_at src ?uv i = Inr u \<and> (\<forall>dg st H b Q. holds st H b \<longrightarrow> st \<noteq> [] \<longrightarrow>
          (\<forall>r b'. holds st (insert (r, copied_body (ms ! i)) H) b' \<longrightarrow> Q (body_type (ms ! i), r) b') \<longrightarrow> wp dg (?cl u) Q b)"
        using union_body [OF assms(1,2), of i] by simp
    qed
    moreover have "[0..<length ms] @ [length ms..<length ?ts] = [0..<length ?ts]"
      using upt_add_eq_append [of 0 "length ms" "Suc (length ts)"] by simp
    ultimately show "wp dg (clone_values D (union_vec_at src ?uv) ?cl [0..<length ?ts]) ?R b'" by (simp only:)
  qed
qed

text \<open>A vector of unions pushed member by member.\<close>

lemma push_members_wp:
  assumes "holds (Unions_frame ws # st) H b" "\<forall>(t, r, x) \<in> set us. 0 < t \<and> t < 256 \<and> (r, x) \<in> H"
    and "\<And>b'. holds (Unions_frame (ws @ map (\<lambda>(t, r, x). (t, Some x)) us) # st) H b' \<Longrightarrow> Q () b'"
  shows "wp dg (for_each (\<lambda>(t, r, x). build_then (union_vec_push D (t, r)) (\<lambda>_. build_return ())) us) Q b"
proof (rule for_each_wp [where I = "\<lambda>_. True" and F = Unions_frame and xs = ws and st = st and H = H
      and g = "\<lambda>(t, r, x) ws. ws @ [(t, Some x)]"])
  fix u ws b
  assume "u \<in> set us" and h: "holds (Unions_frame ws # st) H b"
  with assms(2) obtain t r x where u: "u = (t, r, x)" "0 < t" "t < 256" "(r, x) \<in> H" by (cases u) auto
  obtain b' res where c: "ed_union_vector_push D (t, r) b = (b', res)" by fastforce
  from push_union [OF holds_frames [OF h] _ u(2,3) c] holds_nonnull [OF h u(4)] holds_steps [OF h] c u(1)
  show "True \<and> wp dg (case u of (t, r, x) \<Rightarrow> build_then (union_vec_push D (t, r)) (\<lambda>_. build_return ()))
      (\<lambda>_ b'. holds (Unions_frame ((case u of (t, r, x) \<Rightarrow> \<lambda>ws. ws @ [(t, Some x)]) ws) # st) H b') b"
    by (simp add: union_vec_push_def)
next
  fix b'
  have "fold (\<lambda>(t, r, x) ws. ws @ [(t, Some x)]) us ws = ws @ map (\<lambda>(t, r, x). (t, Some x)) us" for ws
    by (induction us arbitrary: ws) auto
  then show "holds (Unions_frame (fold (\<lambda>(t, r, x) ws. ws @ [(t, Some x)]) us ws) # st) H b' \<Longrightarrow> Q () b'"
    using assms(3) by simp
qed (use assms(1) in simp_all)

lemma union_vec_built_wp:
  assumes "holds st H b" "st \<noteq> []" "\<forall>(t, r, x) \<in> set us. 0 < t \<and> t < 256 \<and> (r, x) \<in> H"
    and "\<And>t v b'. holds st (insert (v, FB_offsets (map (\<lambda>(t, r, x). x) us))
      (insert (t, FB_bytes (map (\<lambda>(t, r, x). of_nat t) us)) H)) b' \<Longrightarrow> Q (t, v) b'"
  shows "wp dg (build_then (union_vec_start D) (\<lambda>_.
    build_then (for_each (\<lambda>(t, r, x). build_then (union_vec_push D (t, r)) (\<lambda>_. build_return ())) us) (\<lambda>_.
    union_vec_end D))) Q b"
proof -
  obtain b1 rc where c: "ed_start_union_vector D b = (b1, rc)" by fastforce
  have "frames b = st" using assms(1) by (rule holds_frames)
  with start_unions [OF _ c] assms(2) holds_steps [OF assms(1)] have h: "holds (Unions_frame [] # st) H b1" by auto
  let ?us = "map (\<lambda>(t, r, x). (t, x)) us"
  have "wp dg (for_each (\<lambda>(t, r, x). build_then (union_vec_push D (t, r)) (\<lambda>_. build_return ())) us) (\<lambda>_. wp dg (union_vec_end D) Q) b1"
  proof (rule push_members_wp [OF h assms(3)])
    fix b2
    assume "holds (Unions_frame ([] @ map (\<lambda>(t, r, x). (t, Some x)) us) # st) H b2"
    then have h2: "holds (Unions_frame (map (\<lambda>(t, x). (t, Some x)) ?us) # st) H b2"
      by (simp add: comp_def case_prod_unfold)
    obtain b3 t v where e: "ed_end_union_vector D b2 = (b3, t, v)" using prod_cases3 by blast
    from end_unions [OF holds_frames [OF h2] e] holds_steps [OF h2]
    have "holds st (insert (v, FB_offsets (map (\<lambda>(t, r, x). x) us))
      (insert (t, FB_bytes (map (\<lambda>(t, r, x). of_nat t) us)) H)) b3"
      by (simp add: holds_insert comp_def case_prod_unfold)
    with assms(4) e show "wp dg (union_vec_end D) Q b2" by (simp add: union_vec_end_def)
  qed
  with c show ?thesis by (simp add: union_vec_start_def)
qed

section \<open>Fields\<close>

text \<open>A call that makes an object, then the \<open>_add\<close> of a field.\<close>

lemma field_wp:
  assumes "\<And>Q. (\<And>r b'. holds (Table_frame n fs # st) (insert (r, x) H) b' \<Longrightarrow> Q r b') \<Longrightarrow> wp dg m Q b"
    and "ID < n" "ID \<notin> fst ` set fs" and "\<And>b'. holds (Table_frame n (fs @ [(ID, FB_ref x)]) # st) H b' \<Longrightarrow> Q 0 b'"
  shows "wp dg (build_then m (offset_add (ed_base D) ID)) Q b"
  unfolding wp_then
proof (rule assms(1))
  fix r b'
  assume h: "holds (Table_frame n fs # st) (insert (r, x) H) b'"
  show "wp dg (offset_add (ed_base D) ID r) Q b'"
    by (rule offset_add_wp [OF h insertI1 assms(2,3)]) (rule assms(4), erule holds_less, blast)
qed

lemma string_create_wp:
  assumes "holds st H b" "st \<noteq> []" "k \<le> length v" and "\<And>r b'. holds st (insert (r, FB_string (take k v)) H) b' \<Longrightarrow> Q r b'"
  shows "wp dg (string_create D v k) Q b"
proof -
  obtain b' r where c: "cl_create_string (ed_cloning D) (take k v) b = (b', r)" by fastforce
  have "frames b \<noteq> []" "frames b = st" using assms(1,2) by (simp_all add: holds_def)
  with copy_string [OF this(1) c] holds_step [OF assms(1), of b' st] have "Q r b'"
    by (intro assms(4)) (simp add: holds_insert)
  with c assms(3) show ?thesis by (simp add: string_create_def block_def)
qed

lemma string_create_strn_wp:
  assumes "holds st H b" "st \<noteq> []" "cstr t" and "\<And>r b'. holds st (insert (r, FB_string (text_bytes (take k t))) H) b' \<Longrightarrow> Q r b'"
  shows "wp dg (string_create_strn D t k) Q b"
proof -
  obtain b' r where c: "ed_create_string_strn D t k b = (b', r)" by fastforce
  have "frames b = st" using assms(1) by (rule holds_frames)
  with create_strn [OF _ assms(3) c] holds_new [OF assms(1)] assms(2,4) c show ?thesis
    by (simp add: string_create_strn_def)
qed

lemma offset_vec_create_wp:
  assumes "holds st H b" "st \<noteq> []" "\<forall>r \<in> set rs. (r, val r) \<in> H"
    and "\<And>r b'. holds st (insert (r, FB_offsets (map val rs)) H) b' \<Longrightarrow> Q r b'"
  shows "wp dg (offset_vec_create D rs (length rs)) Q b"
proof -
  obtain b' r where c: "ed_create_offset_vector D rs b = (b', r)" by fastforce
  have "frames b = st" using assms(1) by (rule holds_frames)
  with create_refs [OF _ refs_hold [OF assms(1,3)] c] holds_new [OF assms(1)] assms(2,4) c show ?thesis
    by (simp add: offset_vec_create_def block_def)
qed

text \<open>The ways to fill a string field.\<close>

lemma string_fields_wp:
  assumes "holds (Table_frame n fs # st) H b" "ID < n" "ID \<notin> fst ` set fs"
    and "\<And>b'. holds (Table_frame n (fs @ [(ID, FB_ref (FB_string s))]) # st) H b' \<Longrightarrow> Q 0 b'"
  shows "k \<le> length v \<Longrightarrow> s = take k v \<Longrightarrow> wp dg (string_field_create D (offset_add (ed_base D) ID) v k) Q b"
    "cstr t \<Longrightarrow> s = text_bytes t \<Longrightarrow> wp dg (string_field_create_str D (offset_add (ed_base D) ID) t) Q b"
    "cstr t \<Longrightarrow> s = text_bytes (take k t) \<Longrightarrow> wp dg (string_field_create_strn D (offset_add (ed_base D) ID) t k) Q b"
    "represents src q (FB_string u) \<Longrightarrow> s = take k (drop i u) \<Longrightarrow>
      wp dg (string_field_slice D (offset_add (ed_base D) ID) src (Some (int (q + 4))) i k) Q b"
    "represents src q (FB_string s) \<Longrightarrow>
      wp dg (string_field_clone D (offset_add (ed_base D) ID) src (Some (int (q + 4)))) Q b"
proof -
  note field = field_wp [where n = n and fs = fs and st = st and H = H and x = "FB_string s" and Q = Q and b = b,
      OF _ assms(2,3)]
  show "wp dg (string_field_create D (offset_add (ed_base D) ID) v k) Q b" if "k \<le> length v" "s = take k v"
    unfolding string_field_create_def by (rule field, rule string_create_wp [OF assms(1)]) (use that assms(4) in simp_all)
  show "wp dg (string_field_create_str D (offset_add (ed_base D) ID) t) Q b" if "cstr t" "s = text_bytes t"
    unfolding string_field_create_str_def by (rule field, rule string_wp [OF assms(1)]) (use that assms(4) in simp_all)
  show "wp dg (string_field_create_strn D (offset_add (ed_base D) ID) t k) Q b" if "cstr t" "s = text_bytes (take k t)"
    unfolding string_field_create_strn_def
    by (rule field, rule string_create_strn_wp [OF assms(1)]) (use that assms(4) in simp_all)
  show "wp dg (string_field_slice D (offset_add (ed_base D) ID) src (Some (int (q + 4))) i k) Q b"
    if "represents src q (FB_string u)" "s = take k (drop i u)"
    unfolding string_field_slice_def
    by (rule field, rule string_slice_wp [OF that(1) assms(1)]) (use that assms(4) in simp_all)
  show "wp dg (string_field_clone D (offset_add (ed_base D) ID) src (Some (int (q + 4)))) Q b"
    if "represents src q (FB_string s)"
    unfolding string_field_clone_def
    by (rule field, rule clones_wp [OF clones_string that assms(1)]) (use assms(4) in simp_all)
qed

end

section \<open>The operations over the list runtime\<close>

text \<open>A pointer into an open string or vector is the index of a byte or an element.\<close>

fun frame_size :: "frame \<Rightarrow> nat" where
  "frame_size (Text_frame s) = length s"
| "frame_size (Bytes_frame S bs) = length bs"
| "frame_size (Slots_frame xs) = length xs"
| "frame_size (Unions_frame us) = length us"
| "frame_size _ = 0"

definition bs_top :: "builder_state \<Rightarrow> frame" where
  "bs_top b = (case bs_frames b of f # _ \<Rightarrow> f | [] \<Rightarrow> Buffer_frame)"

definition bs_replace :: "frame \<Rightarrow> builder_state \<Rightarrow> builder_state" where
  "bs_replace f b = b\<lparr>bs_frames := f # tl (bs_frames b)\<rparr>"

fun grow_bytes :: "u8 list \<Rightarrow> frame \<Rightarrow> frame" where
  "grow_bytes v (Text_frame s) = Text_frame (s @ v)"
| "grow_bytes v (Bytes_frame S bs) = Bytes_frame S (bs @ v)"
| "grow_bytes v f = f"

fun grow_slots :: "fb_obj option list \<Rightarrow> frame \<Rightarrow> frame" where
  "grow_slots ys (Slots_frame xs) = Slots_frame (xs @ ys)"
| "grow_slots ys f = f"

fun grow_unions :: "(nat \<times> fb_obj option) list \<Rightarrow> frame \<Rightarrow> frame" where
  "grow_unions vs (Unions_frame us) = Unions_frame (us @ vs)"
| "grow_unions vs f = f"

fun shorten_frame :: "nat \<Rightarrow> frame \<Rightarrow> frame" where
  "shorten_frame n (Text_frame s) = Text_frame (shorten n s)"
| "shorten_frame n (Bytes_frame S bs) = Bytes_frame S (shorten n bs)"
| "shorten_frame n (Slots_frame xs) = Slots_frame (shorten n xs)"
| "shorten_frame n (Unions_frame us) = Unions_frame (shorten n us)"
| "shorten_frame n f = f"

fun write_frame :: "nat \<Rightarrow> u8 list \<Rightarrow> frame \<Rightarrow> frame" where
  "write_frame k v (Text_frame s) = Text_frame (overwrite k v s)"
| "write_frame k v (Bytes_frame S bs) = Bytes_frame S (overwrite k v bs)"
| "write_frame k v f = f"

fun set_slot :: "nat \<Rightarrow> fb_obj option \<Rightarrow> frame \<Rightarrow> frame" where
  "set_slot i x (Slots_frame xs) = Slots_frame (xs[i := x])"
| "set_slot i x f = f"

fun frame_bytes :: "frame \<Rightarrow> u8 list" where
  "frame_bytes (Text_frame s) = s"
| "frame_bytes (Bytes_frame S bs) = bs"
| "frame_bytes f = []"

fun frame_unions :: "frame \<Rightarrow> (nat \<times> fb_obj option) list" where
  "frame_unions (Unions_frame us) = us"
| "frame_unions f = []"

fun elem_size :: "frame \<Rightarrow> nat" where
  "elem_size (Bytes_frame S bs) = S"
| "elem_size f = 1"

definition bs_grow :: "(frame \<Rightarrow> frame) \<Rightarrow> builder_state \<Rightarrow> builder_state \<times> nat option" where
  "bs_grow g b = (bs_replace (g (bs_top b)) b, Some (frame_size (bs_top b)))"

definition bs_shorten :: "nat \<Rightarrow> builder_state \<Rightarrow> builder_state \<times> int" where
  "bs_shorten n b =
     (if n \<le> frame_size (bs_top b) then (bs_replace (shorten_frame n (bs_top b)) b, 0) else (b, - 1))"

definition bs_unions :: "(nat \<times> fb_obj option) list \<Rightarrow> builder_state \<Rightarrow> builder_state \<times> nat \<times> nat" where
  "bs_unions us b =
     (let (b, t) = bs_new (FB_bytes (map (\<lambda>u. of_nat (fst u)) us)) b;
          (b, v) = bs_new (FB_offsets (map (\<lambda>u. the (snd u)) us)) b
      in (b, t, v))"

definition list_editing :: "bool \<Rightarrow> builder_state editing_runtime" where
  "list_editing native =
     \<lparr>ed_cloning = list_cloning,
      ed_native_pe = native,
      ed_read = (\<lambda>p k n b. take n (drop (p + k) (frame_bytes (bs_top b)))),
      ed_write = (\<lambda>p k v b. bs_replace (write_frame (p + k) v (bs_top b)) b),
      ed_write_ref = (\<lambda>p i r b. bs_replace (set_slot (p + i) (bs_object b r) (bs_top b)) b),
      ed_start_buffer = (\<lambda>fid al fl b. (bs_push (if fl = 2 then Sized_frame else Buffer_frame) b, 0)),
      ed_start_vector = (\<lambda>S A m b. (bs_push (Bytes_frame S []) b, 0)),
      ed_extend_vector = (\<lambda>n b. bs_grow (grow_bytes (replicate (elem_size (bs_top b) * n) 0)) b),
      ed_append_vector = (\<lambda>v n. bs_grow (grow_bytes v)),
      ed_truncate_vector = (\<lambda>n b. bs_shorten (elem_size (bs_top b) * n) b),
      ed_vector_edit = (\<lambda>b. 0),
      ed_vector_count = (\<lambda>b. frame_size (bs_top b) div elem_size (bs_top b)),
      ed_end_vector = (\<lambda>b. bs_new (FB_bytes (frame_bytes (bs_top b))) (bs_pop b)),
      ed_create_offset_vector = (\<lambda>rs b. bs_new (FB_offsets (map (\<lambda>r. the (bs_object b r)) rs)) b),
      ed_extend_offset_vector = (\<lambda>n. bs_grow (grow_slots (replicate n None))),
      ed_append_offset_vector = (\<lambda>rs b. bs_grow (grow_slots (map (bs_object b) rs)) b),
      ed_truncate_offset_vector = bs_shorten,
      ed_offset_vector_edit = (\<lambda>b. 0),
      ed_offset_vector_count = (\<lambda>b. frame_size (bs_top b)),
      ed_start_union_vector = (\<lambda>b. (bs_push (Unions_frame []) b, 0)),
      ed_end_union_vector = (\<lambda>b. bs_unions (frame_unions (bs_top b)) (bs_pop b)),
      ed_create_union_vector = (\<lambda>us b. bs_unions (map (\<lambda>(t, r). (t, bs_object b r)) us) b),
      ed_create_type_vector = (\<lambda>ts. bs_new (FB_bytes ts)),
      ed_extend_union_vector = (\<lambda>n. bs_grow (grow_unions (replicate n (0, None)))),
      ed_append_union_vector = (\<lambda>us b. bs_grow (grow_unions (map (\<lambda>(t, r). (t, bs_object b r)) us)) b),
      ed_truncate_union_vector = bs_shorten,
      ed_union_vector_edit = (\<lambda>b. 0),
      ed_union_vector_count = (\<lambda>b. frame_size (bs_top b)),
      ed_union_vector_push = (\<lambda>(t, r) b. bs_grow (grow_unions [(t, bs_object b r)]) b),
      ed_start_string = (\<lambda>b. (bs_push (Text_frame []) b, 0)),
      ed_end_string = (\<lambda>b. bs_new (FB_string (frame_bytes (bs_top b))) (bs_pop b)),
      ed_create_string_strn = (\<lambda>s n. bs_new (FB_string (text_bytes (take n s)))),
      ed_append_string = (\<lambda>v. bs_grow (grow_bytes v)),
      ed_append_string_str = (\<lambda>s. bs_grow (grow_bytes (text_bytes s))),
      ed_append_string_strn = (\<lambda>s n. bs_grow (grow_bytes (text_bytes (take n s)))),
      ed_extend_string = (\<lambda>n. bs_grow (grow_bytes (replicate n 0))),
      ed_truncate_string = bs_shorten,
      ed_string_edit = (\<lambda>b. 0),
      ed_string_len = (\<lambda>b. frame_size (bs_top b))\<rparr>"

lemma list_editing_cloning [simp]: "ed_cloning (list_editing native) = list_cloning"
  by (simp add: list_editing_def)

lemmas list_editing_defs = list_editing_def bs_grow_def bs_shorten_def bs_top_def bs_replace_def bs_push_def bs_pop_def bs_new_def
  bs_unions_def steps_to_def

lemma bs_object_frames [simp]: "bs_object (b\<lparr>bs_frames := st\<rparr>) = bs_object b"
  by (simp add: fun_eq_iff bs_object_def)

lemma held_refs: "list_all2 (\<lambda>r x. bs_object b r = Some x) rs ys \<Longrightarrow> map (bs_object b) rs = map Some ys"
  by (simp add: list_all2_conv_all_nth list_eq_iff_nth_eq)

lemma held_values: "list_all2 (\<lambda>r x. bs_object b r = Some x) rs ys \<Longrightarrow> map (\<lambda>r. the (bs_object b r)) rs = ys"
  by (simp add: list_all2_conv_all_nth list_eq_iff_nth_eq)

lemma runtime_cloning: "flatcc_cloning (ed_cloning (list_editing native)) bs_frames bs_object bs_place bs_root"
  using copied.flatcc_cloning_axioms by simp

definition bs_sized_root :: "builder_state \<Rightarrow> fb_obj option" where
  "bs_sized_root b = (case bs_root b of None \<Rightarrow> bs_sized b | Some x \<Rightarrow> None)"

text \<open>A finished buffer with a size prefix is the size of what follows, and that is a buffer without one.\<close>

lemma list_finalize_sized:
  assumes "bs_sized_root b = Some x" "rt_finalize_aligned_buffer list_runtime b = Some buf"
  shows "\<exists>rest. buf = le_bytes 4 (length rest) @ rest \<and> length rest < 2 ^ 32 \<and> 4 \<le> length rest \<and>
    represents rest (u32_at rest 0) x"
  using assms encode_finalized [of x]
  by (intro exI [where x = "le_bytes 4 4 @ encode x"])
    (auto simp: bs_sized_root_def list_runtime_def add.commute split: option.splits if_splits)

interpretation edited: flatcc_editing "list_editing native" bs_frames bs_object bs_place bs_root "\<lambda>b p. Some p" bs_sized_root
  unfolding flatcc_editing_def flatcc_editing_axioms_def
  by (intro conjI runtime_cloning)
    ((auto simp: list_editing_defs list_cloning_def list_runtime_def held_refs bs_sized_root_def; fail) |
     (clarify, erule list_finalize_sized, simp add: list_cloning_def; fail) |
     (auto simp: list_editing_defs list_cloning_def list_runtime_def bs_object_def map_le_def nth_append
       comp_def case_prod_beta; fail) |
     (clarify, drule held_values, auto simp: list_editing_defs bs_object_def map_le_def nth_append; fail))+

section \<open>Properties\<close>

text \<open>The copy of a finished response in a buffer with a size prefix.\<close>

definition sized_copy :: "'b editing_runtime \<Rightarrow> u8 list \<Rightarrow> u8 list option outcome" where
  "sized_copy D src =
     and_then (Response_Message_as_root src) (\<lambda>t.
     and_then (clone_as_root_with_size D Response_Message_identifier
         (Response_Message_clone (ed_cloning D) src t) (rt_init (ed_base D))) (\<lambda>(b, _).
       Inr (rt_finalize_aligned_buffer (ed_base D) b)))"

text \<open>What a call leaves: the frames as they were and a reference to one object.\<close>

definition makes ::
  "('b \<Rightarrow> frame list) \<Rightarrow> ('b \<Rightarrow> nat \<Rightarrow> fb_obj option) \<Rightarrow> ('b, nat) build \<Rightarrow> 'b \<Rightarrow> fb_obj \<Rightarrow> bool" where
  "makes frames object m b x \<longleftrightarrow>
     (\<exists>b' r. m b = Inr (b', r) \<and> frames b' = frames b \<and> object b \<subseteq>\<^sub>m object b' \<and> object b' r = Some x)"

context flatcc_editing
begin

lemma makesI:
  assumes "\<And>H Q. holds (frames b) H b \<Longrightarrow> H = {(r, y). object b r = Some y} \<Longrightarrow>
    (\<And>r b'. holds (frames b) (insert (r, x) H) b' \<Longrightarrow> Q r b') \<Longrightarrow> wp False m Q b"
  shows "makes frames object m b x"
proof -
  let ?H = "{(r, y). object b r = Some y}"
  have "wp False m (\<lambda>r b'. holds (frames b) (insert (r, x) ?H) b') b"
    by (rule assms [of ?H]) (simp_all add: holds_def)
  then show ?thesis by (fastforce simp: wp_False makes_def holds_def map_le_def)
qed

lemma replayed:
  assumes "frames b \<noteq> []"
  shows "\<forall>e \<in> set ts. text_edit_ok e \<Longrightarrow> makes frames object (edited_string D ts) b (FB_string (fold text_after ts []))"
    "\<forall>e \<in> set vs. vec_edit_ok 1 e \<Longrightarrow> makes frames object (edited_vec D 1 A vs) b (FB_bytes (fold (vec_after 1) vs []))"
    "\<forall>e \<in> set rs. \<forall>r \<in> refs_of e. object b r = Some (val r) \<Longrightarrow> fold (refs_after val) rs [] = map Some ys \<Longrightarrow>
      makes frames object (edited_refs D rs) b (FB_offsets ys)"
proof -
  show "makes frames object (edited_string D ts) b (FB_string (fold text_after ts []))" if "\<forall>e \<in> set ts. text_edit_ok e"
    by (rule makesI, erule edited_string_wp [OF _ assms that]) blast
  show "makes frames object (edited_vec D 1 A vs) b (FB_bytes (fold (vec_after 1) vs []))" if "\<forall>e \<in> set vs. vec_edit_ok 1 e"
    by (rule makesI, erule edited_vec_wp [OF _ assms that]) blast
  show "makes frames object (edited_refs D rs) b (FB_offsets ys)"
    if "\<forall>e \<in> set rs. \<forall>r \<in> refs_of e. object b r = Some (val r)" "fold (refs_after val) rs [] = map Some ys"
    by (rule makesI, erule edited_refs_wp [where val = val, OF _ assms _ that(2)]) (use that(1) in blast)+
qed

lemma sliced:
  assumes "frames b \<noteq> []"
  shows "represents src p (FB_string s) \<Longrightarrow>
      makes frames object (string_slice D src (Some (int (p + 4))) i n) b (FB_string (take n (drop i s)))"
    "represents src q (FB_bytes v) \<Longrightarrow>
      makes frames object (vec_slice D src 1 1 (Some (int (q + 4))) i n) b (FB_bytes (take n (drop i v)))"
  by (rule makesI, erule string_slice_wp [OF _ _ assms], assumption, blast)
    (rule makesI, erule vec_slice_wp [OF _ _ assms], assumption, blast)

lemma sized_copied:
  assumes "4 \<le> length src" "represents src (u32_at src 0) (message_obj a)"
  shows "sized_copy D src = Inl Dangling \<and> r_msg a \<noteq> None \<and> \<not> stores_last (ed_base D) \<or>
    (\<exists>b. sized_copy D src = Inr (rt_finalize_aligned_buffer (ed_base D) b) \<and>
       frames b = [] \<and> sized b = Some (copied_message a))"
proof -
  define dg where "dg \<longleftrightarrow> r_msg a \<noteq> None \<and> \<not> stores_last (ed_base D)"
  have h0: "holds [] {} (rt_init (ed_base D))" using init by (simp add: holds_def)
  obtain b1 rc where c: "ed_start_buffer D Response_Message_identifier 0 2 (rt_init (ed_base D)) = (b1, rc)" by fastforce
  from start_sized [OF init c] holds_steps [OF h0] have rc: "rc = 0" and h: "holds [Sized_frame] {} b1" by auto
  let ?Q = "\<lambda>_ b'. frames b' = [] \<and> sized b' = Some (copied_message a)"
  have "wp dg (Response_Message_clone (ed_cloning D) src (Some (int (u32_at src 0)))) (\<lambda>r. wp dg (buffer_end (ed_base D) r) ?Q) b1"
  proof (rule message_clone_wp [OF assms(2) h])
    fix r b2
    assume h2: "holds [Sized_frame] (insert (r, copied_message a) {}) b2"
    obtain b3 r3 where e: "rt_end_buffer (ed_base D) r b2 = (b3, r3)" by fastforce
    from h2 have "frames b2 = [Sized_frame]" "object b2 r = Some (copied_message a)" by (simp_all add: holds_def)
    from end_sized [OF this e] e show "wp dg (buffer_end (ed_base D) r) ?Q b2" by (simp add: buffer_end_def)
  qed (auto simp: dg_def)
  with c rc have "wp dg (clone_as_root_with_size D Response_Message_identifier
      (Response_Message_clone (ed_cloning D) src (Some (int (u32_at src 0))))) ?Q (rt_init (ed_base D))"
    by (simp add: clone_as_root_with_size_def buffer_start_with_size_def)
  with response_root [OF assms(1)] show ?thesis
    by (cases "clone_as_root_with_size D Response_Message_identifier
      (Response_Message_clone (ed_cloning D) src (Some (int (u32_at src 0)))) (rt_init (ed_base D))")
      (auto simp: wp_def sized_copy_def dg_def)
qed

lemma valueless_lost:
  assumes "frames b \<noteq> []" "represents src p (FB_bytes (map (\<lambda>m. of_nat (body_type m)) ms @ 0 # ts))"
    and "member_values src v ms"
  shows "\<exists>b'. union_vec_field_clone D ID src (Response_MessageType_clone (ed_cloning D) src)
      \<lparr>uv_type = Some (int (p + 4)), uv_value = v\<rparr> b = Inr (b', 0) \<and>
    frames b' = Offsets_frame (map copied_body ms) # frames b"
proof -
  have "holds (frames b) {} b" by (simp add: holds_def)
  from union_vec_clone_none_wp [OF assms(2,3) this assms(1),
      where dg = False and Q = "\<lambda>r b'. r = (0, 0) \<and> frames b' = Offsets_frame (map copied_body ms) # frames b"]
  show ?thesis by (auto simp: wp_False union_vec_field_clone_def build_then_def union_vec_add_def build_return_def)
qed

end

text \<open>Putting a string, a vector of bytes or a vector of references together by appending, pushing,
  extending, truncating (refused beyond the beginning) and overwriting leaves what the same edits leave of a
  list, with every frame closed and every earlier object intact.\<close>

theorem edits_replayed:
  assumes "flatcc_editing D frames object place root spot sized" "frames b \<noteq> []"
    and "\<forall>e \<in> set ts. text_edit_ok e" "\<forall>e \<in> set vs. vec_edit_ok 1 e"
    and "\<forall>e \<in> set rs. \<forall>r \<in> refs_of e. object b r = Some (val r)" "fold (refs_after val) rs [] = map Some ys"
  shows "makes frames object (edited_string D ts) b (FB_string (fold text_after ts [])) \<and>
    makes frames object (edited_vec D 1 A vs) b (FB_bytes (fold (vec_after 1) vs [])) \<and>
    makes frames object (edited_refs D rs) b (FB_offsets ys)"
  using flatcc_editing.replayed [OF assms(1,2)] assms(3-6) by blast

definition open_table :: builder_state where
  "open_table = \<lparr>bs_frames = [Table_frame 4 [], Buffer_frame], bs_objects = [FB_bytes [7], FB_bytes [8]], bs_root = None,
     bs_sized = None\<rparr>"

theorem edits_replayed_witness:
  "makes bs_frames bs_object (edited_string (list_editing True) [Append [1, 2], Extend 2, Put 2 9, Truncate 1, Append_str ''a'']) open_table
      (FB_string [1, 2, 9, 97]) \<and>
    makes bs_frames bs_object (edited_vec (list_editing True) 1 1 [Vec_push [5], Vec_truncate 3, Vec_append [6, 7] 2]) open_table
      (FB_bytes [5, 6, 7]) \<and>
    makes bs_frames bs_object (edited_refs (list_editing True) [Ref_extend 2, Ref_put 0 2, Ref_truncate 1, Ref_push 1]) open_table
      (FB_offsets [FB_bytes [8], FB_bytes [7]])"
proof -
  let ?val = "\<lambda>r. bs_objects open_table ! (r - 1)"
  have "fold text_after [Append [1, 2], Extend 2, Put 2 9, Truncate 1, Append_str ''a''] [] = [1, 2, 9, 97]"
    "fold (vec_after 1) [Vec_push [5], Vec_truncate 3, Vec_append [6, 7] 2] [] = [5, 6, 7]"
    by (simp_all add: shorten_def text_bytes_def numeral_eq_Suc)
  then show ?thesis
    using edits_replayed [OF edited.flatcc_editing_axioms [of True], of open_table
        "[Append [1, 2], Extend 2, Put 2 9, Truncate 1, Append_str ''a'']" "[Vec_push [5], Vec_truncate 3, Vec_append [6, 7] 2]"
        "[Ref_extend 2, Ref_put 0 2, Ref_truncate 1, Ref_push 1]" ?val "[FB_bytes [8], FB_bytes [7]]" 1]
    by (simp add: open_table_def bs_object_def shorten_def cstr_def numeral_eq_Suc)
qed


text \<open>A finished buffer: a string, the types \<open>Login\<close> and none, and the values of these members, the second null.\<close>

definition sample_source :: "u8 list" where
  "sample_source = encode (FB_string [1, 2, 3]) @ encode (FB_bytes [1, 0]) @
     (le_bytes 4 2 @ le_bytes 4 8 @ le_bytes 4 0) @ encode (body_obj (Res_Login ''t''))"

lemma represents_within: "fits x \<Longrightarrow> n = length u \<Longrightarrow> represents (u @ encode x @ w) n x"
  by (rule encode_represents(1)) (simp_all add: bytes_at_def)

lemma sample_parts:
  "represents sample_source 0 (FB_string [1, 2, 3])" "represents sample_source 8 (FB_bytes [1, 0])"
  "member_values sample_source (Some 18) [Res_Login ''t'']"
proof -
  show "represents sample_source 0 (FB_string [1, 2, 3])"
    unfolding sample_source_def using represents_within [of "FB_string [1, 2, 3]" 0 "[]"] by simp
  show "represents sample_source 8 (FB_bytes [1, 0])"
    unfolding sample_source_def using represents_within [of "FB_bytes [1, 0]" 8 "encode (FB_string [1, 2, 3])"] by simp
  let ?u = "encode (FB_string [1, 2, 3]) @ encode (FB_bytes [1, 0]) @ (le_bytes 4 2 @ le_bytes 4 8 @ le_bytes 4 0)"
  have "fits (body_obj (Res_Login ''t''))"
    by (simp add: text_field_def text_bytes_def table_fits_def inline_size_def slots_start_def vtable_slots_def
      table_bytes_def)
  from represents_within [OF this, of 26 ?u "[]"]
  have "represents sample_source 26 (body_obj (Res_Login ''t''))"
    unfolding sample_source_def append_assoc append_Nil2 by simp
  moreover have "generic_vec_at sample_source (Some 18) 0 = Inr (Some 26)"
  proof -
    have b: "bytes_at sample_source 14 (le_bytes 4 2)" "bytes_at sample_source 18 (le_bytes 4 8)"
      unfolding sample_source_def by (simp_all add: bytes_at_def)
    from b have "18 \<le> length sample_source" "22 \<le> length sample_source" by (simp_all add: bytes_at_def)
    with bytes_at_number(1) [OF b(1)] bytes_at_number(1) [OF b(2)]
      read_le_in [of 14 4 sample_source] read_le_in [of 18 4 sample_source] show ?thesis
      by (simp add: generic_vec_at_def offset_vec_at_def vec_len_def deref_def u32_at_def)
  qed
  ultimately show "member_values sample_source (Some 18) [Res_Login ''t'']"
    by (auto simp: member_values_def intro!: exI [of _ 26])
qed


text \<open>C37: a vector of unions that has a member without a value, which the format allows, is not cloned: the clone
  stops at that member with two null references and leaves the vector of values open; the field then
  takes the two null references for a missing vector and reports success.\<close>

theorem valueless_member_lost:
  assumes "flatcc_editing D frames object place root spot sized" "frames b \<noteq> []"
    and "represents src p (FB_bytes (map (\<lambda>m. of_nat (body_type m)) ms @ 0 # ts))"
    and "member_values src v ms"
  shows "\<exists>b'. union_vec_field_clone D ID src (Response_MessageType_clone (ed_cloning D) src)
      \<lparr>uv_type = Some (int (p + 4)), uv_value = v\<rparr> b = Inr (b', 0) \<and>
    frames b' = Offsets_frame (map copied_body ms) # frames b"
  by (rule flatcc_editing.valueless_lost [OF assms])

theorem valueless_member_lost_witness:
  "\<exists>b'. union_vec_field_clone (list_editing True) 3 sample_source (Response_MessageType_clone list_cloning sample_source)
      \<lparr>uv_type = Some 12, uv_value = Some 18\<rparr> open_table = Inr (b', 0) \<and>
    bs_frames b' = Offsets_frame [body_obj (Res_Login ''t'')] # bs_frames open_table"
  using valueless_member_lost [OF edited.flatcc_editing_axioms [of True], of open_table sample_source 8 "[Res_Login ''t'']" "[]" "Some 18" 3] sample_parts(2,3)
  by (simp add: open_table_def)

text \<open>A finished response that is cloned as the root of a buffer with a size prefix: the prefix is the number of
  the bytes behind it, and these are read back as the same response.\<close>

theorem sized_copy_read_back:
  assumes "flatcc_builder B frames object place root" "flatcc_editing D frames' object' place' root' spot sized"
    and "response_wf a" "(\<exists>d. a = error_response d) \<or> (\<exists>m. a = ok_response m)"
    and "finished B a = Inr (Some src)"
  shows "sized_copy D src = Inl Dangling \<and> r_msg a \<noteq> None \<and> \<not> stores_last (ed_base D) \<or>
    (\<exists>res. sized_copy D src = Inr res \<and> (\<forall>buf. res = Some buf \<longrightarrow>
    (\<exists>rest. read_size_prefix buf = Inr (length rest, 4) \<and> drop 4 buf = rest \<and> read_response rest = Inr (response_sent a))))"
proof -
  from flatcc_builder.finished_represents [OF assms(1,3,4)] assms(5)
  have src: "4 \<le> length src" "represents src (u32_at src 0) (message_obj a)" by simp_all
  show ?thesis
  proof (cases "sized_copy D src = Inl Dangling \<and> r_msg a \<noteq> None \<and> \<not> stores_last (ed_base D)")
    case False
    with flatcc_editing.sized_copied [OF assms(2) src] obtain b where
    b: "sized_copy D src = Inr (rt_finalize_aligned_buffer (ed_base D) b)" "frames' b = []" "sized b = Some (copied_message a)"
    by blast
  have "\<exists>rest. read_size_prefix buf = Inr (length rest, 4) \<and> drop 4 buf = rest \<and> read_response rest = Inr (response_sent a)"
    if "rt_finalize_aligned_buffer (ed_base D) b = Some buf" for buf
  proof -
    from flatcc_editing.finalize_sized [OF assms(2) b(2,3) that] obtain rest where
      r: "buf = le_bytes 4 (length rest) @ rest" "length rest < 2 ^ 32" "4 \<le> length rest"
        "represents rest (u32_at rest 0) (copied_message a)" by blast
    have "bytes_at buf 0 (le_bytes 4 (length rest))" by (simp add: r(1) bytes_at_def)
    from bytes_at_number(1) [OF this] r(2) have "u32_at buf 0 = length rest" by simp
    with r(1) read_le_in [of 0 4 buf] have "read_size_prefix buf = Inr (length rest, 4)"
      by (simp add: read_size_prefix_def u32_at_def)
    moreover from read_alikeD [OF copied_message_alike r(4)] read_response_obj [OF _ _ assms(3)]
    have "read_response rest = Inr (response_sent a)" using r(3) by blast
    ultimately show ?thesis by (simp add: r(1))
  qed
  with b(1) show ?thesis by blast
  qed simp
qed

text \<open>Without the byte order of the wire, \<open>_vec_create\<close> returns the error code of the runtime as the reference: the
  field's \<open>_add\<close> does not see a null reference.\<close>

theorem vec_create_error:
  assumes "\<not> ed_native_pe D" "ed_start_vector D S A (count_max S) b = (b', - 1)"
  shows "vec_create D S A data n b = Inr (b', 2 ^ 32 - 1)"
  using assms by (simp add: vec_create_def build_then_def build_call_def build_return_def ref_of_int_def)

end
