(* ===== verification/Fb_Arrays.thy ===== *)
theory Fb_Arrays
  imports Fb_Open
begin

text \<open>
  The functions that \<open>__flatbuffers_build_scalar\<close> of
  \<open>src/backend/api-schema/response/gen/flatbuffers_common_builder.h\<close> defines for values in memory: conversion between the
  byte order of the target and that of the wire, for one scalar and for a fixed array. An array is the
  list of its elements, an element the list of its bytes, a pointer an array and an index; source and
  destination of a copy are different arrays.
\<close>

type_synonym array = "u8 list list"

definition cell :: "array \<Rightarrow> nat \<Rightarrow> u8 list outcome" where
  "cell xs i = (if i < length xs then Inr (xs ! i) else Inl Out_of_bounds)"

definition put_cell :: "array \<Rightarrow> nat \<Rightarrow> u8 list \<Rightarrow> array outcome" where
  "put_cell xs i v = (if i < length xs then Inr (xs[i := v]) else Inl Out_of_bounds)"

definition cast_from_pe :: "'b editing_runtime \<Rightarrow> u8 list \<Rightarrow> u8 list" where
  "cast_from_pe D v = (if ed_native_pe D then v else rev v)"

section \<open>One scalar\<close>

definition scalar_from_pe :: "'b editing_runtime \<Rightarrow> array \<Rightarrow> nat \<Rightarrow> array outcome" where
  "scalar_from_pe D p i = and_then (cell p i) (\<lambda>v. put_cell p i (cast_from_pe D v))"

definition scalar_to_pe :: "'b editing_runtime \<Rightarrow> array \<Rightarrow> nat \<Rightarrow> array outcome" where
  "scalar_to_pe D p i = and_then (cell p i) (\<lambda>v. put_cell p i (cast_to_pe D v))"

definition scalar_copy :: "array \<Rightarrow> nat \<Rightarrow> array \<Rightarrow> nat \<Rightarrow> array outcome" where
  "scalar_copy p i p2 j = and_then (cell p2 j) (put_cell p i)"

definition scalar_copy_from_pe :: "'b editing_runtime \<Rightarrow> array \<Rightarrow> nat \<Rightarrow> array \<Rightarrow> nat \<Rightarrow> array outcome" where
  "scalar_copy_from_pe D p i p2 j = and_then (cell p2 j) (\<lambda>v. put_cell p i (cast_from_pe D v))"

definition scalar_copy_to_pe :: "'b editing_runtime \<Rightarrow> array \<Rightarrow> nat \<Rightarrow> array \<Rightarrow> nat \<Rightarrow> array outcome" where
  "scalar_copy_to_pe D p i p2 j = and_then (cell p2 j) (\<lambda>v. put_cell p i (cast_to_pe D v))"

definition scalar_assign :: "array \<Rightarrow> nat \<Rightarrow> u8 list \<Rightarrow> array outcome" where
  "scalar_assign p i v0 = put_cell p i v0"

definition scalar_assign_from_pe :: "'b editing_runtime \<Rightarrow> array \<Rightarrow> nat \<Rightarrow> u8 list \<Rightarrow> array outcome" where
  "scalar_assign_from_pe D p i v0 = put_cell p i (cast_from_pe D v0)"

definition scalar_assign_to_pe :: "'b editing_runtime \<Rightarrow> array \<Rightarrow> nat \<Rightarrow> u8 list \<Rightarrow> array outcome" where
  "scalar_assign_to_pe D p i v0 = put_cell p i (cast_to_pe D v0)"

section \<open>Fixed arrays\<close>

text \<open>A loop over the indices, and \<open>memcpy\<close> of \<open>n\<close> elements.\<close>

fun each_index :: "(nat \<Rightarrow> array \<Rightarrow> array outcome) \<Rightarrow> nat list \<Rightarrow> array \<Rightarrow> array outcome" where
  "each_index f [] p = Inr p"
| "each_index f (i # is) p = and_then (f i p) (each_index f is)"

definition array_copy :: "array \<Rightarrow> array \<Rightarrow> nat \<Rightarrow> array outcome" where
  "array_copy p p2 n = (if n \<le> length p \<and> n \<le> length p2 then Inr (take n p2 @ drop n p) else Inl Out_of_bounds)"

definition array_copy_from_pe :: "'b editing_runtime \<Rightarrow> array \<Rightarrow> array \<Rightarrow> nat \<Rightarrow> array outcome" where
  "array_copy_from_pe D p p2 n =
     (if ed_native_pe D then array_copy p p2 n
      else each_index (\<lambda>i p. scalar_copy_from_pe D p i p2 i) [0..<n] p)"

definition array_copy_to_pe :: "'b editing_runtime \<Rightarrow> array \<Rightarrow> array \<Rightarrow> nat \<Rightarrow> array outcome" where
  "array_copy_to_pe D p p2 n =
     (if ed_native_pe D then array_copy p p2 n
      else each_index (\<lambda>i p. scalar_copy_to_pe D p i p2 i) [0..<n] p)"

section \<open>What they do\<close>

lemma cast_pe_inverse [simp]: "cast_from_pe D (cast_to_pe D v) = v" "cast_to_pe D (cast_from_pe D v) = v"
  by (simp_all add: cast_from_pe_def cast_to_pe_def)

lemma each_index_copies:
  assumes "\<And>i p. f i p = and_then (cell p2 i) (\<lambda>v. put_cell p i (g v))"
  shows "n \<le> m \<Longrightarrow> m \<le> length p \<Longrightarrow> m \<le> length p2 \<Longrightarrow>
    each_index f [n..<m] p = Inr (take n p @ map g (take (m - n) (drop n p2)) @ drop m p)"
proof (induction "m - n" arbitrary: n p)
  case (Suc k)
  then have n: "n < m" "k = m - Suc n" by simp_all
  then have "f n p = Inr (p[n := g (p2 ! n)])" using Suc.prems by (simp add: assms cell_def put_cell_def)
  moreover have "take (m - n) (drop n p2) = p2 ! n # take (m - Suc n) (drop (Suc n) p2)"
    using n Suc.prems by (simp add: Cons_nth_drop_Suc [symmetric] Suc_diff_Suc [symmetric])
  moreover have "take (Suc n) (p[n := x]) = take n p @ [x]" for x
    using n Suc.prems by (simp add: take_Suc_conv_app_nth)
  ultimately show ?case using Suc.hyps(1) [OF n(2), of "p[n := g (p2 ! n)]"] Suc.prems n
    by (simp add: upt_conv_Cons)
qed simp

text \<open>Both copies convert exactly the first \<open>n\<close> elements, and one takes back what the other did.\<close>

lemma array_copy_to_pe_eq:
  "n \<le> length p \<Longrightarrow> n \<le> length p2 \<Longrightarrow> array_copy_to_pe D p p2 n = Inr (map (cast_to_pe D) (take n p2) @ drop n p)"
  using each_index_copies [of "\<lambda>i p. scalar_copy_to_pe D p i p2 i" p2 "cast_to_pe D" 0 n p]
  by (auto simp: array_copy_to_pe_def array_copy_def scalar_copy_to_pe_def cast_to_pe_def intro: map_idI [symmetric])

lemma array_copy_from_pe_eq:
  "n \<le> length p \<Longrightarrow> n \<le> length p2 \<Longrightarrow> array_copy_from_pe D p p2 n = Inr (map (cast_from_pe D) (take n p2) @ drop n p)"
  using each_index_copies [of "\<lambda>i p. scalar_copy_from_pe D p i p2 i" p2 "cast_from_pe D" 0 n p]
  by (auto simp: array_copy_from_pe_def array_copy_def scalar_copy_from_pe_def cast_from_pe_def intro: map_idI [symmetric])

theorem array_pe_round_trip:
  assumes "length wire = length xs" "length back = length xs"
  shows "and_then (array_copy_to_pe D wire xs (length xs)) (\<lambda>w. array_copy_from_pe D back w (length xs)) = Inr xs"
  using assms by (simp add: array_copy_to_pe_eq array_copy_from_pe_eq comp_def)

text \<open>The conversion in place is the copy of an array onto itself.\<close>

lemma scalar_in_place:
  "scalar_to_pe D p i = scalar_copy_to_pe D p i p i" "scalar_from_pe D p i = scalar_copy_from_pe D p i p i"
  by (simp_all add: scalar_to_pe_def scalar_copy_to_pe_def scalar_from_pe_def scalar_copy_from_pe_def)

end
