(* ===== verification/Threads.thy ===== *)
theory Threads
  imports Scenarios
begin

text \<open>
  The service threads of \<open>main\<close>: each serves its own sessions, all share the one database
  connection, and no lock is taken. A thread that has received a request executes the statements
  of the handler one by one; between two statements of one thread any other thread may execute
  its own. The use of the connection is an interval: a thread enters the client library (\<open>Call\<close>) and
  leaves it with the result. libpq lets a connection be used by one thread at a time, so a call
  returns only if no other thread is inside; what two threads inside do is left open.
\<close>

section \<open>A thread\<close>

text \<open>Where a thread stands: two of the handlers take two statements, and keep the result of the
  first one.\<close>

datatype thread =
    Idle
  | Received request
  | Contract_user request_contract_req pgresult
  | Listing_user list_contracts_req pgresult

datatype event =
    Receive request
  | Call
  | Look_up
  | Answer request "response option"

fun two_statements :: "request \<Rightarrow> bool" where
  "two_statements (Req_RequestContract r) = True"
| "two_statements (Req_ListContracts r) = True"
| "two_statements _ = False"

inductive thread_step :: "'w env \<Rightarrow> string \<Rightarrow> 'w \<Rightarrow> thread \<Rightarrow> event \<Rightarrow> 'w \<Rightarrow> thread \<Rightarrow> bool"
  for E :: "'w env" and salt :: string where
  receive: "thread_step E salt w Idle (Receive req) w (Received req)"
| one_statement: "\<not> two_statements req \<Longrightarrow> dispatch E salt w req = Inr (w', a) \<Longrightarrow>
    thread_step E salt w (Received req) (Answer req a) w' Idle"
| contract_look_up: "e_execParams E w SQL_user_by_token [rc_token r] = (w', res) \<Longrightarrow>
    thread_step E salt w (Received (Req_RequestContract r)) Look_up w' (Contract_user r res)"
| contract_answer: "with_response (contract_insert E r (w, res)) = Inr (w', a) \<Longrightarrow>
    thread_step E salt w (Contract_user r res) (Answer (Req_RequestContract r) a) w' Idle"
| list_look_up: "e_execParams E w SQL_user_admin [lc_token r] = (w', res) \<Longrightarrow>
    thread_step E salt w (Received (Req_ListContracts r)) Look_up w' (Listing_user r res)"
| list_answer: "with_response (list_answer E (w, res)) = Inr (w', a) \<Longrightarrow>
    thread_step E salt w (Listing_user r res) (Answer (Req_ListContracts r) a) w' Idle"

inductive_cases step_IdleE: "thread_step E salt w Idle ev w' th'"
inductive_cases step_ReceivedE: "thread_step E salt w (Received req) ev w' th'"
inductive_cases step_ContractE: "thread_step E salt w (Contract_user r res) ev w' th'"
inductive_cases step_ListingE: "thread_step E salt w (Listing_user r res) ev w' th'"

lemmas step_cases = step_IdleE step_ReceivedE step_ContractE step_ListingE

text \<open>Undisturbed, the steps of a thread are the handler.\<close>

definition undisturbed :: "'w env \<Rightarrow> string \<Rightarrow> 'w \<Rightarrow> request \<Rightarrow> response option \<Rightarrow> 'w \<Rightarrow> bool" where
  "undisturbed E salt w req a w' \<longleftrightarrow>
     thread_step E salt w (Received req) (Answer req a) w' Idle \<or>
     (\<exists>w1 th. thread_step E salt w (Received req) Look_up w1 th \<and> thread_step E salt w1 th (Answer req a) w' Idle)"

text \<open>The next step of a thread uses the connection: a message type without a handler needs no statement, and
  neither does a request whose user is not found or whose price is negative.\<close>

fun calls :: "thread \<Rightarrow> bool" where
  "calls Idle \<longleftrightarrow> False"
| "calls (Received (Req_Other n)) \<longleftrightarrow> False"
| "calls (Received _) \<longleftrightarrow> True"
| "calls (Contract_user r res) \<longleftrightarrow>
     PQresultStatus res = PGRES_TUPLES_OK \<and> 0 < PQntuples res \<and> \<not> is_negative (rc_price r)"
| "calls (Listing_user r res) \<longleftrightarrow> PQresultStatus res = PGRES_TUPLES_OK \<and> 0 < PQntuples res"

section \<open>The service\<close>

text \<open>\<open>sv_inside\<close>: the threads that are inside the client library. \<open>sv_past\<close>: the states in which steps were
  taken, for the properties only.\<close>

record 'w service =
  sv_world :: 'w
  sv_threads :: "nat \<Rightarrow> thread"
  sv_inside :: "nat set"
  sv_past :: "'w list"

definition all_idle :: "'w \<Rightarrow> 'w service" where
  "all_idle w = \<lparr>sv_world = w, sv_threads = (\<lambda>_. Idle), sv_inside = {}, sv_past = []\<rparr>"

definition sv_enter :: "'w service \<Rightarrow> nat \<Rightarrow> 'w service" where
  "sv_enter s i = s\<lparr>sv_inside := insert i (sv_inside s)\<rparr>"

definition sv_next :: "'w service \<Rightarrow> nat \<Rightarrow> 'w \<Rightarrow> thread \<Rightarrow> 'w service" where
  "sv_next s i w th =
     \<lparr>sv_world = w, sv_threads = (sv_threads s)(i := th), sv_inside = sv_inside s - {i},
      sv_past = sv_past s @ [sv_world s]\<rparr>"

text \<open>One of \<open>n\<close> threads receives a request that \<open>ok\<close> admits, enters the client library, or leaves it.\<close>

inductive service_step ::
  "'w env \<Rightarrow> string \<Rightarrow> (request \<Rightarrow> bool) \<Rightarrow> nat \<Rightarrow> 'w service \<Rightarrow> nat \<times> event \<Rightarrow> 'w service \<Rightarrow> bool"
  for E :: "'w env" and salt :: string and ok :: "request \<Rightarrow> bool" and n :: nat where
  service_call: "i < n \<Longrightarrow> calls (sv_threads s i) \<Longrightarrow> i \<notin> sv_inside s \<Longrightarrow>
    service_step E salt ok n s (i, Call) (sv_enter s i)"
| service_step: "i < n \<Longrightarrow> thread_step E salt (sv_world s) (sv_threads s i) ev w th \<Longrightarrow>
    \<forall>req. ev = Receive req \<longrightarrow> ok req \<Longrightarrow> calls (sv_threads s i) \<longrightarrow> sv_inside s = {i} \<Longrightarrow>
    service_step E salt ok n s (i, ev) (sv_next s i w th)"

inductive_cases service_stepE: "service_step E salt ok n s (i, ev) s'"

lemma sv_next_sel [simp]:
  "sv_world (sv_next s i w th) = w" "sv_threads (sv_next s i w th) = (sv_threads s)(i := th)"
  "sv_inside (sv_next s i w th) = sv_inside s - {i}" "sv_past (sv_next s i w th) = sv_past s @ [sv_world s]"
  "sv_world (sv_enter s i) = sv_world s" "sv_threads (sv_enter s i) = sv_threads s"
  "sv_inside (sv_enter s i) = insert i (sv_inside s)" "sv_past (sv_enter s i) = sv_past s"
  "sv_world (all_idle w) = w" "sv_threads (all_idle w) i = Idle" "sv_inside (all_idle w) = {}" "sv_past (all_idle w) = []"
  by (simp_all add: sv_next_def sv_enter_def all_idle_def)

text \<open>Two threads inside at once, which the library forbids.\<close>

definition overlap :: "'w service \<Rightarrow> bool" where
  "overlap s \<longleftrightarrow> (\<exists>i \<in> sv_inside s. \<exists>j \<in> sv_inside s. i \<noteq> j)"

definition inside_ok :: "nat \<Rightarrow> 'w service \<Rightarrow> bool" where
  "inside_ok n s \<longleftrightarrow> (\<forall>i \<in> sv_inside s. i < n \<and> calls (sv_threads s i))"



text \<open>An overlap is final: no call returns any more.\<close>

lemma overlap_stays:
  assumes "service_step E salt ok n s a s'" "overlap s" "inside_ok n s"
  shows "overlap s'" "sv_world s' = sv_world s \<or> \<not> calls (sv_threads s (fst a))"
proof -
  from assms(2) obtain i j where ij: "i \<in> sv_inside s" "j \<in> sv_inside s" "i \<noteq> j" by (auto simp: overlap_def)
  show "overlap s'" using assms(1)
  proof cases
    case (service_step k ev w th)
    have "\<not> calls (sv_threads s k)" using service_step(6) ij by auto
    then have "k \<noteq> i" "k \<noteq> j" using assms(3) ij by (auto simp: inside_ok_def)
    with ij service_step(2) show ?thesis by (auto simp: overlap_def)
  qed (use ij in \<open>auto simp: overlap_def\<close>)
  show "sv_world s' = sv_world s \<or> \<not> calls (sv_threads s (fst a))" using assms(1) ij by cases auto
qed

section \<open>What a thread has learnt\<close>

fun informed :: "('w \<Rightarrow> tables) \<Rightarrow> 'w list \<Rightarrow> thread \<Rightarrow> bool" where
  "informed view past Idle \<longleftrightarrow> True"
| "informed view past (Received req) \<longleftrightarrow> request_ok req"
| "informed view past (Contract_user r res) \<longleftrightarrow> request_ok (Req_RequestContract r) \<and>
     (\<exists>w \<in> set past. row_of name_row (set (users (view w))) (rc_token r) res)"
| "informed view past (Listing_user r res) \<longleftrightarrow>
     (\<exists>w \<in> set past. row_of admin_row (set (users (view w))) (lc_token r) res)"

lemma informed_later: "informed view past th \<Longrightarrow> informed view (past @ [w]) th"
  by (cases th) auto

text \<open>The answer to a request, when the user may have been looked up in an earlier state.\<close>

fun serves_since ::
  "(string \<Rightarrow> string) \<Rightarrow> (string \<Rightarrow> string) \<Rightarrow> tables set \<Rightarrow> tables \<Rightarrow> request \<Rightarrow> response \<Rightarrow> tables \<Rightarrow> bool" where
  "serves_since H F past t (Req_RequestContract r) a t' \<longleftrightarrow>
     (\<exists>t0 \<in> past. requested F (set (users t0)) t r a t')"
| "serves_since H F past t (Req_ListContracts r) a t' \<longleftrightarrow>
     (\<exists>t0 \<in> past. listed (set (users t0)) t r a t')"
| "serves_since H F past t req a t' \<longleftrightarrow> serves H F t req a t'"

lemma requested_inv: "requested F us t r a t' \<Longrightarrow> app_inv H t \<Longrightarrow> app_inv H t'"
  by (auto simp: requested_def refused_def intro: contract_inserted_inv)

lemma listed_inv: "listed us t r a t' \<Longrightarrow> t' = t"
  by (auto simp: listed_def refused_def)

lemma serves_since_inv:
  "serves_since H F past t req a t' \<Longrightarrow> two_statements req \<Longrightarrow> app_inv H t \<Longrightarrow> app_inv H t'"
  by (cases req) (auto intro: requested_inv dest: listed_inv)

context tomtom_server
begin

definition service_inv :: "string \<Rightarrow> 'w service \<Rightarrow> bool" where
  "service_inv salt s \<longleftrightarrow>
     (\<forall>w \<in> set (sv_past s @ [sv_world s]). app_inv (stored_hash E salt) (view w)) \<and>
     (\<forall>i. informed view (sv_past s) (sv_threads s i))"

lemma past_rows:
  "service_inv salt s \<Longrightarrow> w \<in> set (sv_past s) \<Longrightarrow> u \<in> set (users (view w)) \<Longrightarrow> user_row_ok u"
  by (auto simp: service_inv_def app_inv_def db_ok_def)

text \<open>An answer given in a state that the invariant describes.\<close>

lemma answer_serves:
  assumes inv: "service_inv salt s"
    and step: "thread_step E salt (sv_world s) (sv_threads s i) (Answer req (Some a)) w' th"
  shows "serves_since (stored_hash E salt) float_text (view ` set (sv_past s)) (view (sv_world s)) req a (view w')"
proof -
  have inf: "informed view (sv_past s) (sv_threads s i)" and db: "db_ok (view (sv_world s))"
    using inv by (simp_all add: service_inv_def app_inv_def)
  from step show ?thesis
  proof (cases rule: thread_step.cases)
    case one_statement
    with inf dispatch_serves [OF db _ one_statement(4)] show ?thesis by (cases req) auto
  next
    case (contract_answer r res)
    from contract_answer(1,4) inf obtain w where w: "w \<in> set (sv_past s)" "request_ok (Req_RequestContract r)"
      "row_of name_row (set (users (view w))) (rc_token r) res" by auto
    from contract_answer have "contract_insert E r (sv_world s, res) = Inr (w', a)"
      by (auto simp: with_response_def and_then_Inr_iff)
    from contract_insert_serves [OF w(2,3) past_rows [OF inv w(1)] this] w(1) contract_answer(2)
    show ?thesis by auto
  next
    case (list_answer res r)
    from list_answer(1) inf obtain w where w: "w \<in> set (sv_past s)"
      "row_of admin_row (set (users (view w))) (lc_token r) res" by auto
    from list_answer have "list_answer E (sv_world s, res) = Inr (w', a)"
      by (auto simp: with_response_def and_then_Inr_iff)
    from list_answer_serves [OF db w(2) past_rows [OF inv w(1)] this] w(1) list_answer(2)
    show ?thesis by auto
  qed
qed

lemma thread_step_inv:
  assumes inv: "service_inv salt s"
    and step: "thread_step E salt (sv_world s) (sv_threads s i) ev w' th"
    and ok: "\<forall>req. ev = Receive req \<longrightarrow> request_ok req"
  shows "app_inv (stored_hash E salt) (view w') \<and> informed view (sv_past s @ [sv_world s]) th"
proof -
  have inf: "informed view (sv_past s) (sv_threads s i)"
    and app: "app_inv (stored_hash E salt) (view (sv_world s))" using inv by (simp_all add: service_inv_def)
  from step show ?thesis
  proof (cases rule: thread_step.cases)
    case (receive req)
    with app ok show ?thesis by simp
  next
    case (one_statement req a)
    with inf have "request_ok req" by simp
    from dispatch_inv [OF app this one_statement(5)] one_statement show ?thesis by simp
  next
    case (contract_look_up r res)
    from user_by_token_row [OF contract_look_up(4)] contract_look_up inf app show ?thesis by auto
  next
    case (list_look_up r res)
    from user_admin_row [OF list_look_up(4)] list_look_up inf app show ?thesis by auto
  next
    case (contract_answer r res a)
    then obtain x where "a = Some x" by (auto simp: with_response_def and_then_Inr_iff)
    with contract_answer(2) step have "thread_step E salt (sv_world s) (sv_threads s i)
      (Answer (Req_RequestContract r) (Some x)) w' th" by simp
    from serves_since_inv [OF answer_serves [OF inv this] _ app] contract_answer(3) show ?thesis by simp
  next
    case (list_answer res a r)
    then obtain x where "a = Some x" by (auto simp: with_response_def and_then_Inr_iff)
    with list_answer(2) step have "thread_step E salt (sv_world s) (sv_threads s i)
      (Answer (Req_ListContracts r) (Some x)) w' th" by simp
    from serves_since_inv [OF answer_serves [OF inv this] _ app] list_answer(3) show ?thesis by simp
  qed
qed

lemma service_inv_step:
  assumes "service_inv salt s" "service_step E salt request_ok n s l s'"
  shows "service_inv salt s'"
  using assms(2)
proof cases
  case (service_call i)
  with assms(1) show ?thesis by (simp add: service_inv_def)
next
  case (service_step i ev w th)
  from thread_step_inv [OF assms(1) service_step(4,5)] assms(1) service_step(2) show ?thesis
    by (auto simp: service_inv_def intro: informed_later)
qed

lemma service_inv_start: "app_inv (stored_hash E salt) (view w) \<Longrightarrow> service_inv salt (all_idle w)"
  by (simp add: service_inv_def)

end

definition idle_start :: "'w env \<Rightarrow> string \<Rightarrow> ('w \<Rightarrow> tables) \<Rightarrow> 'w service \<Rightarrow> bool" where
  "idle_start E salt view s \<longleftrightarrow> (\<exists>w. s = all_idle w \<and> app_inv (stored_hash E salt) (view w))"

sublocale tomtom_server \<subseteq> threads: safe_machine "idle_start E salt view" "service_step E salt request_ok n" "service_inv salt"
  for salt n
  by unfold_locales (auto simp: idle_start_def service_inv_start intro: service_inv_step)

context tomtom_server
begin

lemma threads_reach_inv: "reaches (idle_start E salt view) (service_step E salt request_ok n) s \<Longrightarrow> service_inv salt s"
  by (rule threads.reaches_inv)

end

section \<open>A listing disturbed by an edit\<close>

lemma joined_map_users:
  assumes "\<And>u. ur_id (f u) = ur_id u"
  shows "joined (t\<lparr>users := map f (users t)\<rparr>) = map (\<lambda>(c, u). (c, f u)) (joined t)"
  by (simp add: joined_def map_concat comp_def assms if_distrib [where f = "map _"] cong: if_cong)

lemma joined_mem: "(c, u) \<in> set (joined t) \<longleftrightarrow> c \<in> set (contracts t) \<and> u \<in> set (users t) \<and> cr_user c = ur_id u"
  by (auto simp: joined_def)

text \<open>The view of a contract determines its row and the name of its owner.\<close>

lemma contract_view_row:
  assumes "db_ok t" "c \<in> set (contracts t)" "d \<in> set (contracts t)" "contract_view (c, u) = contract_view (d, v)"
  shows "c = d" "ur_username u = ur_username v"
proof -
  from assms(4) have id: "(of_nat (cr_id c) :: u64) = of_nat (cr_id d)" and n: "ur_username u = ur_username v"
    by (simp_all add: contract_view_def)
  have "contract_row_ok c" "contract_row_ok d" using assms(1-3) by (auto simp: db_ok_def)
  then have "cr_id c < 2 ^ 64" "cr_id d < 2 ^ 64" by (auto simp: contract_row_ok_def)
  with arg_cong [OF id, of unat] have "cr_id c = cr_id d" by (simp add: unat_of_nat)
  with assms(1-3) show "c = d" by (auto simp: db_ok_def distinct_map dest: inj_onD)
  show "ur_username u = ur_username v" by (rule n)
qed

lemma newest_50_all: "newest_50 ps qs \<Longrightarrow> length ps \<le> 50 \<Longrightarrow> set qs = set ps"
  unfolding newest_50_def by (metis mset_eq_length mset_eq_setD take_all)

context tomtom_server
begin

lemma admin_looked_up:
  assumes "e_execParams E w SQL_user_admin [tok] = (w1, res)" "sole_owner (view w) tok u"
  shows "PQresultStatus res = PGRES_TUPLES_OK \<Longrightarrow> PQtuples res = [admin_row u]" "view w1 = view w"
proof -
  have sel: "selects view w (w1, res) [admin_row u]"
    using user_admin_law [of w tok] assms by (simp add: rows_user_admin_def admin_row_def sole_owner_def)
  show "view w1 = view w" by (rule selects_view [OF sel])
  show "PQresultStatus res = PGRES_TUPLES_OK \<Longrightarrow> PQtuples res = [admin_row u]" by (rule selects_single [OF sel])
qed

lemma all_listed:
  assumes "PQresultStatus res = PGRES_TUPLES_OK" "PQtuples res = [admin_row u]" "ur_admin u" "db_ok (view w)"
    and up: "PQresultStatus (snd (e_exec E w SQL_list_all)) = PGRES_TUPLES_OK"
  shows "\<exists>w' qs. list_answer E (w, res) = Inr (w', ok_response (Res_ListContracts (map contract_view qs))) \<and>
    newest_50 (joined (view w)) qs"
proof -
  obtain w2 res2 where ex: "e_exec E w SQL_list_all = (w2, res2)" by fastforce
  have law: "lists view bytea_text w (w2, res2) (joined (view w))" using list_all_law [of w] ex by simp
  have st: "PQresultStatus res2 = PGRES_TUPLES_OK" using up ex by simp
  have n: "PQntuples res = 1" using assms(2) by (simp add: PQntuples_def)
  note cells = cell_of_single [OF assms(2)]
  from lists_contracts [OF assms(4) law subset_refl st] obtain qs where
    "newest_50 (joined (view w)) qs" "contracts_of_rows E res2 [0..<PQntuples res2] = Inr (map contract_view qs)" .
  with assms(1,3) n ex st show ?thesis
    by (auto simp: list_answer_def cells admin_row_def first_char_def bool_text_def)
qed

end

text \<open>The edit: the administrator gives the flag up and takes another name.\<close>

definition steps_down :: "edit_me_req \<Rightarrow> user_row \<Rightarrow> bool" where
  "steps_down r u \<longleftrightarrow> em_token r = ur_token u \<and> length (ur_token u) \<le> 128 \<and> regenerates r \<and> \<not> em_admin r \<and>
     (\<exists>n. em_username r = Some n \<and> take 64 n \<noteq> ur_username u)"

lemma fold_set_column_admin: "ur_admin (fold set_column cols u) = ur_admin u"
proof (induction cols arbitrary: u)
  case (Cons cv cols)
  have "ur_admin (set_column cv u) = ur_admin u" by (simp add: set_column_def Let_def)
  with Cons show ?case by simp
qed simp

lemma fold_set_column_username:
  assumes "\<forall>cv \<in> set cols. fst cv \<noteq> ''username''"
  shows "ur_username (fold set_column cols u) = ur_username u"
  using assms
proof (induction cols arbitrary: u)
  case (Cons cv cols)
  then have "ur_username (set_column cv u) = ur_username u" by (simp add: set_column_def Let_def)
  with Cons show ?case by simp
qed simp

lemma stepped_down:
  assumes "steps_down r u" "cs = column_values (edited_columns H r nt)"
  shows "\<not> ur_admin (update_user (em_admin r) cs u)" "ur_username (update_user (em_admin r) cs u) \<noteq> ur_username u"
proof -
  from assms(1) obtain n where n: "em_username r = Some n" "take 64 n \<noteq> ur_username u" "\<not> em_admin r"
    by (auto simp: steps_down_def)
  then show "\<not> ur_admin (update_user (em_admin r) cs u)" by (simp add: update_user_def fold_set_column_admin)
  define ds where "ds = column_values (opt_column ''password'' 128 (map_option H (em_password r)) @
    opt_column ''firstname'' 32 (em_firstName r) @ opt_column ''lastname'' 32 (em_lastName r) @ opt_column ''token'' 128 nt)"
  have cs: "cs = (''username'', take 64 n) # ds"
    by (simp add: assms(2) edited_columns_def n(1) opt_column_def column_values_def ds_def)
  have "\<forall>cv \<in> set ds. fst cv \<noteq> ''username''"
  proof
    fix cv
    assume "cv \<in> set ds"
    then have "fst cv \<in> {''password'', ''firstname'', ''lastname'', ''token''}"
      unfolding ds_def column_values_append set_append Un_iff column_values_opt by (elim disjE exE conjE) simp_all
    then show "fst cv \<noteq> ''username''" by auto
  qed
  then have "ur_username (update_user (em_admin r) cs u) = take 64 n"
    by (simp add: cs update_user_def fold_set_column_username) (simp add: set_column_def)
  with n(2) show "ur_username (update_user (em_admin r) cs u) \<noteq> ur_username u" by simp
qed

text \<open>A listing of everything, with the names after the edit, is the answer of no state: before it the
  name was another one, after it the user sees the own contracts only.\<close>

lemma mixed_listing_refuted:
  assumes db: "db_ok t" and u: "u \<in> set (users t)" "ur_token u = lc_token q" "with_token t (lc_token q) = [u]"
    and f: "f = (\<lambda>v. if ur_token v = ur_token u then update_user (em_admin r) cs v else v)"
    and down: "\<not> ur_admin (f u)" "ur_username (f u) \<noteq> ur_username u"
    and qs: "set qs = (\<lambda>(c, v). (c, f v)) ` set (joined t)"
    and c: "c \<in> set (contracts t)" "cr_user c = ur_id u" and d: "d \<in> set (contracts t)" "cr_user d \<noteq> ur_id u"
    and x: "x = t \<or> x = t\<lparr>users := map f (users t)\<rparr>"
  shows "\<not> listed (set (users x)) x q (ok_response (Res_ListContracts (map contract_view qs))) t'"
proof
  assume "listed (set (users x)) x q (ok_response (Res_ListContracts (map contract_view qs))) t'"
  then obtain v ps where v: "v \<in> set (users x)" "ur_token v = lc_token q"
    and ps: "newest_50 (if ur_admin v then joined x else joined_of_user (ur_id v) x) ps"
    "map contract_view qs = map contract_view ps"
    by (auto simp: listed_def refused_def ok_response_def error_response_def)
  note sub = newest_50_subset [OF ps(1)]
  then have joined: "set ps \<subseteq> set (joined x)" by (auto simp: joined_of_user_def split: if_splits)
  have sole: "y = u" if "y \<in> set (users t)" "ur_token y = lc_token q" for y
  proof -
    have "y \<in> set (with_token t (lc_token q))" using that by (simp add: with_token_def)
    then show ?thesis using u(3) by simp
  qed
  have entry: "\<exists>y. (k, y) \<in> set ps \<and> ur_username y = ur_username (f z)"
    if k: "k \<in> set (contracts t)" "z \<in> set (users t)" "cr_user k = ur_id z" for k z
  proof -
    from k have "(k, f z) \<in> set qs" by (auto simp: qs joined_mem)
    then have "contract_view (k, f z) \<in> set (map contract_view ps)" by (simp flip: ps(2))
    then obtain k' y where y: "(k', y) \<in> set ps" "contract_view (k, f z) = contract_view (k', y)" by auto
    with joined have "k' \<in> set (contracts x)" by (auto simp: joined_mem)
    then have "k' \<in> set (contracts t)" using x by auto
    from contract_view_row [OF db k(1) this y(2)] y(1) show ?thesis by auto
  qed
  show False
  proof (cases "x = t")
    case True
    from entry [OF c(1) u(1) c(2)] obtain y where y: "(c, y) \<in> set ps" "ur_username y = ur_username (f u)" by blast
    with joined True have "y \<in> set (users t)" "cr_user c = ur_id y" by (auto simp: joined_mem)
    with c(2) u(1) db have "y = u" by (auto simp: db_ok_def distinct_map dest: inj_onD)
    with y(2) down(2) show False by simp
  next
    case False
    with x v obtain v0 where v0: "v0 \<in> set (users t)" "v = f v0" by auto
    have "v0 = u" using sole [OF v0(1)] v0(2) v(2) u(2) by (auto simp: f split: if_splits)
    with v0(2) down(1) have v': "\<not> ur_admin v" "ur_id v = ur_id u" by (simp_all add: f)
    from d(1) db obtain z where z: "z \<in> set (users t)" "cr_user d = ur_id z" by (auto simp: db_ok_def)
    from entry [OF d(1) z] obtain y where "(d, y) \<in> set ps" by blast
    with sub v'(1) have "cr_user d = ur_id v" by (auto simp: joined_of_user_def)
    with v'(2) d(2) show False by simp
  qed
qed

text \<open>The execution: the second thread handles a request of one statement between the two of a listing.\<close>

lemma disturbed_listing_run:
  assumes start: "app_inv (stored_hash E salt) (view w)"
    and look_up: "e_execParams E w SQL_user_admin [lc_token q] = (w1, res)" "calls (Listing_user q res)"
    and other: "request_ok req" "\<not> two_statements req" "calls (Received req)" "dispatch E salt w1 req = Inr (w2, b)"
    and answer: "list_answer E (w2, res) = Inr (w3, a)"
  shows "\<exists>s s'. reaches (idle_start E salt view) (service_step E salt request_ok 2) s \<and> sv_inside s = {0} \<and>
    service_step E salt request_ok 2 s (0, Answer (Req_ListContracts q) (Some a)) s' \<and>
    set (sv_past s) = {w, w1} \<and> sv_world s = w2 \<and> sv_world s' = w3"
proof -
  define s1 where "s1 = sv_enter (sv_next (all_idle w) 0 w (Received (Req_ListContracts q))) 0"
  define s2 where "s2 = sv_next s1 0 w1 (Listing_user q res)"
  define s3 where "s3 = sv_enter (sv_next s2 1 w1 (Received req)) 1"
  define s4 where "s4 = sv_enter (sv_next s3 1 w2 Idle) 0"
  define s5 where "s5 = sv_next s4 0 w3 Idle"
  note s_defs = s1_def s2_def s3_def s4_def s5_def
  let ?start = "idle_start E salt view" and ?step = "service_step E salt request_ok 2"
  have "?start (all_idle w)" using start by (auto simp: idle_start_def)
  then have r0: "reaches ?start ?step (all_idle w)" by (rule reaches_start)
  have "?step (all_idle w) (0, Receive (Req_ListContracts q)) (sv_next (all_idle w) 0 w (Received (Req_ListContracts q)))"
    by (rule service_step) (simp_all add: thread_step.receive)
  with r0 have "reaches ?start ?step (sv_next (all_idle w) 0 w (Received (Req_ListContracts q)))" by (rule reaches_step)
  moreover have "?step (sv_next (all_idle w) 0 w (Received (Req_ListContracts q))) (0, Call) s1"
    unfolding s1_def by (rule service_call) simp_all
  ultimately have r1: "reaches ?start ?step s1" by (rule reaches_step)
  have "?step s1 (0, Look_up) s2"
    unfolding s2_def by (rule service_step) (simp_all add: s1_def look_up thread_step.list_look_up)
  with r1 have r2: "reaches ?start ?step s2" by (rule reaches_step)
  have "?step s2 (1, Receive req) (sv_next s2 1 w1 (Received req))"
    using other(1) by (intro service_step) (simp_all add: s2_def s1_def thread_step.receive)
  with r2 have "reaches ?start ?step (sv_next s2 1 w1 (Received req))" by (rule reaches_step)
  moreover have "?step (sv_next s2 1 w1 (Received req)) (1, Call) s3"
    unfolding s3_def using other(3) by (intro service_call) (simp_all add: s2_def s1_def)
  ultimately have r3: "reaches ?start ?step s3" by (rule reaches_step)
  have "?step s3 (1, Answer req b) (sv_next s3 1 w2 Idle)"
    using other by (intro service_step) (auto simp: s3_def s2_def s1_def thread_step.one_statement)
  with r3 have "reaches ?start ?step (sv_next s3 1 w2 Idle)" by (rule reaches_step)
  moreover have "?step (sv_next s3 1 w2 Idle) (0, Call) s4"
    unfolding s4_def using look_up(2) by (intro service_call) (simp_all add: s3_def s2_def s1_def)
  ultimately have r4: "reaches ?start ?step s4" by (rule reaches_step)
  have "?step s4 (0, Answer (Req_ListContracts q) (Some a)) s5"
    unfolding s5_def using answer
    by (intro service_step) (auto simp: s4_def s3_def s2_def s1_def with_response_def thread_step.list_answer)
  with r4 show ?thesis
    by (intro exI [of _ s4] exI [of _ s5]) (auto simp: s_defs)
qed

text \<open>Both together.\<close>

context tomtom_server
begin

lemma mixed_listing:
  assumes inv: "app_inv (stored_hash E salt) (view w)" and own: "sole_owner (view w) (lc_token q) u" "ur_admin u"
    and look_up: "e_execParams E w SQL_user_admin [lc_token q] = (w1, res)" "PQresultStatus res = PGRES_TUPLES_OK"
    and edit: "steps_down r u" "request_ok (Req_EditMe r)" "dispatch E salt w1 (Req_EditMe r) = Inr (w2, Some b)" "\<not> r_error b"
    and up: "PQresultStatus (snd (e_exec E w2 SQL_list_all)) = PGRES_TUPLES_OK"
    and few: "length (joined (view w)) \<le> 50"
    and c: "c \<in> set (contracts (view w))" "cr_user c = ur_id u"
    and d: "d \<in> set (contracts (view w))" "cr_user d \<noteq> ur_id u"
  shows "\<exists>s s' a. reaches (idle_start E salt view) (service_step E salt request_ok 2) s \<and> sv_inside s = {0} \<and>
    service_step E salt request_ok 2 s (0, Answer (Req_ListContracts q) (Some a)) s' \<and>
    (\<forall>x \<in> set (sv_past s @ [sv_world s]). \<forall>t'. \<not> serves (stored_hash E salt) float_text (view x) (Req_ListContracts q) a t')"
proof -
  let ?H = "stored_hash E salt"
  note found = admin_looked_up [OF look_up(1) own(1)]
  note u = sole_ownerD [OF own(1)]
  have "db_ok (view w1)" using inv found(2) by (simp add: app_inv_def)
  from dispatch_serves [OF this edit(2,3)] edit(4) found(2) obtain nt where
    e: "view w2 = edit_effect ?H r nt (view w)" by (auto simp: refused_def error_response_def)
  define cs where "cs = column_values (edited_columns ?H r nt)"
  define f where "f = (\<lambda>v. if ur_token v = ur_token u then update_user (em_admin r) cs v else v)"
  have v2: "view w2 = (view w)\<lparr>users := map f (users (view w))\<rparr>"
    using edit(1) by (simp add: e edit_effect_def update_users_def steps_down_def f_def cs_def)
  have db: "db_ok (view w)" "db_ok (view w2)"
    using inv dispatch_inv [OF _ edit(2,3)] found(2) by (simp_all add: app_inv_def)
  from all_listed [OF look_up(2) found(1) [OF look_up(2)] own(2) db(2) up] obtain w3 qs where
    l: "list_answer E (w2, res) = Inr (w3, ok_response (Res_ListContracts (map contract_view qs)))"
    "newest_50 (joined (view w2)) qs" by blast
  let ?a = "ok_response (Res_ListContracts (map contract_view qs))"
  have "set qs = (\<lambda>(c, v). (c, f v)) ` set (joined (view w))"
    using newest_50_all [OF l(2)] few joined_map_users [of f] by (simp add: v2 f_def)
  moreover have "\<not> ur_admin (f u)" "ur_username (f u) \<noteq> ur_username u"
    using stepped_down [OF edit(1) cs_def] by (simp_all add: f_def)
  ultimately have no: "\<not> serves ?H float_text (view x) (Req_ListContracts q) ?a t'" if "view x = view w \<or> x = w2" for x t'
    unfolding serves_listed using that u own(1) db(1) c d
    by (intro mixed_listing_refuted [OF _ _ _ _ f_def]) (auto simp: v2 sole_owner_def)
  have enters: "calls (Listing_user q res)"
    using look_up(2) found(1) by (simp add: PQntuples_def)
  from disturbed_listing_run [where view = view, OF inv look_up(1) enters edit(2) _ _ edit(3) l(1)] obtain s s' where
    run: "reaches (idle_start E salt view) (service_step E salt request_ok 2) s" "sv_inside s = {0}"
    "service_step E salt request_ok 2 s (0, Answer (Req_ListContracts q) (Some ?a)) s'"
    "set (sv_past s) = {w, w1}" "sv_world s = w2" by auto
  have "\<not> serves ?H float_text (view x) (Req_ListContracts q) ?a t'" if "x \<in> set (sv_past s @ [sv_world s])" for x t'
  proof (rule no)
    show "view x = view w \<or> x = w2" using that run(4,5) found(2) by auto
  qed
  with run(1-3) show ?thesis by blast
qed

end

section \<open>States for the witnesses\<close>

definition carol :: user_row where
  "carol = alice\<lparr>ur_id := 2, ur_username := ''carol'', ur_token := b64_loop (replicate 32 2)\<rparr>"

definition small_contract :: "nat \<Rightarrow> nat \<Rightarrow> contract_row" where
  "small_contract i user = \<lparr>cr_id = i, cr_name = ''roof'', cr_description = None, cr_price = ''5'',
     cr_attachment = None, cr_status = 1, cr_user = user, cr_created_at = i\<rparr>"

definition ref_admin :: ref_world where
  "ref_admin = ref_alice\<lparr>rf_tables := \<lparr>users = [alice\<lparr>ur_admin := True\<rparr>, carol],
     contracts = [small_contract 1 1, small_contract 2 2]\<rparr>\<rparr>"

definition retreat :: edit_me_req where
  "retreat = \<lparr>em_username = Some ''alicia'', em_password = None, em_firstName = None, em_lastName = None,
     em_admin = False, em_token = ur_token alice\<rparr>"

lemma other_token: "ur_token carol \<noteq> ur_token alice"
  by (simp add: carol_def alice_def)

lemma ref_admin_ok: "app_inv (stored_hash ref_env ''weak'') (rf_tables ref_admin)"
proof -
  have a: "user_row_ok alice" "hygienic (stored_hash ref_env ''weak'') alice"
    using alice_ok by (simp_all add: app_inv_def db_ok_def)
  have t: "length (ur_token carol) = 44" "cstr (ur_token carol)" "fresh_token (ur_token carol)"
    by (auto simp: carol_def length_b64_loop b64_loop_safe fresh_token_def)
  have "user_row_ok carol"
    using a t char_count_le [of "ur_token carol"]
    by (simp add: user_row_ok_def) (simp add: carol_def alice_def char_count_def continuation_byte_def)
  moreover have "hygienic (stored_hash ref_env ''weak'') carol"
    using a(2) t(3) by (simp add: hygienic_def) (simp add: carol_def)
  moreover have "user_row_ok (alice\<lparr>ur_admin := True\<rparr>)" "hygienic (stored_hash ref_env ''weak'') (alice\<lparr>ur_admin := True\<rparr>)"
    using a by (simp_all add: user_row_ok_def hygienic_def)
  moreover have "distinct (map ur_id [alice, carol])" "distinct (map ur_username [alice, carol])"
    "ur_id alice = 1" "ur_id carol = 2" by (simp_all add: alice_def carol_def)
  ultimately show ?thesis
    by (simp add: app_inv_def db_ok_def ref_admin_def small_contract_def contract_row_ok_def
        char_count_def continuation_byte_def)
qed

text \<open>What the theorem asks of this world.\<close>

lemma ref_admin_setting:
  "sole_owner (rf_tables ref_admin) (ur_token alice) (alice\<lparr>ur_admin := True\<rparr>)"
  "steps_down retreat (alice\<lparr>ur_admin := True\<rparr>)" "request_ok (Req_EditMe retreat)"
  "length (joined (rf_tables ref_admin)) \<le> 50"
  "distinct (map ur_username (users (edit_effect H retreat nt (rf_tables ref_admin))))"
proof -
  have t: "length (ur_token alice) = 44" "cstr (ur_token alice)"
    by (simp_all add: alice_def length_b64_loop b64_loop_safe)
  show "sole_owner (rf_tables ref_admin) (ur_token alice) (alice\<lparr>ur_admin := True\<rparr>)"
    using other_token by (simp add: sole_owner_def with_token_def ref_admin_def)
  show "steps_down retreat (alice\<lparr>ur_admin := True\<rparr>)"
    using t by (simp add: steps_down_def retreat_def regenerates_def) (simp add: alice_def)
  show "request_ok (Req_EditMe retreat)" using t by (simp add: retreat_def cstr_def)
  show "length (joined (rf_tables ref_admin)) \<le> 50"
    by (simp add: joined_def ref_admin_def small_contract_def alice_def carol_def)
  define cs where "cs = column_values (edited_columns H retreat nt)"
  have cs: "cs = (''username'', ''alicia'') # column_values (opt_column ''token'' 128 nt)"
    by (simp add: cs_def edited_columns_def opt_column_def column_values_def retreat_def)
  have "ur_username (update_user a cs u) = ''alicia''" for a u
    by (cases nt) (simp_all add: cs update_user_def set_column_def opt_column_def column_values_def)
  then show "distinct (map ur_username (users (edit_effect H retreat nt (rf_tables ref_admin))))"
    using other_token t(1)
    by (simp add: edit_effect_def update_users_def flip: cs_def) (simp add: ref_admin_def retreat_def carol_def)
qed

definition list_own :: list_contracts_req where
  "list_own = \<lparr>lc_token = ur_token alice\<rparr>"

lemma list_own_owner: "sole_owner (rf_tables ref_admin) (lc_token list_own) (alice\<lparr>ur_admin := True\<rparr>)"
  using ref_admin_setting(1) by (simp add: list_own_def)

lemma small_contracts:
  "small_contract 1 1 \<in> set (contracts (rf_tables ref_admin))" "small_contract 2 2 \<in> set (contracts (rf_tables ref_admin))"
  "cr_user (small_contract 1 1) = ur_id (alice\<lparr>ur_admin := True\<rparr>)"
  "cr_user (small_contract 2 2) \<noteq> ur_id (alice\<lparr>ur_admin := True\<rparr>)"
  by (simp_all add: ref_admin_def small_contract_def alice_def)

lemma alice_steps_down:
  "\<exists>w2 b. dispatch ref_env ''weak'' ref_admin (Req_EditMe retreat) = Inr (w2, Some b) \<and> \<not> r_error b"
proof -
  from ref_edits [OF ref_admin_setting(3,5), of "''weak''"] obtain ls wl w' where
    "literals ref_env ref_admin (edit_columns ref_env ''weak'' retreat (edit_new_token ref_env ref_admin retreat)) = Some ls"
    "e_escapeLiteral ref_env ref_admin (em_token retreat) 128 = Some wl"
    "e_exec ref_env (edit_world ref_env ref_admin retreat) (update_text (em_admin retreat) ls wl) =
      (w', rf_result PGRES_COMMAND_OK [])" by blast
  from ref.edit_executed(1) [OF ref_admin_setting(3) this] show ?thesis
    by (simp add: with_response_def edit_reply_def rf_result_def edit_new_token_def regenerates_def retreat_def b64_loop_safe)
qed

lemma alice_found:
  obtains res where "e_execParams ref_env ref_admin SQL_user_admin [lc_token list_own] = (ref_admin, res)"
    "PQresultStatus res = PGRES_TUPLES_OK"
proof -
  have "e_execParams ref_env ref_admin SQL_user_admin [lc_token list_own] =
      (ref_admin, rf_result PGRES_TUPLES_OK (rows_user_admin (lc_token list_own) (rf_tables ref_admin)))"
    by (simp only: ref_env_simps rf_params_one) (simp add: rf_select_def)
  with that show thesis by (simp add: rf_result_def)
qed

lemma all_listed_status: "PQresultStatus (snd (e_exec ref_env w SQL_list_all)) = PGRES_TUPLES_OK"
  by (simp add: rf_exec_list_all)

lemma disturbed_run:
  "\<exists>s s' a. reaches (idle_start ref_env ''weak'' rf_tables) (service_step ref_env ''weak'' request_ok 2) s \<and> sv_inside s = {0} \<and>
    service_step ref_env ''weak'' request_ok 2 s (0, Answer (Req_ListContracts list_own) (Some a)) s'"
proof -
  have adm: "ur_admin (alice\<lparr>ur_admin := True\<rparr>)" by simp
  obtain res where res: "e_execParams ref_env ref_admin SQL_user_admin [lc_token list_own] = (ref_admin, res)"
    "PQresultStatus res = PGRES_TUPLES_OK" by (rule alice_found)
  from alice_steps_down obtain w2 b where "dispatch ref_env ''weak'' ref_admin (Req_EditMe retreat) = Inr (w2, Some b)" "\<not> r_error b"
    by blast
  from ref.mixed_listing [OF ref_admin_ok list_own_owner adm res ref_admin_setting(2,3) this all_listed_status
      ref_admin_setting(4) small_contracts(1,3,2,4)]
  show ?thesis by blast
qed

section \<open>Properties\<close>

text \<open>The steps of an undisturbed thread are the handler of its request.\<close>

theorem undisturbed_dispatch: "undisturbed E salt w req a w' \<longleftrightarrow> dispatch E salt w req = Inr (w', a)"
proof (cases "two_statements req")
  case False
  then show ?thesis unfolding undisturbed_def
    by (auto elim!: step_cases intro: thread_step.intros)
next
  case True
  then consider r where "req = Req_RequestContract r" | r where "req = Req_ListContracts r"
    by (cases req) auto
  then show ?thesis
  proof cases
    case 1
    obtain w1 res where "e_execParams E w SQL_user_by_token [rc_token r] = (w1, res)" by fastforce
    with 1 show ?thesis unfolding undisturbed_def
      by (auto simp: request_contract_def elim!: step_cases intro!: thread_step.intros exI)
  next
    case 2
    obtain w1 res where "e_execParams E w SQL_user_admin [lc_token r] = (w1, res)" by fastforce
    with 2 show ?thesis unfolding undisturbed_def
      by (auto simp: list_contracts_def elim!: step_cases intro!: thread_step.intros exI)
  qed
qed

text \<open>C5: under every interleaving of the statements of any number of threads in which no two of them are inside
  the client library at once, and in which no request has a quote in its login or contract name, a login
  name over 8000 bytes or a contract name over 1000000 (\<open>request_ok\<close>): the constraints of the schema hold,
  every stored password is a hash and every stored token comes from the generator.\<close>

theorem interleaved_data_invariant:
  assumes "tomtom_server E view bytea_text float_text"
    and "reaches (idle_start E salt view) (service_step E salt request_ok n) s" "\<not> overlap s"
  shows "app_inv (stored_hash E salt) (view (sv_world s))"
  using tomtom_server.threads_reach_inv [OF assms(1,2)] by (simp add: tomtom_server.service_inv_def [OF assms(1)])

theorem interleaved_data_invariant_witness:
  "\<exists>s. reaches (idle_start ref_env ''weak'' rf_tables) (service_step ref_env ''weak'' request_ok 2) s \<and> sv_past s \<noteq> [] \<and>
    app_inv (stored_hash ref_env ''weak'') (rf_tables (sv_world s))"
proof -
  from disturbed_run obtain s s' a where
    r: "reaches (idle_start ref_env ''weak'' rf_tables) (service_step ref_env ''weak'' request_ok 2) s" "sv_inside s = {0}"
    "service_step ref_env ''weak'' request_ok 2 s (0, Answer (Req_ListContracts list_own) (Some a)) s'" by blast
  from r(1,3) have "reaches (idle_start ref_env ''weak'' rf_tables) (service_step ref_env ''weak'' request_ok 2) s'" by (rule reaches_step)
  moreover have "sv_past s' \<noteq> []" "\<not> overlap s'" using r(2,3) by (auto elim!: service_stepE simp: overlap_def)
  ultimately show ?thesis using interleaved_data_invariant [OF ref.tomtom_server_axioms] by blast
qed

text \<open>C4: when the statements of any number of threads are interleaved in any way, provided that no two threads are
  inside the client library at once and that every request keeps the bounds of \<open>request_ok\<close> (C strings, no quote in a login or
  contract name, at most 8000 and 1000000 bytes there), an answer that a thread gives is allowed by the specification in the state
  in which it is given; only the user of a contract request or of a listing may be the one of an earlier state.\<close>

theorem interleaved_answers:
  assumes "tomtom_server E view bytea_text float_text"
    and "reaches (idle_start E salt view) (service_step E salt request_ok n) s" "\<not> overlap s"
    and "service_step E salt request_ok n s (i, Answer req (Some a)) s'"
  shows "serves_since (stored_hash E salt) float_text (view ` set (sv_past s)) (view (sv_world s)) req a (view (sv_world s'))"
  using assms(4)
proof cases
  case (service_step w th)
  from tomtom_server.answer_serves [OF assms(1) tomtom_server.threads_reach_inv [OF assms(1,2)] service_step(3)]
  show ?thesis using service_step(1) by simp
qed

theorem interleaved_answers_witness:
  "\<exists>s s' a. service_step ref_env ''weak'' request_ok 2 s (0, Answer (Req_ListContracts list_own) (Some a)) s' \<and>
    serves_since (stored_hash ref_env ''weak'') (\<lambda>s. s) (rf_tables ` set (sv_past s)) (rf_tables (sv_world s))
      (Req_ListContracts list_own) a (rf_tables (sv_world s'))"
proof -
  from disturbed_run obtain s s' a where
    r: "reaches (idle_start ref_env ''weak'' rf_tables) (service_step ref_env ''weak'' request_ok 2) s" "sv_inside s = {0}"
    "service_step ref_env ''weak'' request_ok 2 s (0, Answer (Req_ListContracts list_own) (Some a)) s'" by blast
  from r(2) have "\<not> overlap s" by (simp add: overlap_def)
  from interleaved_answers [OF ref.tomtom_server_axioms r(1) this r(3)] r(3) show ?thesis by blast
qed




end
