(* ===== verification/Memory.thy ===== *)
theory Memory
  imports Processing
begin

text \<open>
  The heap blocks of a request: every allocation, use and release of the handlers in
  \<open>src/backend/src/api\<close> and of the session in \<open>src/backend/src/main.c\<close>, as sequences of events in the
  order of the code. A block is named after the variable that holds it; what a pointer into a block
  reads is a use of that block. A pointer is null, live, or dangling after the release of its block, until it
  is set again. The results of the statements, which decide the branches, are parameters.
\<close>

section \<open>Events\<close>

datatype block =
    Data | Out_data \<comment> \<open>\<open>pss->data\<close>, \<open>pss->out_data\<close>\<close>
  | Query | Result | Builder | Out_buf
  | Pwd_hash | Pwd_hash_encoded | Hash_text | Access_token | Token_encoded | New_token | Escaped_old_token
  | Username | First_name | Last_name | User_id | Id_str | Description_esc | Escaped | Unescaped

datatype mem_event =
    Alloc block
  | Use block
  | Free block
  | Free_or_null block \<comment> \<open>\<open>free\<close> of a pointer that may be null\<close>
  | Set_null block
  | Hand_over \<comment> \<open>\<open>pss->out_data = out_buf\<close>\<close>

datatype mem_fault =
    Lost block \<comment> \<open>the only pointer to a live block is overwritten\<close>
  | Bad_use block
  | Bad_free block

datatype pointer = Null | Live | Dangling_pointer

type_synonym mem = "block \<Rightarrow> pointer"

fun mem_step :: "mem_event \<Rightarrow> mem \<Rightarrow> mem_fault + mem" where
  "mem_step (Alloc v) m = (if m v = Live then Inl (Lost v) else Inr (m(v := Live)))"
| "mem_step (Use v) m = (if m v = Live then Inr m else Inl (Bad_use v))"
| "mem_step (Free v) m = (if m v = Live then Inr (m(v := Dangling_pointer)) else Inl (Bad_free v))"
| "mem_step (Free_or_null v) m =
     (case m v of Null \<Rightarrow> Inr m | Live \<Rightarrow> Inr (m(v := Dangling_pointer)) | Dangling_pointer \<Rightarrow> Inl (Bad_free v))"
| "mem_step (Set_null v) m = (if m v = Live then Inl (Lost v) else Inr (m(v := Null)))"
| "mem_step Hand_over m =
     (if m Out_buf \<noteq> Live then Inl (Bad_use Out_buf)
      else if m Out_data = Live then Inl (Lost Out_data)
      else Inr (m(Out_data := Live, Out_buf := Null)))"

fun mem_run :: "mem_event list \<Rightarrow> mem \<Rightarrow> mem_fault + mem" where
  "mem_run [] m = Inr m"
| "mem_run (e # es) m = (case mem_step e m of Inl f \<Rightarrow> Inl f | Inr m' \<Rightarrow> mem_run es m')"

lemma mem_run_append:
  "mem_run (es @ fs) m = (case mem_run es m of Inl f \<Rightarrow> Inl f | Inr m' \<Rightarrow> mem_run fs m')"
  by (induction es arbitrary: m) (auto split: sum.splits)

section \<open>Live blocks\<close>

text \<open>A handler tests no pointer: which of its events fail, and what is live after them, depends on the live
  blocks only.\<close>

definition live :: "mem \<Rightarrow> block set" where
  "live m = {v. m v = Live}"

fun live_step :: "mem_event \<Rightarrow> block set \<Rightarrow> block set option" where
  "live_step (Alloc v) L = (if v \<in> L then None else Some (insert v L))"
| "live_step (Use v) L = (if v \<in> L then Some L else None)"
| "live_step (Free v) L = (if v \<in> L then Some (L - {v}) else None)"
| "live_step Hand_over L =
     (if Out_buf \<notin> L \<or> Out_data \<in> L then None else Some (insert Out_data (L - {Out_buf})))"
| "live_step _ L = None"

fun live_run :: "mem_event list \<Rightarrow> block set \<Rightarrow> block set option" where
  "live_run [] L = Some L"
| "live_run (e # es) L = Option.bind (live_step e L) (live_run es)"

lemma live_run_append: "live_run (es @ fs) L = Option.bind (live_run es L) (live_run fs)"
proof (induction es arbitrary: L)
  case (Cons e es)
  then show ?case by (cases "live_step e L") simp_all
qed simp

text \<open>Events that leave the pointers of the session alone, but for the answer.\<close>

fun local_event :: "mem_event \<Rightarrow> bool" where
  "local_event (Alloc v) \<longleftrightarrow> v \<noteq> Data \<and> v \<noteq> Out_data"
| "local_event (Free v) \<longleftrightarrow> v \<noteq> Data \<and> v \<noteq> Out_data"
| "local_event (Free_or_null v) \<longleftrightarrow> False"
| "local_event (Set_null v) \<longleftrightarrow> False"
| "local_event _ \<longleftrightarrow> True"

lemma live_step_mem:
  assumes "live_step e (live m) = Some L" "local_event e"
  shows "\<exists>m'. mem_step e m = Inr m' \<and> live m' = L \<and> m' Data = m Data \<and> (Out_data \<notin> L \<longrightarrow> m' Out_data = m Out_data)"
  using assms by (cases e) (auto simp: live_def split: if_splits)

lemma live_run_mem:
  assumes "live_run es (live m) = Some L" "list_all local_event es"
  shows "\<exists>m'. mem_run es m = Inr m' \<and> live m' = L \<and> m' Data = m Data \<and> (Out_data \<notin> L \<longrightarrow> m' Out_data = m Out_data)"
  using assms
proof (induction es arbitrary: m)
  case (Cons e es)
  from Cons.prems obtain L1 where L1: "live_step e (live m) = Some L1" "live_run es L1 = Some L"
    by (auto simp: bind_eq_Some_conv)
  from live_step_mem [OF L1(1)] Cons.prems(2) obtain m1 where
    m1: "mem_step e m = Inr m1" "live m1 = L1" "m1 Data = m Data" "Out_data \<notin> L1 \<longrightarrow> m1 Out_data = m Out_data"
    by auto
  from Cons.IH [of m1] L1(2) m1 Cons.prems(2) obtain m' where
    m': "mem_run es m1 = Inr m'" "live m' = L" "m' Data = m1 Data" "Out_data \<notin> L \<longrightarrow> m' Out_data = m1 Out_data"
    by auto
  have "Out_data \<in> L1 \<Longrightarrow> Out_data \<in> L"
  proof -
    have "live_step f K = Some K' \<Longrightarrow> local_event f \<Longrightarrow> Out_data \<in> K \<Longrightarrow> Out_data \<in> K'" for f K K'
      by (cases f) (auto split: if_splits)
    then have "live_run fs K = Some K' \<Longrightarrow> list_all local_event fs \<Longrightarrow> Out_data \<in> K \<Longrightarrow> Out_data \<in> K'" for fs K K'
      by (induction fs arbitrary: K) (fastforce simp: bind_eq_Some_conv)+
    then show "Out_data \<in> L1 \<Longrightarrow> Out_data \<in> L" using L1(2) Cons.prems(2) by simp
  qed
  with m1 m' show ?case by auto
qed simp

section \<open>The handlers\<close>

text \<open>Fragments that several handlers share: the texts and numbers of a row, the error answer, the
  finished buffer. Reading a field of the message is a use of \<open>Data\<close>.\<close>

abbreviation text_cell_mem :: "mem_event list" where
  "text_cell_mem \<equiv> [Use Result, Use Result, Use Builder, Use Builder]"

abbreviation number_cell_mem :: "mem_event list" where
  "number_cell_mem \<equiv> [Use Result, Use Result, Use Builder]"

abbreviation db_error_mem :: "mem_event list" where
  "db_error_mem \<equiv> [Use Builder, Use Result, Use Builder]"

abbreviation finish_mem :: "mem_event list" where
  "finish_mem \<equiv> [Use Builder, Alloc Out_buf]"

definition login_mem :: "pgresult \<Rightarrow> mem_event list" where
  "login_mem res =
     [Use Data, Use Data, Alloc Pwd_hash, Use Data, Use Pwd_hash, Use Pwd_hash, Alloc Pwd_hash_encoded,
      Alloc Query, Use Query, Use Data, Use Pwd_hash_encoded, Use Query, Alloc Result,
      Alloc Builder, Use Builder, Use Result] @
     (if PQresultStatus res \<noteq> PGRES_TUPLES_OK then [Use Builder, Use Builder]
      else Use Result #
        (if PQntuples res \<le> 0 then [Use Builder, Use Builder]
         else [Use Result, Use Builder, Use Result, Use Builder, Use Builder, Use Builder])) @
     [Use Builder] @ finish_mem @
     [Free Result, Free Pwd_hash, Free Pwd_hash_encoded, Free Builder, Hand_over]"

definition constraint_error_mem :: "pgresult \<Rightarrow> mem_event list" where
  "constraint_error_mem res =
     [Use Builder, Use Result] @ (if PQconstraintName res \<noteq> None then [Use Builder] else [Use Result, Use Builder])"

definition register_mem :: "pgresult \<Rightarrow> mem_event list" where
  "register_mem res =
     [Use Data, Use Data, Use Data, Use Data, Alloc Access_token, Use Access_token, Use Access_token, Alloc Token_encoded,
      Alloc Pwd_hash, Use Data, Use Pwd_hash, Use Pwd_hash, Alloc Pwd_hash_encoded,
      Use Data, Use Pwd_hash_encoded, Use Token_encoded, Alloc Result, Alloc Builder, Use Builder, Use Result] @
     (if PQresultStatus res \<noteq> PGRES_COMMAND_OK then constraint_error_mem res
      else [Use Builder, Use Token_encoded, Use Builder, Use Builder, Use Builder]) @
     [Use Builder] @ finish_mem @
     [Free Result, Free Access_token, Free Token_encoded, Free Pwd_hash, Free Pwd_hash_encoded, Free Builder,
      Hand_over]"

definition get_me_mem :: "pgresult \<Rightarrow> mem_event list" where
  "get_me_mem res =
     [Use Data, Use Data, Alloc Result, Alloc Builder, Use Builder, Use Result] @
     (if PQresultStatus res \<noteq> PGRES_TUPLES_OK then db_error_mem
      else Use Result #
        (if PQntuples res \<le> 0 then [Use Builder, Use Builder]
         else [Use Builder, Use Result, Use Builder, Use Result, Use Builder, Use Result, Use Builder,
               Use Result, Use Builder, Use Result, Use Builder, Use Builder])) @
     [Use Builder] @ finish_mem @ [Free Result, Free Builder, Hand_over]"

text \<open>One optional column of \<open>edit_me\<close>: its literal is written to the query and released.\<close>

definition edit_field_mem :: "block \<Rightarrow> string option \<Rightarrow> mem_event list" where
  "edit_field_mem v field =
     Use Data # (if field = None then [] else [Use Data, Alloc v, Use Query, Use v, Use Query, Free v])"

definition edit_password_mem :: "string option \<Rightarrow> mem_event list" where
  "edit_password_mem password =
     Use Data #
     (if password = None then []
      else [Use Data, Alloc Pwd_hash, Use Data, Use Pwd_hash, Use Pwd_hash, Alloc Hash_text,
            Use Hash_text, Alloc Pwd_hash_encoded,
            Use Query, Use Pwd_hash_encoded, Use Query, Free Pwd_hash, Free Pwd_hash_encoded])"

definition edit_token_mem :: "bool \<Rightarrow> mem_event list" where
  "edit_token_mem regenerate_token =
     (if regenerate_token then
        [Alloc Access_token, Use Access_token, Use Access_token, Alloc New_token, Use New_token, Alloc Token_encoded,
         Use Query, Use Token_encoded, Use Query, Free Access_token, Free Token_encoded]
      else [Alloc New_token, Use Data, Use New_token])"

definition edit_me_mem :: "edit_me_req \<Rightarrow> pgresult \<Rightarrow> mem_event list" where
  "edit_me_mem r res =
     [Use Data, Alloc Query, Use Query, Use Data, Use Query] @
     edit_field_mem Username (em_username r) @
     edit_password_mem (em_password r) @
     edit_field_mem First_name (em_firstName r) @
     edit_field_mem Last_name (em_lastName r) @
     edit_token_mem (em_username r \<noteq> None \<or> em_password r \<noteq> None) @
     [Use Data, Alloc Escaped_old_token, Use Query, Use Escaped_old_token, Use Query, Free Escaped_old_token,
      Use Query, Alloc Result, Free Query, Alloc Builder, Use Builder, Use Result] @
     (if PQresultStatus res \<noteq> PGRES_COMMAND_OK then constraint_error_mem res
      else [Use Builder, Use New_token, Use Builder, Use Builder, Use Builder]) @
     [Use Builder] @ finish_mem @ [Free Result, Free New_token, Free Builder, Hand_over]"

text \<open>One contract of a result, written to the builder.\<close>

definition row_mem :: "pgresult \<Rightarrow> nat \<Rightarrow> mem_event list" where
  "row_mem res i =
     [Use Builder] @ text_cell_mem @
     [Use Result] @ (if PQgetisnull res i 1 then [] else text_cell_mem) @
     number_cell_mem @
     [Use Result] @
     (if PQgetisnull res i 3 then []
      else [Use Result, Use Result, Alloc Unescaped, Use Unescaped, Use Builder, Use Builder, Free Unescaped]) @
     number_cell_mem @ number_cell_mem @ number_cell_mem @
     [Use Builder] @ text_cell_mem @ text_cell_mem @ text_cell_mem @ [Use Builder, Use Builder, Use Builder]"

definition check_contract_mem :: "pgresult \<Rightarrow> mem_event list" where
  "check_contract_mem res =
     [Alloc Id_str, Use Data, Use Id_str, Use Id_str, Alloc Result, Alloc Builder, Use Builder, Use Result] @
     (if PQresultStatus res \<noteq> PGRES_TUPLES_OK then
        db_error_mem @ [Use Builder] @ finish_mem @ [Free Result, Free Builder, Free Id_str, Hand_over]
      else Use Result #
        (if PQntuples res \<le> 0 then
           [Use Builder, Use Builder, Use Builder] @ finish_mem @ [Free Result, Free Builder, Free Id_str, Hand_over]
         else row_mem res 0 @ [Use Builder, Use Builder] @ finish_mem @
           [Free Result, Free Builder, Free Id_str, Hand_over]))"

definition list_contracts_mem :: "pgresult \<Rightarrow> pgresult \<Rightarrow> mem_event list" where
  "list_contracts_mem res res2 =
     [Use Data, Use Data, Alloc Result, Alloc Builder, Use Builder, Use Result] @
     (if PQresultStatus res \<noteq> PGRES_TUPLES_OK then
        db_error_mem @ [Use Builder] @ finish_mem @ [Free Result, Free Builder, Hand_over]
      else Use Result #
        (if PQntuples res \<le> 0 then
           [Use Builder, Use Builder, Use Builder] @ finish_mem @ [Free Result, Free Builder, Hand_over]
         else
           [Alloc User_id, Use Result, Use User_id, Use Result, Use Result] @
           (if map_option first_char (PQgetvalue res 0 1) = Some (CHR ''t'') then [Free Result, Alloc Result]
            else [Free Result, Use User_id, Alloc Result]) @
           [Free User_id, Use Result] @
           (if PQresultStatus res2 \<noteq> PGRES_TUPLES_OK then
              db_error_mem @ [Use Builder] @ finish_mem @ [Free Result, Free Builder, Hand_over]
            else
              [Use Builder, Use Result] @
              concat (map (\<lambda>i. row_mem res2 i @ [Use Builder]) [0..<PQntuples res2]) @
              [Use Builder, Use Builder, Use Builder, Use Builder] @ finish_mem @
              [Free Result, Free Builder, Hand_over])))"

text \<open>The optional parts of the statement of \<open>request_contract\<close>.\<close>

definition description_mem :: "string option \<Rightarrow> mem_event list" where
  "description_mem d =
     Use Data #
     (if d = None then [Use Query]
      else [Use Data, Use Data, Alloc Description_esc, Use Query, Use Description_esc, Use Query, Free Description_esc])"

definition attachment_mem :: "u8 list option \<Rightarrow> mem_event list" where
  "attachment_mem a =
     Use Data # (if a = None then [] else [Use Data, Use Data]) @
     (if used_attachment a = None then [Use Query]
      else [Use Query, Use Data, Alloc Escaped, Use Escaped, Use Query, Use Query, Free Escaped])"

definition stored_mem :: "request_contract_req \<Rightarrow> mem_event list" where
  "stored_mem r =
     [Use Builder, Use Builder] @ number_cell_mem @ [Use Data, Use Builder, Use Builder] @
     (if rc_description r = None then [] else [Use Data, Use Builder, Use Builder]) @
     [Use Builder] @
     (if used_attachment (rc_attachment r) = None then [] else [Use Data, Use Builder, Use Builder]) @
     [Use Builder, Use Builder, Use Builder, Use Username, Use Builder, Use Builder, Use First_name, Use Builder,
      Use Builder, Use Last_name, Use Builder, Use Builder, Use Builder, Use Builder, Use Builder, Use Builder, Use Builder]"

definition request_contract_mem :: "request_contract_req \<Rightarrow> pgresult \<Rightarrow> pgresult \<Rightarrow> mem_event list" where
  "request_contract_mem r res res2 =
     [Use Data, Use Data, Alloc Result, Alloc Builder, Use Builder, Use Result] @
     (if PQresultStatus res \<noteq> PGRES_TUPLES_OK then
        db_error_mem @ [Use Builder] @ finish_mem @ [Free Result, Free Builder, Hand_over]
      else Use Result #
        (if PQntuples res \<le> 0 then
           [Use Builder, Use Builder, Use Builder] @ finish_mem @ [Free Result, Free Builder, Hand_over]
         else
           [Use Data, Use Data, Use Result, Alloc Username, Use Result, Use Username, Alloc First_name, Use Result,
            Use First_name, Alloc Last_name, Use Result, Use Last_name] @
           (if is_negative (rc_price r) then
              [Use Builder, Use Builder, Use Builder, Free Username, Free First_name, Free Last_name] @ finish_mem @
              [Free Result, Free Builder, Hand_over]
            else
              [Alloc Query, Use Query, Use Query, Use Data, Use Query, Use Query] @
              description_mem (rc_description r) @ [Use Query, Use Query] @ attachment_mem (rc_attachment r) @
              [Use Query, Use Result, Use Query, Use Query, Use Query, Use Query,
               Free Result, Use Query, Alloc Result, Use Result] @
              (if PQresultStatus res2 \<noteq> PGRES_TUPLES_OK then db_error_mem else stored_mem r) @
              [Use Builder, Free Query] @ finish_mem @
              [Free Result, Free Builder, Free Username, Free First_name, Free Last_name, Hand_over])))"

fun handler_mem :: "request \<Rightarrow> pgresult \<Rightarrow> pgresult \<Rightarrow> mem_event list" where
  "handler_mem (Req_Login r) res res2 = login_mem res"
| "handler_mem (Req_Register r) res res2 = register_mem res"
| "handler_mem (Req_GetMe r) res res2 = get_me_mem res"
| "handler_mem (Req_EditMe r) res res2 = edit_me_mem r res"
| "handler_mem (Req_RequestContract r) res res2 = request_contract_mem r res res2"
| "handler_mem (Req_ListContracts r) res res2 = list_contracts_mem res res2"
| "handler_mem (Req_CheckContract r) res res2 = check_contract_mem res"
| "handler_mem (Req_Other n) res res2 = []"

section \<open>The session\<close>

text \<open>\<open>process\<close> with a body that does not verify, or with a request; the callbacks of \<open>http_callback\<close>.\<close>

definition process_mem :: "request option \<Rightarrow> pgresult \<Rightarrow> pgresult \<Rightarrow> mem_event list" where
  "process_mem req res res2 =
     Use Data # (case req of None \<Rightarrow> [] | Some req \<Rightarrow> [Use Data, Use Data] @ handler_mem req res res2)"

definition body_mem :: "mem \<Rightarrow> mem_event list" where
  "body_mem m = (if m Data = Null then [Alloc Data, Use Data] else [Free Data, Alloc Data, Use Data])"

definition completion_mem :: "mem_event list \<Rightarrow> mem_event list" where
  "completion_mem process_events = [Use Data] @ process_events @ [Free_or_null Data, Set_null Data]"

definition writeable_mem :: "mem \<Rightarrow> mem_event list" where
  "writeable_mem m = (if m Out_data = Null then [] else [Use Out_data])"

definition drop_mem :: "mem_event list" where
  "drop_mem = [Free_or_null Data, Free_or_null Out_data, Set_null Data, Set_null Out_data]"

text \<open>A callback may test the pointers of its session.\<close>

fun callbacks_run :: "(mem \<Rightarrow> mem_event list) list \<Rightarrow> mem \<Rightarrow> mem_fault + mem" where
  "callbacks_run [] m = Inr m"
| "callbacks_run (c # cs) m = (case mem_run (c m) m of Inl f \<Rightarrow> Inl f | Inr m' \<Rightarrow> callbacks_run cs m')"

lemma callbacks_run_append:
  "callbacks_run (cs @ ds) m = (case callbacks_run cs m of Inl f \<Rightarrow> Inl f | Inr m' \<Rightarrow> callbacks_run ds m')"
  by (induction cs arbitrary: m) (auto split: sum.splits)

section \<open>What is left behind\<close>

fun leaked :: "request \<Rightarrow> block set" where
  "leaked (Req_Login r) = {Query}"
| "leaked (Req_EditMe r) = (if em_password r = None then {} else {Hash_text})"
| "leaked _ = {}"

definition given :: "request \<Rightarrow> block set" where
  "given req = (case req of Req_Other n \<Rightarrow> {} | _ \<Rightarrow> {Out_data})"

lemma account_mem_runs:
  "live_run (login_mem res) {Data} = Some {Data, Out_data, Query}"
  "live_run (register_mem res) {Data} = Some {Data, Out_data}"
  "live_run (get_me_mem res) {Data} = Some {Data, Out_data}"
  by (auto simp: login_mem_def register_mem_def get_me_mem_def constraint_error_mem_def live_run_append)

lemma edit_parts_run:
  "Data \<in> L \<Longrightarrow> Query \<in> L \<Longrightarrow> v \<notin> L \<Longrightarrow> live_run (edit_field_mem v field) L = Some L"
  "Data \<in> L \<Longrightarrow> Query \<in> L \<Longrightarrow> {Pwd_hash, Hash_text, Pwd_hash_encoded} \<inter> L = {} \<Longrightarrow>
    live_run (edit_password_mem p) L = Some (if p = None then L else insert Hash_text L)"
  "Data \<in> L \<Longrightarrow> Query \<in> L \<Longrightarrow> {Access_token, New_token, Token_encoded} \<inter> L = {} \<Longrightarrow>
    live_run (edit_token_mem b) L = Some (insert New_token L)"
  by (auto simp: edit_field_mem_def edit_password_mem_def edit_token_mem_def)

lemma edit_me_mem_run: "live_run (edit_me_mem r res) {Data} = Some ({Data, Out_data} \<union> leaked (Req_EditMe r))"
  unfolding edit_me_mem_def live_run_append
  by (simp add: edit_parts_run) (auto simp: edit_parts_run constraint_error_mem_def live_run_append)

lemma row_mem_run: "{Result, Builder} \<subseteq> L \<Longrightarrow> Unescaped \<notin> L \<Longrightarrow> live_run (row_mem res i) L = Some L"
  by (auto simp: row_mem_def live_run_append)

lemma rows_mem_run:
  "{Result, Builder} \<subseteq> L \<Longrightarrow> Unescaped \<notin> L \<Longrightarrow>
    live_run (concat (map (\<lambda>i. row_mem res i @ [Use Builder]) is)) L = Some L"
  by (induction "is") (simp_all add: live_run_append row_mem_run)

lemma contract_mem_runs:
  "live_run (check_contract_mem res) {Data} = Some {Data, Out_data}"
  "live_run (list_contracts_mem res res2) {Data} = Some {Data, Out_data}"
  by (auto simp: check_contract_mem_def list_contracts_mem_def live_run_append row_mem_run rows_mem_run)

lemma request_parts_run:
  "Data \<in> L \<Longrightarrow> Query \<in> L \<Longrightarrow> Description_esc \<notin> L \<Longrightarrow> live_run (description_mem d) L = Some L"
  "Data \<in> L \<Longrightarrow> Query \<in> L \<Longrightarrow> Escaped \<notin> L \<Longrightarrow> live_run (attachment_mem a) L = Some L"
  "{Data, Result, Builder, Username, First_name, Last_name} \<subseteq> L \<Longrightarrow> live_run (stored_mem r) L = Some L"
  by (auto simp: description_mem_def attachment_mem_def stored_mem_def live_run_append)

lemma request_contract_mem_run: "live_run (request_contract_mem r res res2) {Data} = Some {Data, Out_data}"
  by (auto simp: request_contract_mem_def live_run_append request_parts_run)

lemma handler_mem_run: "live_run (handler_mem req res res2) {Data} = Some ({Data} \<union> given req \<union> leaked req)"
  by (cases req) (auto simp: account_mem_runs edit_me_mem_run contract_mem_runs request_contract_mem_run given_def)

lemma handler_mem_local: "list_all local_event (handler_mem req res res2)"
proof -
  have parts: "list_all local_event (row_mem res i)" "list_all local_event (description_mem d)"
    "list_all local_event (attachment_mem a)" "list_all local_event (stored_mem r)"
    "v \<noteq> Data \<Longrightarrow> v \<noteq> Out_data \<Longrightarrow> list_all local_event (edit_field_mem v f)" "list_all local_event (edit_password_mem p)"
    "list_all local_event (edit_token_mem b)" "list_all local_event (constraint_error_mem res)" for res i d a r v f p b
    by (simp_all add: row_mem_def description_mem_def attachment_mem_def stored_mem_def edit_field_mem_def
      edit_password_mem_def edit_token_mem_def constraint_error_mem_def)
  have "list_all local_event (concat (map (\<lambda>i. row_mem res i @ [Use Builder]) is))" for res "is"
    by (induction "is") (simp_all add: parts)
  then show ?thesis
    by (cases req) (simp_all add: parts login_mem_def register_mem_def get_me_mem_def edit_me_mem_def
      check_contract_mem_def list_contracts_mem_def request_contract_mem_def)
qed

text \<open>A transaction: the pieces of the body, at least one, the completion, any number of writable callbacks, the
  release of the session's buffers, once or more often.\<close>

definition transaction_mem ::
  "nat \<Rightarrow> request option \<Rightarrow> pgresult \<Rightarrow> pgresult \<Rightarrow> nat \<Rightarrow> nat \<Rightarrow> (mem \<Rightarrow> mem_event list) list" where
  "transaction_mem pieces req res res2 writes drops =
     replicate (Suc pieces) body_mem @ [\<lambda>m. completion_mem (process_mem req res res2)] @
     replicate writes writeable_mem @ replicate (Suc drops) (\<lambda>m. drop_mem)"

lemma pieces_run:
  "m Data \<noteq> Dangling_pointer \<Longrightarrow> callbacks_run (replicate (Suc n) body_mem) m = Inr (m(Data := Live))"
proof (induction n arbitrary: m)
  case 0
  then show ?case by (cases "m Data") (simp_all add: body_mem_def fun_eq_iff)
next
  case (Suc n)
  have "mem_run (body_mem m) m = Inr (m(Data := Live))"
    using Suc.prems by (cases "m Data") (simp_all add: body_mem_def fun_eq_iff)
  moreover have "callbacks_run (replicate (Suc n) body_mem) (m(Data := Live)) = Inr (m(Data := Live))"
    using Suc.IH [of "m(Data := Live)"] by (simp only: fun_upd_same fun_upd_upd pointer.distinct not_False_eq_True simp_thms)
  ultimately show ?case by (simp only: replicate_Suc [of "Suc n"] callbacks_run.simps sum.case)
qed

lemma writes_run: "m Out_data \<noteq> Dangling_pointer \<Longrightarrow> callbacks_run (replicate n writeable_mem) m = Inr m"
  by (induction n) (cases "m Out_data"; simp add: writeable_mem_def)+

lemma drop_run:
  assumes "m Data = Null" "m Out_data \<noteq> Dangling_pointer"
  shows "mem_run drop_mem m = Inr (m(Out_data := Null))"
  using assms by (cases "m Out_data") (simp_all add: drop_mem_def fun_upd_idem fun_upd_def fun_eq_iff)

lemma drops_run:
  assumes "m Data = Null" "m Out_data \<noteq> Dangling_pointer"
  shows "callbacks_run (replicate (Suc n) (\<lambda>m. drop_mem)) m = Inr (m(Out_data := Null))"
  using assms
proof (induction n arbitrary: m)
  case 0
  then show ?case by (simp add: drop_run del: fun_upd_apply)
next
  case (Suc n)
  with Suc.IH [of "m(Out_data := Null)"] show ?case by (simp add: drop_run)
qed

lemma completion_run:
  assumes "live m = {Data}" "m Out_data = Null"
  shows "\<exists>m'. mem_run (completion_mem (process_mem req res res2)) m = Inr m' \<and> m' Data = Null \<and>
    m' Out_data \<noteq> Dangling_pointer \<and> live m' = (case req of None \<Rightarrow> {} | Some req \<Rightarrow> given req \<union> leaked req)"
proof -
  have d: "m Data = Live" using assms(1) by (auto simp: live_def)
  have free: "Data \<notin> given r" "Data \<notin> leaked r" for r by (cases r; simp add: given_def)+
  have "live_run (process_mem req res res2) (live m) =
      Some ({Data} \<union> (case req of None \<Rightarrow> {} | Some req \<Rightarrow> given req \<union> leaked req))"
    using assms(1) by (auto simp: process_mem_def handler_mem_run split: option.split)
  moreover have "list_all local_event (process_mem req res res2)"
    by (auto simp: process_mem_def handler_mem_local split: option.split)
  ultimately obtain m1 where m1: "mem_run (process_mem req res res2) m = Inr m1" "m1 Data = Live"
    "live m1 = {Data} \<union> (case req of None \<Rightarrow> {} | Some req \<Rightarrow> given req \<union> leaked req)"
    "Out_data \<notin> live m1 \<longrightarrow> m1 Out_data = Null"
    using live_run_mem [of "process_mem req res res2" m] d assms(2) by auto
  have "live (m1(Data := Null)) = live m1 - {Data}" by (auto simp: live_def)
  also have "\<dots> = (case req of None \<Rightarrow> {} | Some req \<Rightarrow> given req \<union> leaked req)"
    unfolding m1(3) using free by (auto split: option.split)
  finally have "live (m1(Data := Null)) = (case req of None \<Rightarrow> {} | Some req \<Rightarrow> given req \<union> leaked req)" .
  moreover have "m1 Out_data \<noteq> Dangling_pointer" using m1(4) by (auto simp: live_def)
  moreover have "mem_run (completion_mem (process_mem req res res2)) m = Inr (m1(Data := Null))"
    using d m1(1,2) by (simp add: completion_mem_def mem_run_append)
  ultimately show ?thesis by auto
qed

section \<open>Properties\<close>

text \<open>C7: in a transaction with at least one piece of a body no block is used or released after its release, also when the
  session's buffers are released more than once; no block that is live loses its pointer; afterwards both
  pointers of the session are null and every block is released, whatever the database answers,
  except one: the query buffer of a login, or the encoded hash of an edit that changes the password.\<close>

theorem transaction_memory:
  "\<exists>m. callbacks_run (transaction_mem pieces req res res2 writes drops) (\<lambda>v. Null) = Inr m \<and>
    {v. m v = Live} = (case req of None \<Rightarrow> {} | Some req \<Rightarrow> leaked req) \<and> m Data = Null \<and> m Out_data = Null"
proof -
  let ?m1 = "(\<lambda>v. Null)(Data := Live)"
  have "live ?m1 = {Data}" by (auto simp: live_def)
  from completion_run [OF this, of req res res2] obtain m2 where
    m2: "mem_run (completion_mem (process_mem req res res2)) ?m1 = Inr m2" "m2 Data = Null" "m2 Out_data \<noteq> Dangling_pointer"
      "live m2 = (case req of None \<Rightarrow> {} | Some req \<Rightarrow> given req \<union> leaked req)" by auto
  have "callbacks_run (transaction_mem pieces req res res2 writes drops) (\<lambda>v. Null) = Inr (m2(Out_data := Null))"
    unfolding transaction_mem_def callbacks_run_append
    by (simp add: pieces_run m2 writes_run drops_run del: replicate.simps)
  moreover have "live (m2(Out_data := Null)) = live m2 - {Out_data}" by (auto simp: live_def)
  moreover have "live m2 - {Out_data} = (case req of None \<Rightarrow> {} | Some req \<Rightarrow> leaked req)"
  proof (cases req)
    case (Some r)
    then show ?thesis unfolding m2(4) by (cases r) (auto simp: given_def)
  qed (simp add: m2(4))
  ultimately show ?thesis using m2(2) by (simp add: live_def)
qed

end
