(* ===== verification/Certificate.thy ===== *)
theory Certificate
  imports Tt_Prelude
begin

text \<open>
  The certificate of \<open>src/backend/src/cert.h\<close> that \<open>main\<close> hands to the TLS library, and the public part of the
  key that follows it: the first 555 of its 2374 bytes, up to the public exponent. The secret
  numbers after them are not repeated here. The certificate is read with the rules of DER for
  definite lengths.
\<close>

section \<open>The arrays\<close>

definition cert_der :: "u8 list" where
  "cert_der = concat
   [[0x30, 0x82, 0x06, 0x52, 0x30, 0x82, 0x05, 0x3a, 0xa0, 0x03, 0x02, 0x01],
    [0x02, 0x02, 0x12, 0x03, 0x61, 0x64, 0x7c, 0x65, 0xc4, 0xb3, 0x37, 0x09],
    [0x3a, 0x7e, 0x8e, 0x9e, 0x48, 0x2e, 0x5a, 0xfb, 0x05, 0x30, 0x0d, 0x06],
    [0x09, 0x2a, 0x86, 0x48, 0x86, 0xf7, 0x0d, 0x01, 0x01, 0x0b, 0x05, 0x00],
    [0x30, 0x4a, 0x31, 0x0b, 0x30, 0x09, 0x06, 0x03, 0x55, 0x04, 0x06, 0x13],
    [0x02, 0x55, 0x53, 0x31, 0x16, 0x30, 0x14, 0x06, 0x03, 0x55, 0x04, 0x0a],
    [0x13, 0x0d, 0x4c, 0x65, 0x74, 0x27, 0x73, 0x20, 0x45, 0x6e, 0x63, 0x72],
    [0x79, 0x70, 0x74, 0x31, 0x23, 0x30, 0x21, 0x06, 0x03, 0x55, 0x04, 0x03],
    [0x13, 0x1a, 0x4c, 0x65, 0x74, 0x27, 0x73, 0x20, 0x45, 0x6e, 0x63, 0x72],
    [0x79, 0x70, 0x74, 0x20, 0x41, 0x75, 0x74, 0x68, 0x6f, 0x72, 0x69, 0x74],
    [0x79, 0x20, 0x58, 0x33, 0x30, 0x1e, 0x17, 0x0d, 0x31, 0x39, 0x31, 0x30],
    [0x31, 0x39, 0x31, 0x39, 0x32, 0x30, 0x32, 0x37, 0x5a, 0x17, 0x0d, 0x32],
    [0x30, 0x30, 0x31, 0x31, 0x37, 0x31, 0x39, 0x32, 0x30, 0x32, 0x37, 0x5a],
    [0x30, 0x18, 0x31, 0x16, 0x30, 0x14, 0x06, 0x03, 0x55, 0x04, 0x03, 0x13],
    [0x0d, 0x61, 0x63, 0x69, 0x73, 0x6f, 0x2e, 0x6e, 0x79, 0x61, 0x2e, 0x70],
    [0x75, 0x62, 0x30, 0x82, 0x02, 0x22, 0x30, 0x0d, 0x06, 0x09, 0x2a, 0x86],
    [0x48, 0x86, 0xf7, 0x0d, 0x01, 0x01, 0x01, 0x05, 0x00, 0x03, 0x82, 0x02],
    [0x0f, 0x00, 0x30, 0x82, 0x02, 0x0a, 0x02, 0x82, 0x02, 0x01, 0x00, 0xa3],
    [0xf1, 0x69, 0x0d, 0xad, 0x78, 0x01, 0x12, 0xfa, 0xd5, 0xa5, 0xe4, 0xa6],
    [0x69, 0x8c, 0x0f, 0xb4, 0xc6, 0xf2, 0xe9, 0x2a, 0x7f, 0x88, 0x54, 0x6f],
    [0x1a, 0x82, 0x23, 0xd5, 0xd3, 0x2b, 0xf7, 0x15, 0xb1, 0x54, 0xd9, 0x44],
    [0x72, 0x65, 0x5f, 0xc7, 0xc2, 0x72, 0xe8, 0x7c, 0x63, 0x94, 0x6b, 0x23],
    [0xa7, 0x18, 0xc6, 0x90, 0x08, 0x2e, 0x5e, 0xeb, 0xe1, 0x37, 0x8b, 0x96],
    [0xa4, 0xb4, 0xf6, 0x98, 0x8f, 0x27, 0xbf, 0x78, 0x1f, 0xd1, 0xb8, 0x1e],
    [0x9c, 0x13, 0x34, 0xc4, 0x80, 0x12, 0x99, 0x0d, 0xbf, 0x83, 0x9c, 0x03],
    [0x33, 0x85, 0x82, 0x2d, 0x37, 0x89, 0x4e, 0x7e, 0x07, 0x71, 0x6f, 0x4b],
    [0x25, 0x47, 0x08, 0x1d, 0xbd, 0xff, 0x4b, 0xc9, 0xae, 0x9e, 0x23, 0x86],
    [0xd6, 0x5b, 0xa1, 0xc5, 0xf5, 0xde, 0xeb, 0x08, 0xe2, 0x7e, 0x19, 0x4c],
    [0xbc, 0xbe, 0x71, 0x83, 0xef, 0x21, 0x99, 0x92, 0x69, 0x8b, 0x69, 0xcc],
    [0x82, 0xd3, 0xbb, 0x93, 0x70, 0xfc, 0x3f, 0x8d, 0x6c, 0x73, 0x7f, 0xd9],
    [0x33, 0x9d, 0x46, 0x3a, 0x6d, 0xc2, 0xcd, 0xbc, 0x09, 0xf4, 0xed, 0x00],
    [0xc5, 0x46, 0xe2, 0xbd, 0xc9, 0x71, 0xe7, 0x53, 0x23, 0x42, 0x7d, 0x16],
    [0xe2, 0xfc, 0xb7, 0x22, 0x7a, 0x7a, 0xac, 0xf9, 0xbe, 0x64, 0x2c, 0x15],
    [0x7a, 0x1a, 0x8b, 0xe8, 0x6f, 0x30, 0x8a, 0xee, 0x91, 0x22, 0x14, 0x0e],
    [0x45, 0xf2, 0x86, 0x4b, 0x43, 0x78, 0x9a, 0x07, 0x21, 0xa4, 0x4f, 0xa3],
    [0x5d, 0x58, 0x9c, 0xaa, 0x7b, 0xf1, 0xcf, 0xe2, 0x79, 0xb4, 0x77, 0xa2],
    [0x99, 0x72, 0xb9, 0xcc, 0xca, 0xd3, 0x9b, 0x44, 0x26, 0x4d, 0xa9, 0x2b],
    [0x2f, 0xd1, 0x2a, 0xfc, 0x36, 0x52, 0x39, 0x15, 0xb8, 0x7e, 0x23, 0x48],
    [0x42, 0x2b, 0x1c, 0xf3, 0xaf, 0xfa, 0x33, 0x57, 0x2b, 0x86, 0x8b, 0x15],
    [0x5c, 0x57, 0xc7, 0xa7, 0x43, 0xd4, 0x25, 0xaa, 0xf4, 0x2a, 0x54, 0x85],
    [0x62, 0xbd, 0x09, 0xe6, 0x96, 0x6d, 0x86, 0x6b, 0xd6, 0x9c, 0x7c, 0x60],
    [0xd8, 0xc3, 0x21, 0xae, 0xb2, 0x6c, 0xd8, 0x05, 0xf3, 0x70, 0x89, 0xa4],
    [0x0c, 0xf7, 0xd4, 0x61, 0x9b, 0xca, 0x47, 0x15, 0xc0, 0x12, 0x82, 0xa4],
    [0x3f, 0xe2, 0x46, 0x16, 0xf0, 0x15, 0xe2, 0x18, 0xcd, 0x0a, 0x49, 0xea],
    [0x52, 0x9a, 0x99, 0xc4, 0xea, 0x66, 0xfb, 0x93, 0x3e, 0x2d, 0x31, 0x1d],
    [0x5a, 0x2e, 0x7a, 0xec, 0x13, 0xd5, 0x14, 0x1c, 0x5b, 0x4e, 0x4e, 0x2a],
    [0x1c, 0x19, 0x43, 0xd6, 0xcb, 0x31, 0xdc, 0x33, 0x38, 0x62, 0x31, 0x33],
    [0xe6, 0x15, 0x44, 0xe4, 0xa4, 0x93, 0xb0, 0xe4, 0xe2, 0x88, 0x31, 0x23],
    [0xb0, 0x81, 0x03, 0xd9, 0x09, 0xdd, 0x46, 0xae, 0x75, 0x68, 0x12, 0xa2],
    [0x2d, 0x3e, 0x0f, 0x96, 0x2b, 0x5e, 0x6d, 0xfb, 0x11, 0x94, 0xad, 0x8d],
    [0x26, 0x34, 0x08, 0xa7, 0xbe, 0xf1, 0xdd, 0xdf, 0x82, 0x56, 0xdb, 0x84],
    [0xb7, 0x80, 0xc0, 0x66, 0x0a, 0x1a, 0x87, 0x79, 0xd5, 0x66, 0x5c, 0xb5],
    [0x3c, 0x28, 0x74, 0x4a, 0xce, 0xf8, 0x81, 0x66, 0x3e, 0xc7, 0x6f, 0x96],
    [0x0b, 0x9a, 0xc4, 0x92, 0xf3, 0xb4, 0x96, 0x97, 0x80, 0x04, 0x4c, 0x8b],
    [0xbb, 0x12, 0x5f, 0xdf, 0x14, 0x67, 0x0c, 0xfa, 0xc3, 0xe4, 0x4a, 0x04],
    [0xb3, 0xc8, 0x8f, 0x65, 0xf4, 0x90, 0xe7, 0xaf, 0xf8, 0xf0, 0x80, 0xfc],
    [0xbb, 0x5c, 0xbd, 0x7a, 0x59, 0xe9, 0x54, 0x0b, 0x3e, 0x40, 0x67, 0x0c],
    [0x41, 0x6a, 0x14, 0xbc, 0xb1, 0x28, 0x5a, 0x97, 0x66, 0x76, 0xa6, 0x6a],
    [0xd1, 0xff, 0xa8, 0x6a, 0x9b, 0x9c, 0x10, 0xcd, 0x98, 0xab, 0x18, 0x1b],
    [0x0f, 0x29, 0x83, 0xa4, 0x63, 0xbc, 0xb0, 0x29, 0xed, 0xeb, 0xec, 0x86],
    [0x8c, 0x8e, 0x10, 0x5a, 0x2f, 0x82, 0x57, 0x02, 0x03, 0x01, 0x00, 0x01],
    [0xa3, 0x82, 0x02, 0x62, 0x30, 0x82, 0x02, 0x5e, 0x30, 0x0e, 0x06, 0x03],
    [0x55, 0x1d, 0x0f, 0x01, 0x01, 0xff, 0x04, 0x04, 0x03, 0x02, 0x05, 0xa0],
    [0x30, 0x1d, 0x06, 0x03, 0x55, 0x1d, 0x25, 0x04, 0x16, 0x30, 0x14, 0x06],
    [0x08, 0x2b, 0x06, 0x01, 0x05, 0x05, 0x07, 0x03, 0x01, 0x06, 0x08, 0x2b],
    [0x06, 0x01, 0x05, 0x05, 0x07, 0x03, 0x02, 0x30, 0x0c, 0x06, 0x03, 0x55],
    [0x1d, 0x13, 0x01, 0x01, 0xff, 0x04, 0x02, 0x30, 0x00, 0x30, 0x1d, 0x06],
    [0x03, 0x55, 0x1d, 0x0e, 0x04, 0x16, 0x04, 0x14, 0x92, 0x9e, 0x73, 0xa6],
    [0x07, 0xf4, 0x18, 0xb0, 0x2a, 0x17, 0x1d, 0x4b, 0x50, 0x11, 0xb6, 0xc5],
    [0x69, 0x67, 0xc4, 0x1b, 0x30, 0x1f, 0x06, 0x03, 0x55, 0x1d, 0x23, 0x04],
    [0x18, 0x30, 0x16, 0x80, 0x14, 0xa8, 0x4a, 0x6a, 0x63, 0x04, 0x7d, 0xdd],
    [0xba, 0xe6, 0xd1, 0x39, 0xb7, 0xa6, 0x45, 0x65, 0xef, 0xf3, 0xa8, 0xec],
    [0xa1, 0x30, 0x6f, 0x06, 0x08, 0x2b, 0x06, 0x01, 0x05, 0x05, 0x07, 0x01],
    [0x01, 0x04, 0x63, 0x30, 0x61, 0x30, 0x2e, 0x06, 0x08, 0x2b, 0x06, 0x01],
    [0x05, 0x05, 0x07, 0x30, 0x01, 0x86, 0x22, 0x68, 0x74, 0x74, 0x70, 0x3a],
    [0x2f, 0x2f, 0x6f, 0x63, 0x73, 0x70, 0x2e, 0x69, 0x6e, 0x74, 0x2d, 0x78],
    [0x33, 0x2e, 0x6c, 0x65, 0x74, 0x73, 0x65, 0x6e, 0x63, 0x72, 0x79, 0x70],
    [0x74, 0x2e, 0x6f, 0x72, 0x67, 0x30, 0x2f, 0x06, 0x08, 0x2b, 0x06, 0x01],
    [0x05, 0x05, 0x07, 0x30, 0x02, 0x86, 0x23, 0x68, 0x74, 0x74, 0x70, 0x3a],
    [0x2f, 0x2f, 0x63, 0x65, 0x72, 0x74, 0x2e, 0x69, 0x6e, 0x74, 0x2d, 0x78],
    [0x33, 0x2e, 0x6c, 0x65, 0x74, 0x73, 0x65, 0x6e, 0x63, 0x72, 0x79, 0x70],
    [0x74, 0x2e, 0x6f, 0x72, 0x67, 0x2f, 0x30, 0x18, 0x06, 0x03, 0x55, 0x1d],
    [0x11, 0x04, 0x11, 0x30, 0x0f, 0x82, 0x0d, 0x61, 0x63, 0x69, 0x73, 0x6f],
    [0x2e, 0x6e, 0x79, 0x61, 0x2e, 0x70, 0x75, 0x62, 0x30, 0x4c, 0x06, 0x03],
    [0x55, 0x1d, 0x20, 0x04, 0x45, 0x30, 0x43, 0x30, 0x08, 0x06, 0x06, 0x67],
    [0x81, 0x0c, 0x01, 0x02, 0x01, 0x30, 0x37, 0x06, 0x0b, 0x2b, 0x06, 0x01],
    [0x04, 0x01, 0x82, 0xdf, 0x13, 0x01, 0x01, 0x01, 0x30, 0x28, 0x30, 0x26],
    [0x06, 0x08, 0x2b, 0x06, 0x01, 0x05, 0x05, 0x07, 0x02, 0x01, 0x16, 0x1a],
    [0x68, 0x74, 0x74, 0x70, 0x3a, 0x2f, 0x2f, 0x63, 0x70, 0x73, 0x2e, 0x6c],
    [0x65, 0x74, 0x73, 0x65, 0x6e, 0x63, 0x72, 0x79, 0x70, 0x74, 0x2e, 0x6f],
    [0x72, 0x67, 0x30, 0x82, 0x01, 0x04, 0x06, 0x0a, 0x2b, 0x06, 0x01, 0x04],
    [0x01, 0xd6, 0x79, 0x02, 0x04, 0x02, 0x04, 0x81, 0xf5, 0x04, 0x81, 0xf2],
    [0x00, 0xf0, 0x00, 0x76, 0x00, 0x6f, 0x53, 0x76, 0xac, 0x31, 0xf0, 0x31],
    [0x19, 0xd8, 0x99, 0x00, 0xa4, 0x51, 0x15, 0xff, 0x77, 0x15, 0x1c, 0x11],
    [0xd9, 0x02, 0xc1, 0x00, 0x29, 0x06, 0x8d, 0xb2, 0x08, 0x9a, 0x37, 0xd9],
    [0x13, 0x00, 0x00, 0x01, 0x6d, 0xe5, 0xad, 0xad, 0xa1, 0x00, 0x00, 0x04],
    [0x03, 0x00, 0x47, 0x30, 0x45, 0x02, 0x20, 0x11, 0x5d, 0x07, 0xba, 0x70],
    [0xfb, 0x5d, 0xb8, 0xf9, 0xf5, 0x85, 0xc2, 0xdd, 0xfe, 0xb6, 0xd9, 0x25],
    [0x82, 0x1a, 0xa1, 0x04, 0x38, 0x4e, 0xd9, 0x14, 0xe9, 0x2d, 0x89, 0x4f],
    [0x25, 0x15, 0xf3, 0x02, 0x21, 0x00, 0xf8, 0x7d, 0xca, 0x94, 0x62, 0x8d],
    [0x67, 0xe7, 0xad, 0x09, 0x16, 0x5d, 0x72, 0x92, 0xa1, 0xe1, 0x29, 0xf3],
    [0x46, 0x78, 0x84, 0x70, 0x79, 0x41, 0x5d, 0x24, 0xd0, 0xed, 0xba, 0x3c],
    [0x85, 0x38, 0x00, 0x76, 0x00, 0x29, 0x3c, 0x51, 0x96, 0x54, 0xc8, 0x39],
    [0x65, 0xba, 0xaa, 0x50, 0xfc, 0x58, 0x07, 0xd4, 0xb7, 0x6f, 0xbf, 0x58],
    [0x7a, 0x29, 0x72, 0xdc, 0xa4, 0xc3, 0x0c, 0xf4, 0xe5, 0x45, 0x47, 0xf4],
    [0x78, 0x00, 0x00, 0x01, 0x6d, 0xe5, 0xad, 0xad, 0x9a, 0x00, 0x00, 0x04],
    [0x03, 0x00, 0x47, 0x30, 0x45, 0x02, 0x20, 0x1f, 0x99, 0x75, 0xd6, 0x18],
    [0x82, 0x24, 0xe3, 0x75, 0x8b, 0x73, 0x9b, 0x6f, 0x37, 0x02, 0x0b, 0x2d],
    [0x6d, 0x84, 0x59, 0x8b, 0xfa, 0x06, 0x8a, 0x6a, 0xb4, 0x7a, 0x39, 0xde],
    [0x0f, 0xe6, 0x09, 0x02, 0x21, 0x00, 0xe6, 0xb3, 0xcf, 0x82, 0xa9, 0x62],
    [0x3e, 0x7c, 0x45, 0x23, 0xfe, 0x0f, 0x17, 0xd7, 0xde, 0xb4, 0x4c, 0x24],
    [0x8d, 0xbd, 0x3a, 0x19, 0xfc, 0xbc, 0xd4, 0x60, 0x16, 0xce, 0xc9, 0xcf],
    [0x9b, 0x4f, 0x30, 0x0d, 0x06, 0x09, 0x2a, 0x86, 0x48, 0x86, 0xf7, 0x0d],
    [0x01, 0x01, 0x0b, 0x05, 0x00, 0x03, 0x82, 0x01, 0x01, 0x00, 0x39, 0xe6],
    [0x57, 0x6b, 0x4d, 0x0f, 0xd6, 0xe4, 0x45, 0x0f, 0x3d, 0x19, 0x5f, 0xe4],
    [0x30, 0xef, 0x65, 0x34, 0x74, 0x01, 0xfd, 0x5d, 0xbc, 0x11, 0x5e, 0xad],
    [0xa3, 0xee, 0x37, 0x37, 0x6f, 0x6c, 0x2b, 0x13, 0x16, 0x01, 0x0a, 0x46],
    [0xe6, 0xcb, 0x74, 0x93, 0xda, 0x80, 0x93, 0xb8, 0x72, 0xaf, 0x79, 0xcd],
    [0xea, 0xe1, 0xac, 0x26, 0x1e, 0xdf, 0xa9, 0x46, 0x46, 0x71, 0xc4, 0xa3],
    [0x0e, 0xa2, 0x92, 0x11, 0x43, 0x55, 0x35, 0x73, 0x7d, 0x3d, 0xdb, 0x4d],
    [0x55, 0x46, 0xc5, 0xe1, 0xf6, 0x51, 0x15, 0xef, 0x39, 0xa3, 0x62, 0x28],
    [0x9b, 0x82, 0x6b, 0x11, 0x97, 0xb3, 0xfe, 0x24, 0xec, 0x0b, 0xa4, 0xdd],
    [0x68, 0xf9, 0x4e, 0x66, 0xc4, 0x87, 0xbd, 0x20, 0x10, 0x60, 0x86, 0xc7],
    [0x5d, 0x96, 0xe1, 0x7f, 0xff, 0x96, 0x14, 0x2d, 0xf7, 0x6c, 0x17, 0xef],
    [0x3f, 0x86, 0xf7, 0xc8, 0xaa, 0x2d, 0x0a, 0x4b, 0x3e, 0xf5, 0x61, 0xf0],
    [0x88, 0xac, 0xa8, 0x71, 0x88, 0x07, 0x1b, 0xa7, 0x11, 0x05, 0xde, 0x85],
    [0xcd, 0x48, 0x64, 0x20, 0x3f, 0x0c, 0x34, 0xf9, 0x3a, 0x35, 0x68, 0x78],
    [0x1e, 0xaf, 0xa9, 0xde, 0xbf, 0xa2, 0xb8, 0x60, 0x4c, 0x4d, 0x98, 0x84],
    [0x9b, 0xba, 0x51, 0x8d, 0x1a, 0x40, 0xe3, 0x13, 0xeb, 0x30, 0xb9, 0x17],
    [0x11, 0xc1, 0x18, 0x57, 0xd8, 0xf5, 0x54, 0xc3, 0x9b, 0xc4, 0xf7, 0x34],
    [0xe9, 0x07, 0x82, 0x8f, 0x32, 0xb2, 0x65, 0x97, 0x5a, 0x52, 0x3b, 0x94],
    [0x2d, 0x6e, 0x3d, 0x64, 0x00, 0xc4, 0xa0, 0x0e, 0xac, 0x18, 0xad, 0x6b],
    [0xae, 0xad, 0x25, 0x47, 0x61, 0xec, 0x57, 0xac, 0x14, 0x95, 0xde, 0x74],
    [0xd1, 0xa7, 0xc8, 0xfb, 0x70, 0xb8, 0x15, 0x9c, 0xcf, 0x45, 0xb7, 0xc5],
    [0xc1, 0x25, 0xb3, 0x85, 0x03, 0xec, 0x0d, 0xa3, 0x28, 0x6f, 0xdb, 0x4c],
    [0x95, 0x65]]"

definition cert_der_len :: nat where
  "cert_der_len = 1622"

definition key_der_public :: "u8 list" where
  "key_der_public = concat
   [[0x30, 0x82, 0x09, 0x42, 0x02, 0x01, 0x00, 0x30, 0x0d, 0x06, 0x09, 0x2a],
    [0x86, 0x48, 0x86, 0xf7, 0x0d, 0x01, 0x01, 0x01, 0x05, 0x00, 0x04, 0x82],
    [0x09, 0x2c, 0x30, 0x82, 0x09, 0x28, 0x02, 0x01, 0x00, 0x02, 0x82, 0x02],
    [0x01, 0x00, 0xa3, 0xf1, 0x69, 0x0d, 0xad, 0x78, 0x01, 0x12, 0xfa, 0xd5],
    [0xa5, 0xe4, 0xa6, 0x69, 0x8c, 0x0f, 0xb4, 0xc6, 0xf2, 0xe9, 0x2a, 0x7f],
    [0x88, 0x54, 0x6f, 0x1a, 0x82, 0x23, 0xd5, 0xd3, 0x2b, 0xf7, 0x15, 0xb1],
    [0x54, 0xd9, 0x44, 0x72, 0x65, 0x5f, 0xc7, 0xc2, 0x72, 0xe8, 0x7c, 0x63],
    [0x94, 0x6b, 0x23, 0xa7, 0x18, 0xc6, 0x90, 0x08, 0x2e, 0x5e, 0xeb, 0xe1],
    [0x37, 0x8b, 0x96, 0xa4, 0xb4, 0xf6, 0x98, 0x8f, 0x27, 0xbf, 0x78, 0x1f],
    [0xd1, 0xb8, 0x1e, 0x9c, 0x13, 0x34, 0xc4, 0x80, 0x12, 0x99, 0x0d, 0xbf],
    [0x83, 0x9c, 0x03, 0x33, 0x85, 0x82, 0x2d, 0x37, 0x89, 0x4e, 0x7e, 0x07],
    [0x71, 0x6f, 0x4b, 0x25, 0x47, 0x08, 0x1d, 0xbd, 0xff, 0x4b, 0xc9, 0xae],
    [0x9e, 0x23, 0x86, 0xd6, 0x5b, 0xa1, 0xc5, 0xf5, 0xde, 0xeb, 0x08, 0xe2],
    [0x7e, 0x19, 0x4c, 0xbc, 0xbe, 0x71, 0x83, 0xef, 0x21, 0x99, 0x92, 0x69],
    [0x8b, 0x69, 0xcc, 0x82, 0xd3, 0xbb, 0x93, 0x70, 0xfc, 0x3f, 0x8d, 0x6c],
    [0x73, 0x7f, 0xd9, 0x33, 0x9d, 0x46, 0x3a, 0x6d, 0xc2, 0xcd, 0xbc, 0x09],
    [0xf4, 0xed, 0x00, 0xc5, 0x46, 0xe2, 0xbd, 0xc9, 0x71, 0xe7, 0x53, 0x23],
    [0x42, 0x7d, 0x16, 0xe2, 0xfc, 0xb7, 0x22, 0x7a, 0x7a, 0xac, 0xf9, 0xbe],
    [0x64, 0x2c, 0x15, 0x7a, 0x1a, 0x8b, 0xe8, 0x6f, 0x30, 0x8a, 0xee, 0x91],
    [0x22, 0x14, 0x0e, 0x45, 0xf2, 0x86, 0x4b, 0x43, 0x78, 0x9a, 0x07, 0x21],
    [0xa4, 0x4f, 0xa3, 0x5d, 0x58, 0x9c, 0xaa, 0x7b, 0xf1, 0xcf, 0xe2, 0x79],
    [0xb4, 0x77, 0xa2, 0x99, 0x72, 0xb9, 0xcc, 0xca, 0xd3, 0x9b, 0x44, 0x26],
    [0x4d, 0xa9, 0x2b, 0x2f, 0xd1, 0x2a, 0xfc, 0x36, 0x52, 0x39, 0x15, 0xb8],
    [0x7e, 0x23, 0x48, 0x42, 0x2b, 0x1c, 0xf3, 0xaf, 0xfa, 0x33, 0x57, 0x2b],
    [0x86, 0x8b, 0x15, 0x5c, 0x57, 0xc7, 0xa7, 0x43, 0xd4, 0x25, 0xaa, 0xf4],
    [0x2a, 0x54, 0x85, 0x62, 0xbd, 0x09, 0xe6, 0x96, 0x6d, 0x86, 0x6b, 0xd6],
    [0x9c, 0x7c, 0x60, 0xd8, 0xc3, 0x21, 0xae, 0xb2, 0x6c, 0xd8, 0x05, 0xf3],
    [0x70, 0x89, 0xa4, 0x0c, 0xf7, 0xd4, 0x61, 0x9b, 0xca, 0x47, 0x15, 0xc0],
    [0x12, 0x82, 0xa4, 0x3f, 0xe2, 0x46, 0x16, 0xf0, 0x15, 0xe2, 0x18, 0xcd],
    [0x0a, 0x49, 0xea, 0x52, 0x9a, 0x99, 0xc4, 0xea, 0x66, 0xfb, 0x93, 0x3e],
    [0x2d, 0x31, 0x1d, 0x5a, 0x2e, 0x7a, 0xec, 0x13, 0xd5, 0x14, 0x1c, 0x5b],
    [0x4e, 0x4e, 0x2a, 0x1c, 0x19, 0x43, 0xd6, 0xcb, 0x31, 0xdc, 0x33, 0x38],
    [0x62, 0x31, 0x33, 0xe6, 0x15, 0x44, 0xe4, 0xa4, 0x93, 0xb0, 0xe4, 0xe2],
    [0x88, 0x31, 0x23, 0xb0, 0x81, 0x03, 0xd9, 0x09, 0xdd, 0x46, 0xae, 0x75],
    [0x68, 0x12, 0xa2, 0x2d, 0x3e, 0x0f, 0x96, 0x2b, 0x5e, 0x6d, 0xfb, 0x11],
    [0x94, 0xad, 0x8d, 0x26, 0x34, 0x08, 0xa7, 0xbe, 0xf1, 0xdd, 0xdf, 0x82],
    [0x56, 0xdb, 0x84, 0xb7, 0x80, 0xc0, 0x66, 0x0a, 0x1a, 0x87, 0x79, 0xd5],
    [0x66, 0x5c, 0xb5, 0x3c, 0x28, 0x74, 0x4a, 0xce, 0xf8, 0x81, 0x66, 0x3e],
    [0xc7, 0x6f, 0x96, 0x0b, 0x9a, 0xc4, 0x92, 0xf3, 0xb4, 0x96, 0x97, 0x80],
    [0x04, 0x4c, 0x8b, 0xbb, 0x12, 0x5f, 0xdf, 0x14, 0x67, 0x0c, 0xfa, 0xc3],
    [0xe4, 0x4a, 0x04, 0xb3, 0xc8, 0x8f, 0x65, 0xf4, 0x90, 0xe7, 0xaf, 0xf8],
    [0xf0, 0x80, 0xfc, 0xbb, 0x5c, 0xbd, 0x7a, 0x59, 0xe9, 0x54, 0x0b, 0x3e],
    [0x40, 0x67, 0x0c, 0x41, 0x6a, 0x14, 0xbc, 0xb1, 0x28, 0x5a, 0x97, 0x66],
    [0x76, 0xa6, 0x6a, 0xd1, 0xff, 0xa8, 0x6a, 0x9b, 0x9c, 0x10, 0xcd, 0x98],
    [0xab, 0x18, 0x1b, 0x0f, 0x29, 0x83, 0xa4, 0x63, 0xbc, 0xb0, 0x29, 0xed],
    [0xeb, 0xec, 0x86, 0x8c, 0x8e, 0x10, 0x5a, 0x2f, 0x82, 0x57, 0x02, 0x03],
    [0x01, 0x00, 0x01]]"

definition key_der_len :: nat where
  "key_der_len = 2374"

section \<open>Reading DER\<close>

text \<open>The tag and the length of a value, and what follows them.\<close>

definition der_header :: "u8 list \<Rightarrow> (u8 \<times> nat \<times> u8 list) option" where
  "der_header xs =
     (case xs of
        t # n # rest \<Rightarrow>
          if n < 0x80 then Some (t, unat n, rest)
          else if n = 0x81 then (case rest of a # rest \<Rightarrow> Some (t, unat a, rest) | [] \<Rightarrow> None)
          else if n = 0x82 then
            (case rest of a # b # rest \<Rightarrow> Some (t, 256 * unat a + unat b, rest) | _ \<Rightarrow> None)
          else None
      | _ \<Rightarrow> None)"

text \<open>A value: its tag, its content, and what follows it.\<close>

definition der_value :: "u8 list \<Rightarrow> (u8 \<times> u8 list \<times> u8 list) option" where
  "der_value xs =
     (case der_header xs of
        Some (t, n, rest) \<Rightarrow> if n \<le> length rest then Some (t, take n rest, drop n rest) else None
      | None \<Rightarrow> None)"

lemma der_value_shorter: "der_value xs = Some (t, c, rest) \<Longrightarrow> length rest < length xs"
  by (auto simp: der_value_def der_header_def split: list.splits if_splits option.splits)

function der_values :: "u8 list \<Rightarrow> (u8 \<times> u8 list) list option" where
  "der_values xs =
     (if xs = [] then Some []
      else case der_value xs of
        Some (t, c, rest) \<Rightarrow> map_option (\<lambda>vs. (t, c) # vs) (der_values rest)
      | None \<Rightarrow> None)"
  by pat_completeness auto
termination by (relation "measure length") (auto dest: der_value_shorter)

declare der_values.simps [simp del]

text \<open>The contents of a sequence of values with the given tags.\<close>

definition der_seq :: "u8 list \<Rightarrow> u8 list \<Rightarrow> u8 list list option" where
  "der_seq tags xs =
     (case der_values xs of
        Some vs \<Rightarrow> if map fst vs = tags then Some (map snd vs) else None
      | None \<Rightarrow> None)"

text \<open>What a client takes from an X.509 certificate with an RSA key: the common name of the
  subject, the validity, and the key.\<close>

record certificate =
  ce_subject :: string
  ce_not_before :: string
  ce_not_after :: string
  ce_modulus :: "u8 list"
  ce_exponent :: "u8 list"

definition der_text :: "u8 list \<Rightarrow> string" where
  "der_text v = map (\<lambda>b. char_of (unat b)) v"

definition read_certificate :: "u8 list \<Rightarrow> certificate option" where
  "read_certificate xs =
     Option.bind (der_seq [0x30] xs) (\<lambda>cert.
     Option.bind (der_seq [0x30, 0x30, 0x03] (cert ! 0)) (\<lambda>parts.
     Option.bind (der_seq [0xa0, 0x02, 0x30, 0x30, 0x30, 0x30, 0x30, 0xa3] (parts ! 0)) (\<lambda>tbs.
     Option.bind (der_seq [0x17, 0x17] (tbs ! 4)) (\<lambda>validity.
     Option.bind (der_seq [0x31] (tbs ! 5)) (\<lambda>subject.
     Option.bind (der_seq [0x30] (subject ! 0)) (\<lambda>name.
     Option.bind (der_seq [0x06, 0x13] (name ! 0)) (\<lambda>common_name.
     Option.bind (der_seq [0x30, 0x03] (tbs ! 6)) (\<lambda>spki.
     Option.bind (der_seq [0x30] (tl (spki ! 1))) (\<lambda>key.
     Option.bind (der_seq [0x02, 0x02] (key ! 0)) (\<lambda>numbers.
       Some \<lparr>ce_subject = der_text (common_name ! 1), ce_not_before = der_text (validity ! 0),
         ce_not_after = der_text (validity ! 1), ce_modulus = numbers ! 0, ce_exponent = numbers ! 1\<rparr>))))))))))"

text \<open>The modulus and the public exponent of an RSA key in a PKCS 8 structure, whose end may be missing.\<close>

definition read_key_public :: "u8 list \<Rightarrow> (nat \<times> u8 list \<times> u8 list) option" where
  "read_key_public xs =
     Option.bind (der_header xs) (\<lambda>(_, size, info).
     Option.bind (der_value info) (\<lambda>(_, version, info).
     Option.bind (der_value info) (\<lambda>(_, algorithm, info).
     Option.bind (der_header info) (\<lambda>(_, _, octets).
     Option.bind (der_header octets) (\<lambda>(_, _, key).
     Option.bind (der_value key) (\<lambda>(_, version, key).
     Option.bind (der_value key) (\<lambda>(_, modulus, key).
     Option.bind (der_value key) (\<lambda>(_, exponent, key).
       Some (size, modulus, exponent)))))))))"

section \<open>The parts of the certificate\<close>

definition cert_part :: "nat \<Rightarrow> nat \<Rightarrow> u8 list" where
  "cert_part p n = take n (drop p cert_der)"

lemmas der_defs = der_seq_def der_values.simps der_value_def der_header_def

lemma cert_length: "length cert_der = 1622"
  by (simp add: cert_der_def)

lemma cert_whole: "der_seq [0x30] cert_der = Some [cert_part 4 1618]"
  by (simp add: der_defs cert_part_def cert_der_def)

lemma cert_signed: "der_seq [0x30, 0x30, 0x03] (cert_part 4 1618) = Some [cert_part 8 1338, cert_part 1348 13, cert_part 1365 257]"
  by (simp add: der_defs cert_part_def cert_der_def)

lemma cert_tbs: "der_seq [0xa0, 0x02, 0x30, 0x30, 0x30, 0x30, 0x30, 0xa3] (cert_part 8 1338) =
    Some [cert_part 10 3, cert_part 15 18, cert_part 35 13, cert_part 50 74, cert_part 126 30, cert_part 158 24,
      cert_part 186 546, cert_part 736 610]"
  by (simp add: der_defs cert_part_def cert_der_def)

lemma cert_validity: "der_seq [0x17, 0x17] (cert_part 126 30) = Some [cert_part 128 13, cert_part 143 13]"
  by (simp add: der_defs cert_part_def cert_der_def)

lemma cert_subject:
  "der_seq [0x31] (cert_part 158 24) = Some [cert_part 160 22]" "der_seq [0x30] (cert_part 160 22) = Some [cert_part 162 20]"
  "der_seq [0x06, 0x13] (cert_part 162 20) = Some [cert_part 164 3, cert_part 169 13]"
  by (simp_all add: der_defs cert_part_def cert_der_def)

lemma cert_key:
  "der_seq [0x30, 0x03] (cert_part 186 546) = Some [cert_part 188 13, cert_part 205 527]"
  "der_seq [0x30] (tl (cert_part 205 527)) = Some [cert_part 210 522]"
  "der_seq [0x02, 0x02] (cert_part 210 522) = Some [cert_part 214 513, [1, 0, 1]]"
  by (simp_all add: der_defs cert_part_def cert_der_def)

lemma cert_texts: "der_text (cert_part 169 13) = ''aciso.nya.pub''" "der_text (cert_part 128 13) = ''191019192027Z''"
    "der_text (cert_part 143 13) = ''200117192027Z''"
  by (simp_all add: der_text_def cert_part_def cert_der_def char_of_def bit_0)

lemma cert_read: "read_certificate cert_der = Some \<lparr>ce_subject = ''aciso.nya.pub'', ce_not_before = ''191019192027Z'',
    ce_not_after = ''200117192027Z'', ce_modulus = cert_part 214 513, ce_exponent = [1, 0, 1]\<rparr>"
  by (simp add: read_certificate_def cert_whole cert_signed cert_tbs cert_validity cert_subject cert_key cert_texts)

lemma key_read: "read_key_public key_der_public = Some (2370, cert_part 214 513, [1, 0, 1])"
  by (simp add: read_key_public_def der_value_def der_header_def key_der_public_def cert_part_def cert_der_def)

section \<open>The certificate and the key\<close>

text \<open>The length that is passed with the embedded certificate is the length of the array, which is exactly one
  DER certificate; it is for \<open>aciso.nya.pub\<close>, was valid from 19 October 2019 to 17 January
  2020, and certifies the public numbers of the embedded key, whose outer length is the one that is
  passed.\<close>

theorem embedded_certificate:
  "length cert_der = cert_der_len \<and>
   (\<exists>n. read_certificate cert_der = Some \<lparr>ce_subject = ''aciso.nya.pub'', ce_not_before = ''191019192027Z'',
      ce_not_after = ''200117192027Z'', ce_modulus = n, ce_exponent = [1, 0, 1]\<rparr> \<and>
    read_key_public key_der_public = Some (key_der_len - 4, n, [1, 0, 1]))"
  using cert_length cert_read key_read by (simp add: cert_der_len_def key_der_len_def)

end
