(* ===== verification/Spec2Isabelle.thy ===== *)
theory Spec2Isabelle
  imports Exchange Startup Fb_Search Fb_Members Fb_Arrays Threads Memory Certificate
begin

text \<open>
  TomTom, the contract service of \<open>src/backend\<close>: a C server that takes FlatBuffers requests over
  HTTPS, runs SQL statements on PostgreSQL and answers with FlatBuffers. This development
  follows its code function by function.

  Parts and theories, from the bottom up (files are under \<open>src/backend\<close>):

  \<^item> \<open>Tt_Prelude\<close>: machine types, undefined behaviour as a value (\<open>'a outcome = ub + 'a\<close>: null
    and dangling pointers, accesses outside a block, unterminated strings, failed assertions), C strings in arrays,
    \<open>calloc\<close>, \<open>strncpy\<close>, \<open>snprintf\<close>, decimal text. \<open>Machine\<close>: reachable states and the locale
    of a system with an invariant. \<open>C_Double\<close>: sign, \<open>%f\<close> and \<open>atof\<close> of a double.
  \<^item> \<open>Base64\<close>, \<open>Strcat\<close>: \<open>b64_encode\<close>, \<open>b64_decode\<close> and \<open>strlcat\<close> of \<open>src/utils.c\<close>.
  \<^item> \<open>Wire\<close>: the tables and unions of \<open>api-schema/*/*.fbs\<close>. \<open>Backend_Env\<close>: libpq, OpenSSL and the
    clock as a record of functions on one external state \<open>'w\<close>, and the hash and token sequences.
  \<^item> \<open>Accounts\<close>, \<open>Contracts\<close>: the seven handlers of \<open>src/api/*.c\<close>, one definition per handler with every
    branch and the statement texts. \<open>Processing\<close>: \<open>src/processing.c\<close> and \<open>struct pss\<close> of
    \<open>src/globals.h\<close>. \<open>Session\<close>: \<open>http_callback\<close> of \<open>src/main.c\<close>, one definition per reason, and sequences
    of callbacks. \<open>Startup\<close>: \<open>main\<close>, \<open>thread_service\<close> and \<open>sigint_handler\<close>.
  \<^item> \<open>Fb_Reader\<close>, \<open>Fb_Request\<close>, \<open>Fb_Verify\<close>: the generated code of \<open>api-schema/request/gen\<close>: reader
    primitives, accessors of the eight tables, verifiers. \<open>Fb_Sort\<close>, \<open>Fb_Search\<close>: heap sort, binary
    search and scans of the common header. A pointer is a position in the buffer.
  \<^item> \<open>Database\<close>: the two tables that \<open>main\<close> creates and the meaning of the statements on them.
    \<open>Queries\<close>: the statement texts without size limits. \<open>Server\<close>: what is relied on from PostgreSQL and its
    client, as the locale \<open>tomtom_server\<close>: a statement that succeeds has its meaning, one that fails changes nothing;
    no law says that any statement succeeds. \<open>Reference_Server\<close>: an SQL reader and executor that
    interprets it. \<open>Service\<close>: the abstract service \<open>serves\<close>. \<open>Scenarios\<close>: what a handler does with the result of its statement,
    success or not. \<open>System\<close>: the tables under any stream of requests. \<open>Threads\<close>: the service threads, their statements
    interleaved, and which of them are inside the client library. \<open>Memory\<close>: the heap blocks of a request and the pointers
    to them (null, live or dangling), as events in the order of the code.
  \<^item> \<open>Fb_Safe\<close>, \<open>Fb_Reference\<close>: a verified message is read inside its buffer; a verifier that meets
    the contract of the runtime. \<open>Inputs\<close>, \<open>Delivery\<close>: concrete inputs; one session with and without the
    generated code.
  \<^item> \<open>Fb_Response\<close>, \<open>Fb_Builder\<close>: the generated code of \<open>api-schema/response/gen\<close>: accessors of the nine
    tables; macros and builder functions over a runtime \<open>builder_runtime\<close>, and the calls that each
    handler makes (\<open>build_response\<close>, \<open>finished\<close>). \<open>Fb_Scalars\<close>, \<open>Fb_Format\<close>, \<open>Fb_Content\<close>: numbers in wire
    order, the format as a relation between buffers and objects, and reading a represented response.
    \<open>Fb_Build\<close>, \<open>Fb_Answers\<close>: the contract \<open>flatcc_builder\<close> of the runtime and the symbolic execution of
    the calls. \<open>Fb_Encoder\<close>: a runtime that meets the contract, down to the bytes. \<open>Fb_Clone\<close>, \<open>Fb_Copy\<close>: the
    generated \<open>_clone\<close> and \<open>_pick\<close> functions, the locale \<open>flatcc_cloning\<close>, and what a copy contains.
    \<open>Fb_Open\<close>: the macros for buffers with a size prefix, open strings and vectors, slices, vectors of unions
    and fields, over the runtime \<open>editing_runtime\<close>. \<open>Fb_Edit\<close>, \<open>Fb_Members\<close>: the contract \<open>flatcc_editing\<close>, edits replayed on
    lists, and a runtime that meets the contract. \<open>Fb_Arrays\<close>: byte order of scalars and fixed arrays in memory.
    \<open>Certificate\<close>: the arrays of \<open>src/cert.h\<close>.
  \<^item> \<open>Answer_Values\<close>: what a handler can answer. \<open>Exchange\<close>: from the bytes of a request to what
    the client reads. This theory: the properties of the service.

  How they interact: libwebsockets calls \<open>http_callback\<close>; body pieces accumulate in \<open>pss_data\<close>; the
  completion calls \<open>process\<close>, which verifies and reads the message, calls \<open>dispatch\<close> with the handler of the
  union's type and leaves the finished reply in \<open>pss_out_data\<close>; writable callbacks send it in chunks of
  2031 bytes. In a session the FlatBuffers functions are the record \<open>codec\<close>; \<open>generated_codec\<close> puts the
  generated verifiers and readers there, \<open>full_codec\<close> the builders as well.

  What the lemmas show. Handlers: the buffers they fill hold the intended statements
  (\<open>edit_me_refines\<close>, \<open>contract_query_refines\<close>, \<open>login_refines\<close>); with the laws of the server, each
  answer and each change of the tables is one that \<open>serves\<close> allows (\<open>dispatch_serves\<close>), and an answer is
  given except in the listed cases of undefined behaviour. Tables: constraints, hashed passwords and fresh tokens are
  invariant. Session: invariant of the phases of a transaction, exact bytes and flags of a
  reply. Generated code: every getter succeeds on what its verifier accepted; sort and search agree
  with \<open>sorted\<close> and \<open>find\<close>; every sequence of builder calls leaves a buffer that represents the answer, and
  the getters read it back (\<open>finished_read_back\<close>), also from a clone, unless it stores through a pointer that the runtime has
  invalidated; open strings and vectors end as the same
  edits of a list (\<open>replayed\<close>), slices stay inside their source, and a response copied behind a size prefix is read back
  from there (\<open>sized_copy_read_back\<close>). Memory: no block of a request is used or released after its
  release, and the blocks that a transaction leaves are the listed leaks. Threads: under every interleaving in which
  no two threads are inside the client library at once, the tables keep their invariant and every answer is right for the tables at
  its last statement and the user at its first one (\<open>answer_serves\<close>), which is less than \<open>serves\<close> (\<open>mixed_listing\<close>); nothing
  in the program keeps two threads from being inside. Utilities: round trips, bounds, refinement of the memory of \<open>strlcat\<close>.
  Several properties describe faults of the code as they are: the last byte of a body that is
  lost, names and tokens that fill their arrays, a session that keeps its chunk index, SQL
  injection through the user name, a port range that admits 65536.

  Hypotheses and bounds. Calls that the code cannot see the inside of are parameters with laws
  from their documentation: \<open>client_library\<close>, \<open>client_strings\<close>, \<open>tomtom_server\<close>, \<open>flatcc_runtime\<close>, \<open>flatcc_builder\<close>,
  \<open>flatcc_cloning\<close>, \<open>flatcc_editing\<close>; each has an
  instance here. The runtime's header says of the pointer that \<open>flatcc_builder_table_add\<close> returns that it need not survive another
  call: the laws grant nothing more, so that the union \<open>_add\<close> macro, which stores the type after the next call, has the outcome
  \<open>Dangling\<close> unless the runtime happens to keep the pointer (\<open>stores_last\<close>). The login name and the contract name are put into
  statements unescaped. Where a statement's meaning is used, \<open>request_ok\<close> is assumed and said: texts are C strings, the two
  names have no quote, and at most 8000 and 1000000 bytes, within which no statement is cut by its buffer (8192 and 2097152 bytes). The
  statements that are sent outside these bounds are those of \<open>login_constant_iff\<close>, \<open>login_injected\<close> and \<open>contract_query_eq\<close>. The
  process and thread steps take the condition on requests as an argument. No definition uses fuel: every loop has a structural or measured
  recursion, and the service loop is a partial function over the library call, with \<open>None\<close> when it does not end.

  Not modelled. Of \<open>src/cert.h\<close> the secret numbers of the private key. Of the response builders structs
  and nested buffers, which the schema does not have; of the readers the fields of structs. The common reader header
  of \<open>api-schema/response/gen\<close> is a copy of the one of the requests, which is modelled once.
  Third-party headers; the Python checker and notebooks; the Android client; containers and proxy
  configuration.
  Within modelled code: alignment, failure of \<open>malloc\<close>, log output, the reference
  map of the builder (cloning is specified without one), and what libpq does when two threads are inside it at
  once.
\<close>

section \<open>The service\<close>

text \<open>C2: whatever a handler does with statements, buffers and result sets, the answer it gives
  and the change it makes to the tables are allowed by the specification of the service, for
  every request (\<open>request_ok\<close>) whose texts are C strings, a login name or a contract name moreover without a quote, a login name of
  at most 8000 bytes, a contract name of at most 1000000. Beyond that the statement need not fit its buffer.\<close>

theorem service_refinement:
  assumes "tomtom_server E view bytea_text float_text"
    and "db_ok (view w)" "request_ok req" "dispatch E salt w req = Inr (w', Some a)"
  shows "serves (stored_hash E salt) float_text (view w) req a (view w')"
  using tomtom_server.dispatch_serves [OF assms] .

theorem service_refinement_witness:
  "\<exists>w' tok. dispatch ref_env ''weak'' ref_start (Req_Register bob) =
      Inr (w', Some (ok_response (Res_Register tok))) \<and>
    serves (stored_hash ref_env ''weak'') (\<lambda>s. s) empty_tables (Req_Register bob)
      (ok_response (Res_Register tok)) (rf_tables w')"
proof -
  obtain w' tok where d: "dispatch ref_env ''weak'' ref_start (Req_Register bob) =
      Inr (w', Some (ok_response (Res_Register tok)))"
    using bob_registers by (auto simp: with_response_def)
  have "db_ok (rf_tables ref_start)" by (simp add: db_ok_empty)
  from service_refinement [OF ref.tomtom_server_axioms this _ d] d show ?thesis
    by (auto simp: bob_def)
qed

text \<open>C3: from the empty tables on, after any number of processed bodies, none of which holds a request with a quote in
  its login or contract name, a login name over 8000 bytes or a contract name over 1000000
  (\<open>request_ok\<close>): the constraints of the schema hold, no password is stored except as its salted hash, and every token is the encoding of 32
  bytes.\<close>

theorem stored_data_invariant:
  assumes "tomtom_server E view bytea_text float_text"
    and "reaches (\<lambda>w. view w = empty_tables) (handled E C salt request_ok) w"
  shows "db_ok (view w) \<and>
    (\<forall>u \<in> set (users (view w)). fresh_token (ur_token u) \<and> (\<exists>p. ur_password u = stored_hash E salt p))"
  using tomtom_server.reachable_inv [OF assms] by (auto simp: app_inv_def hygienic_def)

theorem stored_data_invariant_witness:
  "\<exists>w u. reaches (\<lambda>w. rf_tables w = empty_tables)
      (handled ref_env (fixed_codec (Req_Register bob) [1]) ''weak'' request_ok) w \<and>
    users (rf_tables w) = [u] \<and> ur_username u = ''bob'' \<and> fresh_token (ur_token u)"
proof -
  let ?C = "fixed_codec (Req_Register bob) [1]"
  obtain w' i where reg: "register ref_env ''weak'' ref_start bob =
      Inr (w', ok_response (Res_Register (b64_loop (snd (access_token ref_env ref_start)))))"
    and t: "rf_tables w' = insert_user i ''bob'' (stored_hash ref_env ''weak'' ''pw'') ''B'' ''C''
      (b64_loop (snd (access_token ref_env ref_start))) empty_tables"
    using bob_registers by blast
  let ?p = "fresh_pss\<lparr>pss_data := Some [0], pss_data_len := 1\<rparr>"
  have "\<exists>p'. process ref_env ?C ''weak'' ref_start ?p = Inr (w', p')"
    by (simp add: process_def fixed_codec_def with_response_def reg)
  then obtain p' where pr: "process ref_env ?C ''weak'' ref_start ?p = Inr (w', p')" ..
  have "handled ref_env ?C ''weak'' request_ok ref_start [0] w'"
    by (rule handled_buffer [where p = ?p and d = "[0]", OF _ _ _ pr]) (simp_all add: fixed_codec_def bob_def)
  then have r: "reaches (\<lambda>w. rf_tables w = empty_tables) (handled ref_env ?C ''weak'' request_ok) w'"
    by (intro reaches_step [OF reaches_start]) simp_all
  from stored_data_invariant [OF ref.tomtom_server_axioms r] t
  have "\<forall>u \<in> set (users (rf_tables w')). fresh_token (ur_token u)" by blast
  with r t show ?thesis
    by (intro exI [of _ w'] exI [of _ "hd (users (rf_tables w'))"])
      (simp add: insert_user_def empty_tables_def)
qed

section \<open>One transaction\<close>

text \<open>C6: a request that is verified and answered is delivered: after the headers, any division
  of the body into pieces, its completion and one writable callback per chunk, the bytes
  written are exactly the finished response, in chunks of 2031 bytes of which only the last is
  marked final; every callback returns 0, and the body buffer is released.\<close>

theorem response_delivered:
  assumes "concat body \<noteq> []" "lws_ok R"
    and "fb_verify C (received body) = 0" "fb_as_root C (received body)"
    and "fb_message C (received body) = Inr req" "dispatch E salt w req = Inr (w', Some a)"
    and "fb_finalize C a = Some out"
  shows "\<exists>acts p'.
    run_callbacks E C salt (transaction R body (max 1 ((length out + 2030) div 2031)))
        (w, Some fresh_pss) =
      Inr ((w', Some p'), acts, replicate (length body + 2 + max 1 ((length out + 2030) div 2031)) 0) \<and>
    payload acts = out \<and>
    final_flags acts = replicate (max 1 ((length out + 2030) div 2031) - 1) False @ [True] \<and>
    pss_data p' = None"
proof -
  have len: "length (received body) = length (concat body)" by (simp add: received_def)
  have "process E C salt w (received_pss body) =
      Inr (w', store_response C a (received_pss body))"
    using assms len by (simp add: process_def received_pss_def)
  from transaction_run [OF assms(1,2) this, of out] assms(7) show ?thesis
    by (simp add: received_pss_def fresh_pss_def payload_write_calls concat_chunks
        final_flags_write_calls length_chunks)
qed

theorem response_delivered_witness:
  "\<exists>acts p' w'.
    run_callbacks ref_env (fixed_codec (Req_Register bob) long_reply) ''weak''
      (transaction good_lws [[1, 2], [3]] 3) (ref_start, Some fresh_pss) =
      Inr ((w', Some p'), acts, replicate 7 0) \<and>
    payload acts = long_reply \<and> final_flags acts = [False, False, True]"
proof -
  let ?C = "fixed_codec (Req_Register bob) long_reply"
  obtain w' a where d: "dispatch ref_env ''weak'' ref_start (Req_Register bob) = Inr (w', Some a)"
    using bob_registers by (auto simp: with_response_def)
  have C: "fb_verify ?C (received [[1, 2], [3]]) = 0" "fb_as_root ?C (received [[1, 2], [3]])"
    "fb_message ?C (received [[1, 2], [3]]) = Inr (Req_Register bob)" "fb_finalize ?C a = Some long_reply" by (simp_all add: fixed_codec_def)
  have n: "max 1 ((length long_reply + 2030) div 2031) = 3" by (simp add: length_long_reply)
  have flags: "replicate (3 - 1) False @ [True] = [False, False, True]"
    "length [[1, 2], [3 :: u8]] + 2 + 3 = 7" by (simp_all add: eval_nat_numeral)
  from response_delivered [OF _ good_lws_ok C(1,2,3) d C(4)] show ?thesis
    unfolding n flags by auto
qed

text \<open>C8: in every state of a transaction that the library's order of callbacks can reach, a body
  piece and a writable callback touch no memory outside their buffers. The completion uses a null pointer when no
  piece of a body has come, and writes outside the buffer when all pieces were empty; otherwise it fails exactly
  when the body, its last byte replaced by 0, passes the verifier and reading it or its handler fails.\<close>

theorem transaction_memory_safe:
  assumes "reaches txn_start (txn_step E C salt) (ph, w, p)"
  shows "(\<exists>s acts rc. http_callback E C salt R (CB_HTTP_BODY chunk) (w, Some p) = Inr (s, acts, rc)) \<and>
    (ph = Reply \<longrightarrow> (\<exists>s acts rc. http_callback E C salt R CB_HTTP_WRITEABLE (w, Some p) = Inr (s, acts, rc))) \<and>
    (ph = Headers \<or> ph = Body \<longrightarrow>
      (case pss_data p of
         None \<Rightarrow> http_callback E C salt R CB_HTTP_BODY_COMPLETION (w, Some p) = Inl Null_deref
       | Some [] \<Rightarrow> http_callback E C salt R CB_HTTP_BODY_COMPLETION (w, Some p) = Inl Out_of_bounds
       | Some d \<Rightarrow> \<forall>e. http_callback E C salt R CB_HTTP_BODY_COMPLETION (w, Some p) = Inl e \<longleftrightarrow>
           fb_verify C (butlast d @ [0]) = 0 \<and> fb_as_root C (butlast d @ [0]) \<and>
           and_then (fb_message C (butlast d @ [0])) (dispatch E salt w) = Inl e))"
proof (intro conjI impI)
  have inv: "txn_inv (ph, w, p)" by (rule txn.reaches_inv [OF assms])
  show "\<exists>s acts rc. http_callback E C salt R (CB_HTTP_BODY chunk) (w, Some p) = Inr (s, acts, rc)"
    by simp
  {
    assume "ph = Reply"
    with inv writeable_total [of p E C salt R w]
    show "\<exists>s acts rc. http_callback E C salt R CB_HTTP_WRITEABLE (w, Some p) = Inr (s, acts, rc)"
      by auto
  }
  assume "ph = Headers \<or> ph = Body"
  with inv have d: "pss_data p = None \<or> (\<exists>d. pss_data p = Some d \<and> pss_data_len p = length d)" by auto
  show "case pss_data p of
         None \<Rightarrow> http_callback E C salt R CB_HTTP_BODY_COMPLETION (w, Some p) = Inl Null_deref
       | Some [] \<Rightarrow> http_callback E C salt R CB_HTTP_BODY_COMPLETION (w, Some p) = Inl Out_of_bounds
       | Some d \<Rightarrow> \<forall>e. http_callback E C salt R CB_HTTP_BODY_COMPLETION (w, Some p) = Inl e \<longleftrightarrow>
           fb_verify C (butlast d @ [0]) = 0 \<and> fb_as_root C (butlast d @ [0]) \<and>
           and_then (fb_message C (butlast d @ [0])) (dispatch E salt w) = Inl e"
  proof (cases "pss_data p")
    case (Some d')
    with d have len: "pss_data_len p = length d'" by simp
    have cb: "http_callback E C salt R CB_HTTP_BODY_COMPLETION (w, Some p) = on_body_completion E C salt w p"
      by simp
    show ?thesis
    proof (cases d')
      case Nil
      with Some len show ?thesis by (simp add: on_body_completion_def)
    next
      case (Cons x xs)
      have "\<forall>e. on_body_completion E C salt w p = Inl e \<longleftrightarrow>
          fb_verify C (butlast d' @ [0]) = 0 \<and> fb_as_root C (butlast d' @ [0]) \<and>
          and_then (fb_message C (butlast d' @ [0])) (dispatch E salt w) = Inl e"
        by (intro allI completion_undefined [OF Some len]) (simp add: Cons)
      then show ?thesis unfolding Some cb Cons by simp
    qed
  qed (simp add: on_body_completion_def)
qed

theorem transaction_memory_safe_witness:
  "reaches txn_start (txn_step ref_env (fixed_codec (Req_Register bob) [1]) ''weak'')
      (Body, ref_start, on_body [5] fresh_pss) \<and>
   (\<exists>s acts rc. http_callback ref_env (fixed_codec (Req_Register bob) [1]) ''weak'' good_lws
      (CB_HTTP_BODY [6]) (ref_start, Some (on_body [5] fresh_pss)) = Inr (s, acts, rc))"
proof -
  let ?C = "fixed_codec (Req_Register bob) [1]"
  have "txn_step ref_env ?C ''weak'' (Bound, ref_start, fresh_pss) [Send_headers]
      (Headers, ref_start, fresh_pss)"
    by (rule txn_headers [where R = good_lws and path = "''api''" and is_post = True])
      (simp add: on_http_def good_lws_def)
  moreover have "txn_step ref_env ?C ''weak'' (Headers, ref_start, fresh_pss) []
      (Body, ref_start, on_body [5] fresh_pss)"
    by (rule txn_body [where R = good_lws and chunk = "[5]"]) (simp_all add: good_lws_def)
  ultimately have r: "reaches txn_start (txn_step ref_env ?C ''weak'')
      (Body, ref_start, on_body [5] fresh_pss)"
    by (intro reaches_step [OF reaches_step [OF reaches_start]]) (simp_all add: txn_start_def)
  from transaction_memory_safe [OF r, of good_lws "[6]"] r show ?thesis by blast
qed

text \<open>C23: the callbacks for the pieces of a body and for its completion come to processing one buffer, the
  concatenation of the pieces with its last byte replaced by 0; so a body in as many pieces that differs only in its
  last byte has the same results.\<close>

theorem body_received:
  assumes "concat body \<noteq> []" "length body' = length body" "concat body' = butlast (concat body) @ [c]"
  shows "run_callbacks E C salt (map (\<lambda>x. (R, CB_HTTP_BODY x)) body @ [(R, CB_HTTP_BODY_COMPLETION)]) (w, Some fresh_pss) =
      and_then (process E C salt w (fresh_pss\<lparr>pss_data := Some (butlast (concat body) @ [0]), pss_data_len := length (concat body)\<rparr>))
        (\<lambda>(w, p). Inr ((w, Some (p\<lparr>pss_data := None\<rparr>)), [Callback_on_writable], replicate (length body) (dummy_result R) @ [0])) \<and>
    run_callbacks E C salt (map (\<lambda>x. (R, CB_HTTP_BODY x)) body' @ [(R, CB_HTTP_BODY_COMPLETION)]) (w, Some fresh_pss) =
      run_callbacks E C salt (map (\<lambda>x. (R, CB_HTTP_BODY x)) body @ [(R, CB_HTTP_BODY_COMPLETION)]) (w, Some fresh_pss)"
proof -
  have run: "run_callbacks E C salt (map (\<lambda>x. (R, CB_HTTP_BODY x)) cs @ [(R, CB_HTTP_BODY_COMPLETION)]) (w, Some fresh_pss) =
      and_then (process E C salt w (fresh_pss\<lparr>pss_data := Some (butlast (concat cs) @ [0]), pss_data_len := length (concat cs)\<rparr>))
        (\<lambda>(w, p). Inr ((w, Some (p\<lparr>pss_data := None\<rparr>)), [Callback_on_writable], replicate (length cs) (dummy_result R) @ [0]))"
    if "concat cs \<noteq> []" for cs
  proof -
    have "received_pss cs = fresh_pss\<lparr>pss_data := Some (butlast (concat cs) @ [0]), pss_data_len := length (concat cs)\<rparr>"
      by (simp only: received_pss_def received_def zero_last [OF that])
    then show ?thesis
      unfolding run_callbacks_append run_body_callbacks and_then.simps prod.case run_callbacks.simps
        completion_after_body [OF that]
      by (simp add: and_then_assoc split_def del: concat_eq_Nil_conv length_concat)
  qed
  have len: "length (concat body') = length (concat body)" "concat body' \<noteq> []"
    using assms(1,3) by (simp_all del: concat_eq_Nil_conv length_concat)
  have "butlast (concat body') = butlast (concat body)" by (simp add: assms(3))
  then show ?thesis unfolding run [OF assms(1)] run [OF len(2)] len(1) assms(2) by simp
qed

theorem body_received_witness:
  "run_callbacks ref_env (fixed_codec (Req_Other 9) [1]) ''weak''
      [(good_lws, CB_HTTP_BODY [1]), (good_lws, CB_HTTP_BODY [2, 3]), (good_lws, CB_HTTP_BODY_COMPLETION)]
      (ref_start, Some fresh_pss) =
    Inr ((ref_start, Some (fresh_pss\<lparr>pss_data_len := 3\<rparr>)), [Callback_on_writable], [0, 0, 0])"
  using body_received [of "[[1], [2, 3]]" "[[1], [2, 3]]" 3 ref_env "fixed_codec (Req_Other 9) [1]" "''weak''" good_lws ref_start]
  by (simp add: process_def fixed_codec_def fresh_pss_def good_lws_def)

section \<open>Accounts\<close>



text \<open>C15: \<open>edit_me\<close>, on every request: when every value can be escaped, the statement it sends is the
  \<open>UPDATE\<close> of exactly the present columns, complete in its buffer, with a new token exactly when the
  user name or the password changes; when a value cannot be escaped, a null pointer is used.\<close>

theorem edit_me_statement:
  assumes "client_library E"
  shows "edit_me E salt w r =
    (case (literals E w (edit_columns E salt r (edit_new_token E w r)),
           e_escapeLiteral E w (em_token r) 128) of
       (Some ls, Some wl) \<Rightarrow>
         edit_reply (edit_new_token E w r) (em_token r)
           (e_exec E (edit_world E w r) (update_text (em_admin r) ls wl))
     | _ \<Rightarrow> Inl Null_deref)"
  using edit_me_refines [OF assms, of w salt r] edit_me_escape_fails [OF assms, of w salt r]
  by (auto split: option.splits)

definition rename_alice :: edit_me_req where
  "rename_alice = \<lparr>em_username = None, em_password = None, em_firstName = Some ''O'',
     em_lastName = None, em_admin = True, em_token = ''tok''\<rparr>"

theorem edit_me_statement_witness:
  "edit_me ref_env ''weak'' ref_alice rename_alice =
    edit_reply None ''tok'' (rf_exec ref_alice
      (''UPDATE users SET admin = TRUE, firstname = '' @ quoted ''O'' @ '' WHERE token = '' @ quoted ''tok''))"
  using edit_me_statement [OF ref_client, of "''weak''" ref_alice rename_alice]
  by (simp add: rename_alice_def edit_columns_def opt_column_def edit_new_token_def regenerates_def
      edit_world_def update_text_def column_text_def)

text \<open>C25: on tables that satisfy their invariant, an \<open>edit_me\<close> of C strings with the token of a user, without a new user name or
  password, whose values can be escaped reads past the 32 bytes that it copies the token to as soon as its \<open>UPDATE\<close>
  succeeds: the row has been changed, and no answer is given. If the \<open>UPDATE\<close> fails, an error is answered and nothing
  has changed.\<close>

theorem edit_unchanged_token_overruns:
  assumes S: "tomtom_server E view bytea_text float_text"
    and "request_ok (Req_EditMe r)" "\<not> regenerates r"
    and "app_inv H (view w)" "u \<in> set (users (view w))" "em_token r = ur_token u"
    and "literals E w (edit_columns E salt r None) = Some ls" "e_escapeLiteral E w (em_token r) 128 = Some wl"
    and "e_exec E w (update_text (em_admin r) ls wl) = (w', res)"
  shows "if PQresultStatus res = PGRES_COMMAND_OK
    then dispatch E salt w (Req_EditMe r) = Inl Unterminated \<and>
      view w' = edit_effect (stored_hash E salt) r None (view w)
    else (\<exists>m. dispatch E salt w (Req_EditMe r) = Inr (w', Some (error_response m))) \<and> view w' = view w"
proof -
  from assms(4-6) have "fresh_token (em_token r)" by (auto simp: app_inv_def hygienic_def)
  then have len: "length (em_token r) = 44" "cstr (em_token r)" by (simp_all add: fresh_token_facts)
  have nt: "edit_new_token E w r = None" "edit_world E w r = w"
    using assms(3) by (simp_all add: edit_new_token_def edit_world_def)
  note run = tomtom_server.edit_executed [OF S assms(2), of w salt ls wl w' res, unfolded nt, OF assms(7-9)]
  show ?thesis
    using run len by (auto simp: with_response_def edit_reply_def split: if_splits)
qed

theorem edit_unchanged_token_overruns_witness:
  "\<exists>ls wl w'. dispatch ref_env ''weak'' ref_alice (Req_EditMe (rename_alice\<lparr>em_token := ur_token alice\<rparr>)) = Inl Unterminated \<and>
    rf_exec ref_alice (update_text (em_admin rename_alice) ls wl) = (w', rf_result PGRES_COMMAND_OK []) \<and>
    rf_tables w' = edit_effect (stored_hash ref_env ''weak'') (rename_alice\<lparr>em_token := ur_token alice\<rparr>) None
      (rf_tables ref_alice)"
proof -
  let ?r = "rename_alice\<lparr>em_token := ur_token alice\<rparr>"
  have ok: "request_ok (Req_EditMe ?r)" "\<not> regenerates ?r"
    by (simp_all add: rename_alice_def regenerates_def) (simp add: alice_def b64_loop_safe)
  then have nt: "edit_new_token ref_env ref_alice ?r = None" "edit_world ref_env ref_alice ?r = ref_alice"
    by (simp_all add: edit_new_token_def edit_world_def)
  have "distinct (map ur_username (users (edit_effect (stored_hash ref_env ''weak'') ?r
      (edit_new_token ref_env ref_alice ?r) (rf_tables ref_alice))))"
    by (simp add: edit_effect_def update_users_def)
  from ref_edits [OF ok(1) this] obtain ls wl w' where
    run: "literals ref_env ref_alice (edit_columns ref_env ''weak'' ?r None) = Some ls"
      "e_escapeLiteral ref_env ref_alice (em_token ?r) 128 = Some wl"
      "e_exec ref_env ref_alice (update_text (em_admin ?r) ls wl) = (w', rf_result PGRES_COMMAND_OK [])"
    unfolding nt by blast
  have st: "PQresultStatus (rf_result PGRES_COMMAND_OK []) = PGRES_COMMAND_OK" by (simp add: rf_result_def)
  have "alice \<in> set (users (rf_tables ref_alice))" "em_token ?r = ur_token alice" by simp_all
  from edit_unchanged_token_overruns [OF ref.tomtom_server_axioms ok alice_ok this run] st run(3) show ?thesis
    by (intro exI [of _ ls] exI [of _ wl] exI [of _ w']) simp
qed



text \<open>C29: the administrator flag is the caller's choice: after a successful \<open>edit_me\<close> every row that had the
  given token has the flag that the request asked for, whoever sent it.\<close>

theorem admin_flag_self_assigned:
  assumes "tomtom_server E view bytea_text float_text"
    and "db_ok (view w)" "request_ok (Req_EditMe r)"
    and "dispatch E salt w (Req_EditMe r) = Inr (w', Some a)" "\<not> r_error a"
    and "u \<in> set (users (view w))" "ur_token u = take 128 (em_token r)"
  shows "\<exists>u' \<in> set (users (view w')). ur_id u' = ur_id u \<and> ur_admin u' = em_admin r"
proof -
  from tomtom_server.dispatch_serves [OF assms(1-4)] assms(5) obtain nt where
    v: "view w' = edit_effect (stored_hash E salt) r nt (view w)" by (auto simp: refused_def)
  have frame: "ur_id (fold set_column cs x) = ur_id x \<and> ur_admin (fold set_column cs x) = ur_admin x" for cs x
    by (induction cs arbitrary: x) (simp_all add: set_column_def Let_def)
  let ?u = "update_user (em_admin r) (column_values (edited_columns (stored_hash E salt) r nt)) u"
  have "?u \<in> set (users (view w'))"
    using assms(6,7) by (simp add: v edit_effect_def update_users_def rev_image_eqI)
  moreover have "ur_id ?u = ur_id u \<and> ur_admin ?u = em_admin r" by (simp add: update_user_def frame)
  ultimately show ?thesis by blast
qed

theorem admin_flag_self_assigned_witness:
  "\<exists>w' a u'. dispatch ref_env ''weak'' ref_alice (Req_EditMe (rename_alice
      \<lparr>em_token := ur_token alice, em_password := Some ''new''\<rparr>)) = Inr (w', Some a) \<and>
    u' \<in> set (users (rf_tables w')) \<and> ur_id u' = 1 \<and> ur_admin u'"
proof -
  let ?r = "rename_alice\<lparr>em_token := ur_token alice, em_password := Some ''new''\<rparr>"
  have tok: "cstr (ur_token alice)" "length (ur_token alice) = 44"
    by (simp_all add: alice_def b64_loop_safe length_b64_loop)
  have ok: "request_ok (Req_EditMe ?r)" "regenerates ?r"
    using tok by (simp_all add: rename_alice_def regenerates_def)
  have "distinct (map ur_username (users (edit_effect (stored_hash ref_env ''weak'') ?r
      (edit_new_token ref_env ref_alice ?r) (rf_tables ref_alice))))"
    by (simp add: edit_effect_def update_users_def)
  from ref_edits [OF ok(1) this] obtain ls wl w' where run:
    "literals ref_env ref_alice (edit_columns ref_env ''weak'' ?r (edit_new_token ref_env ref_alice ?r)) = Some ls"
    "e_escapeLiteral ref_env ref_alice (em_token ?r) 128 = Some wl"
    "e_exec ref_env (edit_world ref_env ref_alice ?r) (update_text (em_admin ?r) ls wl) = (w', rf_result PGRES_COMMAND_OK [])"
    by blast
  from ref.edit_executed(1) [OF ok(1) run] ok(2) obtain a where
    d: "dispatch ref_env ''weak'' ref_alice (Req_EditMe ?r) = Inr (w', Some a)" "\<not> r_error a"
    by (auto simp: with_response_def edit_reply_def rf_result_def edit_new_token_def b64_loop_safe)
  have "db_ok (rf_tables ref_alice)" using alice_ok by (simp add: app_inv_def)
  from admin_flag_self_assigned [OF ref.tomtom_server_axioms this ok(1) d, of alice] tok(2) obtain u' where
    "u' \<in> set (users (rf_tables w'))" "ur_id u' = ur_id alice" "ur_admin u' = em_admin ?r" by auto
  with d(1) show ?thesis
    by (intro exI [of _ w'] exI [of _ a] exI [of _ u']) (simp add: rename_alice_def alice_def)
qed

lemma login_query_starts: "take 41 (login_query u h) = ''SELECT token FROM users WHERE (username='' @ sq"
  by (simp add: login_query_def login_statement_def snprintf_text_def)

lemma login_query_length: "length (login_query u h) \<le> 8191"
  by (simp add: login_query_def snprintf_text_def)

text \<open>C30: the statement that \<open>login\<close> sends has room for 8191 bytes. A reader of SQL string constants finds the whole user
  name in its first constant, and the password test after it whole, exactly when the name has no quote
  and at most 8044 bytes.\<close>

theorem login_name_constant:
  assumes "crypto_sizes E"
  shows "\<exists>q h. h = b64_loop (password_hash E salt (lg_password r)) \<and> length q \<le> 8191 \<and>
    login E salt w r = login_reply (e_exec E w q) \<and>
    take 41 q = ''SELECT token FROM users WHERE (username='' @ sq \<and>
    (scan_string (drop 41 q) = Some (lg_username r, '' AND password='' @ sq @ h @ sq @ '')'') \<longleftrightarrow>
      CHR 0x27 \<notin> set (lg_username r) \<and> length (lg_username r) \<le> 8044)"
proof -
  define h where "h = b64_loop (password_hash E salt (lg_password r))"
  have "length h = 88" using assms by (simp add: h_def length_encoded_hash)
  from login_constant_iff [OF this] login_sends [OF assms, folded h_def] show ?thesis
    by (intro exI [of _ "login_query (lg_username r) h"] exI [of _ h])
      (auto simp: h_def login_query_starts login_query_length)
qed

theorem login_name_constant_witness:
  "\<exists>q h. login ref_env ''weak'' ref_start \<lparr>lg_username = ''bob'', lg_password = ''pw''\<rparr> = login_reply (rf_exec ref_start q) \<and>
    scan_string (drop 41 q) = Some (''bob'', '' AND password='' @ sq @ h @ sq @ '')'')"
  using login_name_constant [OF ref_sizes, of "''weak''" "\<lparr>lg_username = ''bob'', lg_password = ''pw''\<rparr>" ref_start]
  by auto



section \<open>Contracts\<close>

definition alices_contract :: request_contract_req where
  "alices_contract = \<lparr>rc_token = ur_token alice, rc_name = ''roof'', rc_description = Some ''new'',
     rc_price = Fin False 5 0, rc_attachment = Some [1, 2, 3]\<rparr>"

lemma alices_token_world:
  "fst (e_execParams ref_env w SQL_user_by_token [rc_token alices_contract]) = w"
proof -
  have "rf_execParams w SQL_user_by_token [ur_token alice] =
      rf_select w (rows_user_by_token (ur_token alice) (rf_tables w))"
    by (rule rf_params_one)
  then show ?thesis by (simp add: alices_contract_def rf_select_def)
qed

lemma alices_contract_ok:
  "request_ok (Req_RequestContract alices_contract)" "char_count (rc_name alices_contract) \<le> 64"
  "\<not> is_negative (rc_price alices_contract)" "numeric_literal (price_text (rc_price alices_contract))"
proof -
  have "price_text (Fin False 5 0) = ''5.000000''"
    by (simp add: price_text_def fmt_f_def micro_def round_div_def numer_def denom_def six_digits_def
        sign_text_def show_nat.simps digit_char_def snprintf_text_def)
      code_simp
  then show "request_ok (Req_RequestContract alices_contract)" "char_count (rc_name alices_contract) \<le> 64"
    "\<not> is_negative (rc_price alices_contract)" "numeric_literal (price_text (rc_price alices_contract))"
    by (simp_all add: alices_contract_def numeric_literal_def quote_free_def
        char_count_def continuation_byte_def cstr_def is_negative_def is_digit_def)
qed

text \<open>The look-up of the user and the \<open>INSERT\<close> of the contract, on a table with that user.\<close>

lemma alices_contract_stored:
  assumes "rf_tables w = \<lparr>users = [u], contracts = []\<rparr>" "ur_token u = ur_token alice" "ur_id u < 2 ^ 31"
  shows "e_execParams ref_env w SQL_user_by_token [rc_token alices_contract] =
      (w, rf_result PGRES_TUPLES_OK [name_row u])"
    "\<exists>q w2. contract_query ref_env w alices_contract (show_nat (ur_id u)) 1600000000 = Inr q \<and>
      e_exec ref_env w q = (w2, rf_result PGRES_TUPLES_OK [[Some (show_nat 1)]])"
proof -
  show "e_execParams ref_env w SQL_user_by_token [rc_token alices_contract] = (w, rf_result PGRES_TUPLES_OK [name_row u])"
    using assms(1,2) by (simp add: rf_params_one rf_select_def rows_user_by_token_def with_token_def name_row_def alices_contract_def)
  let ?dl = "Some (quoted ''new'')" and ?al = "Some (hex_text [1, 2, 3])"
  have dl: "opt_literal (\<lambda>d. e_escapeLiteral ref_env w d 16384) (rc_description alices_contract) ?dl"
    and al: "opt_literal (e_escapeBytea ref_env w) (used_attachment (rc_attachment alices_contract)) ?al"
    by (simp_all add: opt_literal_def alices_contract_def used_attachment_def)
  have "length (show_nat 1600000000) \<le> 10" using length_show_nat [of 1600000000 9] by simp
  then have t: "time_text 1600000000 = show_nat 1600000000" by (simp add: time_text_def)
  have "length (show_nat (ur_id u)) \<le> 10" using length_show_nat [of "ur_id u" 9] assms(3) by simp
  then have "length (rc_name alices_contract) + length (show_nat (ur_id u)) \<le> 1400000"
    by (simp add: alices_contract_def)
  from contract_text_length [OF ref_client dl al this, where p = "rc_price alices_contract" and t = 1600000000, unfolded t]
  have q: "contract_query ref_env w alices_contract (show_nat (ur_id u)) 1600000000 =
      Inr (contract_text (rc_name alices_contract) ?dl (price_text (rc_price alices_contract)) ?al (show_nat (ur_id u)) (show_nat 1600000000))"
    unfolding contract_query_refines [OF dl al] t by simp
  have "quote_free (rc_name alices_contract)" using alices_contract_ok(1) by simp
  from ref_insert [OF this dl al, of _ "ur_id u" 1600000000]
  have "\<exists>w2. rf_exec w (contract_text (rc_name alices_contract) ?dl (price_text (rc_price alices_contract)) ?al
      (show_nat (ur_id u)) (show_nat 1600000000)) = (w2, rf_result PGRES_TUPLES_OK [[Some (show_nat 1)]])"
    using alices_contract_ok(2,4) assms(1)
    by (simp add: rf_insert_contract_def Let_def fresh_id_def varchar_short used_attachment_def alices_contract_def)
  with q show "\<exists>q w2. contract_query ref_env w alices_contract (show_nat (ur_id u)) 1600000000 = Inr q \<and>
      e_exec ref_env w q = (w2, rf_result PGRES_TUPLES_OK [[Some (show_nat 1)]])" by simp
qed

text \<open>C12: a contract request that was answered with a contract, on tables that satisfy their invariant, with texts that are C strings
  and a name that fits the column, without a quote and of at most 1000000 bytes: its user is found by the token; the tables have exactly the new row, under a new
  identifier; the answer repeats the request, with the identifier and the time that are stored. The price is stored in the
  server's text form, the description up to 16384 bytes. \<open>check_contract\<close> with that identifier, and any token, then
  returns the stored row with the name of its owner, or the message of the database if its \<open>SELECT\<close>
  fails, and changes nothing.\<close>

theorem contract_round_trip:
  assumes S: "tomtom_server E view bytea_text float_text"
    and inv: "app_inv (stored_hash E salt) (view w)"
    and ok: "request_ok (Req_RequestContract r)" "char_count (rc_name r) \<le> 64"
    and run: "dispatch E salt w (Req_RequestContract r) = Inr (w2, Some a)" "\<not> r_error a"
  shows "\<exists>u i t. u \<in> set (users (view w)) \<and> ur_token u = rc_token r \<and> i \<notin> cr_id ` set (contracts (view w)) \<and>
    a = ok_response (Res_RequestContract (stored_info r u i (of_nat t))) \<and> t < 2 ^ 63 \<and>
    view w2 = (view w)\<lparr>contracts := contracts (view w) @ [stored_contract float_text r u i t]\<rparr> \<and>
    (case e_execParams E w2 SQL_check_contract [show_nat i] of (w3, res) \<Rightarrow>
       dispatch E salt w2 (Req_CheckContract \<lparr>ck_token = tok, ck_id = of_nat i\<rparr>) =
         Inr (w3, Some (if PQresultStatus res = PGRES_TUPLES_OK
           then ok_response (Res_CheckContract (contract_view (stored_contract float_text r u i t, u)))
           else error_response (PQresultErrorMessage res))) \<and> view w3 = view w2)"
proof -
  have db: "db_ok (view w)" using inv by (simp add: app_inv_def)
  from tomtom_server.dispatch_serves [OF S db ok(1) run(1)] run(2) obtain u i t where
    u: "u \<in> set (users (view w))" "ur_token u = rc_token r"
    and ins: "contract_inserted (rc_name r) (map_option (take 16384) (rc_description r))
          (float_text (price_text (rc_price r))) (used_attachment (rc_attachment r)) (ur_id u) t i (view w) (view w2)"
    and a: "a = ok_response (Res_RequestContract (new_contract r u i t))"
    unfolding serves_requested by (auto simp: requested_def refused_def error_response_def)
  have "varchar 64 (rc_name r) = Some (rc_name r)" using ok(2) by (simp add: varchar_short)
  with ins have i: "i < 2 ^ 31" "i \<notin> cr_id ` set (contracts (view w))" "t < 2 ^ 63"
    and v2: "view w2 = (view w)\<lparr>contracts := contracts (view w) @ [stored_contract float_text r u i t]\<rparr>"
    by (auto simp: contract_inserted_def insert_contract_def stored_contract_def)
  have "app_inv (stored_hash E salt) (view w2)" by (rule tomtom_server.dispatch_inv [OF S inv ok(1) run(1)])
  then have db2: "db_ok (view w2)" by (simp add: app_inv_def)
  have k: "sint (ck_id \<lparr>ck_token = tok, ck_id = of_nat i\<rparr> :: u64) = int i"
    using i(1) by (simp add: signed_of_nat signed_take_bit_int_eq_self)
  obtain w3 res where ex: "e_execParams E w2 SQL_check_contract [show_nat i] = (w3, res)" by fastforce
  note c = tomtom_server.check_known [OF S db2 k _ _ _ _ ex, of "stored_contract float_text r u i t" u]
  have "new_contract r u i t = stored_info r u i (of_nat t)" by (simp add: new_contract_def stored_info_def)
  with a u i v2 ex c show ?thesis
    by (intro exI [of _ u] exI [of _ i] exI [of _ t]) (simp add: stored_contract_def with_response_def)
qed

theorem contract_round_trip_witness:
  "\<exists>w2 w3 i.
    dispatch ref_env ''weak'' ref_alice (Req_RequestContract alices_contract) =
      Inr (w2, Some (ok_response (Res_RequestContract (stored_info alices_contract alice i 1600000000)))) \<and>
    dispatch ref_env ''weak'' w2 (Req_CheckContract \<lparr>ck_token = ''nobody'', ck_id = of_nat i\<rparr>) =
      Inr (w3, Some (ok_response (Res_CheckContract
        (contract_view (stored_contract (\<lambda>s. s) alices_contract alice i 1600000000, alice)))))"
proof -
  have w: "rf_tables ref_alice = \<lparr>users = [alice], contracts = []\<rparr>" "ur_token alice = ur_token alice" "ur_id alice < 2 ^ 31"
    by (simp_all add: alice_def)
  have st: "PQresultStatus (rf_result PGRES_TUPLES_OK rows) = PGRES_TUPLES_OK" for rows by (simp add: rf_result_def)
  have db: "db_ok (rf_tables ref_alice)" using alice_ok by (simp add: app_inv_def)
  have own: "sole_owner (rf_tables ref_alice) (rc_token alices_contract) alice"
    by (simp add: sole_owner_def with_token_def alices_contract_def)
  have "e_time ref_env ref_alice = 1600000000" by simp
  with alices_contract_stored(2) [OF w] obtain q w2 where
    q: "contract_query ref_env ref_alice alices_contract (show_nat (ur_id alice)) (e_time ref_env ref_alice) = Inr q"
      "e_exec ref_env ref_alice q = (w2, rf_result PGRES_TUPLES_OK [[Some (show_nat 1)]])" by auto
  have "request_contract ref_env ref_alice alices_contract =
      contract_reply alices_contract (strncpy (calloc 64) ''alice'' 64) (strncpy (calloc 32) ''Alice'' 32)
        (strncpy (calloc 32) ''A'' 32) 1600000000 (w2, rf_result PGRES_TUPLES_OK [[Some (show_nat 1)]])"
    using ref.contract_executed(1) [OF alices_contract_ok(1,3) db own alices_contract_stored(1) [OF w] st q]
    by (simp add: alice_def)
  then obtain a where d: "dispatch ref_env ''weak'' ref_alice (Req_RequestContract alices_contract) = Inr (w2, Some a)"
    "\<not> r_error a" "\<exists>c. a = ok_response (Res_RequestContract c) \<and> ci_created_at c = 1600000000"
    by (simp add: contract_reply_def with_response_def rf_result_def PQgetvalue_def cstr_def ok_response_def)
  from contract_round_trip [OF ref.tomtom_server_axioms alice_ok alices_contract_ok(1,2) d(1,2), of "''nobody''"]
  obtain u i t where u: "u = alice" "a = ok_response (Res_RequestContract (stored_info alices_contract u i (of_nat t)))"
    "t < 2 ^ 63"
    and c: "dispatch ref_env ''weak'' w2 (Req_CheckContract \<lparr>ck_token = ''nobody'', ck_id = of_nat i\<rparr>) =
      Inr (fst (e_execParams ref_env w2 SQL_check_contract [show_nat i]),
        Some (ok_response (Res_CheckContract (contract_view (stored_contract (\<lambda>s. s) alices_contract u i t, u)))))"
    by (auto simp: rf_params_one split_beta simp del: dispatch.simps)
  have "(of_nat t :: u64) = 1600000000" using d(3) u(2) by (auto simp: ok_response_def stored_info_def)
  then have "unat (of_nat t :: u64) = 1600000000" by simp
  moreover have "unat (of_nat t :: u64) = t" using u(3) by (simp add: unsigned_of_nat take_bit_nat_eq_self)
  ultimately have "t = 1600000000" by simp
  with d(1) u(1,2) c \<open>(of_nat t :: u64) = 1600000000\<close> show ?thesis
    by (intro exI [of _ w2] exI [of _ "fst (e_execParams ref_env w2 SQL_check_contract [show_nat i])"] exI [of _ i])
      (simp del: dispatch.simps)
qed

text \<open>C39: a contract name so long that the buffer of the statement, 2097152 bytes, is full right before
  \<open> RETURNING id\<close>, for a known user, a price that is not negative and values that can be escaped: an \<open>INSERT\<close> without that clause
  is sent, and when it succeeds, which a statement without rows does with \<open>PGRES_COMMAND_OK\<close>, the answer is an error.\<close>

theorem long_name_unreported:
  assumes found: "e_execParams E w SQL_user_by_token [rc_token r] = (w1, res1)" "PQresultStatus res1 = PGRES_TUPLES_OK"
      "PQtuples res1 = [[Some uid, Some un, Some fn, Some ln]]" "\<not> is_negative (rc_price r)"
    and lits: "opt_literal (\<lambda>d. e_escapeLiteral E w1 d 16384) (rc_description r) dl"
      "opt_literal (e_escapeBytea E w1) (used_attachment (rc_attachment r)) al"
    and full: "contract_text (rc_name r) dl (price_text (rc_price r)) al uid (time_text (e_time E w1)) = q @ '' RETURNING id''"
      "length q = 2097151"
    and ins: "e_exec E w1 q = (w2, res2)" "PQresultStatus res2 = PGRES_COMMAND_OK"
  shows "dispatch E salt w (Req_RequestContract r) = Inr (w2, Some (error_response (PQresultErrorMessage res2)))"
proof -
  have "contract_query E w1 r uid (e_time E w1) = Inr q"
    using full(2) by (simp add: contract_query_refines [OF lits] full(1))
  with found ins show ?thesis
    by (simp add: request_contract_def contract_insert_def contract_reply_def with_response_def PQntuples_def
      cell_of_single [OF found(3)] Let_def)
qed

text \<open>The reference server without the clause, and a name padded with spaces, which \<open>VARCHAR(64)\<close> drops.\<close>

definition silent_env :: "ref_world env" where
  "silent_env = ref_env\<lparr>e_exec := \<lambda>w q. (fst (rf_exec w (q @ '' RETURNING id'')), rf_result PGRES_COMMAND_OK [])\<rparr>"

lemma varchar_padded:
  assumes "60 \<le> n"
  shows "varchar 64 (''roof'' @ replicate n (CHR '' '')) = Some (''roof'' @ replicate 60 (CHR '' ''))"
proof (cases "n = 60")
  case False
  have c: "char_count (''roof'' @ replicate n (CHR '' '')) = n + 4"
    by (simp add: char_count_def continuation_byte_def)
  have "n + 4 - (n + 4 - 64) = length (''roof'' :: string) + 60" using assms False by simp
  then show ?thesis using assms False unfolding varchar_def c Let_def
    by (simp del: append.simps add: drop_append take_append)
qed (simp add: varchar_def char_count_def continuation_byte_def)

lemma padded_contract_inserted:
  assumes "60 \<le> n"
  shows "map cr_name (contracts (rf_tables (fst (rf_exec ref_alice
      (contract_text (''roof'' @ replicate n (CHR '' '')) (Some (quoted ''new'')) (price_text (rc_price alices_contract))
        (Some (hex_text [1, 2, 3])) (show_nat 1) (show_nat 1600000000)))))) = [''roof'' @ replicate 60 (CHR '' '')]"
  using rf_exec_insert [of "''roof'' @ replicate n (CHR '' '')" "price_text (rc_price alices_contract)"
      "Some (hex_text [1, 2, 3])" ref_alice "Some ''new''" 1 1600000000]
    price_text_no_comma quote_free_hex varchar_padded [OF assms] alices_contract_ok(4)
  by (simp add: quote_free_def rf_insert_contract_def Let_def fresh_id_def insert_contract_def alice_def)

theorem long_name_unreported_witness:
  "\<exists>n w2. dispatch silent_env ''weak'' ref_alice
      (Req_RequestContract (alices_contract\<lparr>rc_name := ''roof'' @ replicate n (CHR '' '')\<rparr>)) =
      Inr (w2, Some (error_response [])) \<and>
    map cr_name (contracts (rf_tables w2)) = [''roof'' @ replicate 60 (CHR '' '')]"
proof -
  let ?dl = "Some (quoted ''new'')" and ?al = "Some (hex_text [1, 2, 3])"
  let ?text = "\<lambda>name. contract_text name ?dl (price_text (rc_price alices_contract)) ?al (show_nat 1) (show_nat 1600000000)"
  have "length (show_nat 1600000000) \<le> 10" using length_show_nat [of 1600000000 9] by simp
  then have t: "time_text 1600000000 = show_nat 1600000000" by (simp add: time_text_def)
  have lits: "opt_literal (\<lambda>d. e_escapeLiteral silent_env w d 16384) (rc_description (alices_contract\<lparr>rc_name := name\<rparr>)) ?dl"
    "opt_literal (e_escapeBytea silent_env w) (used_attachment (rc_attachment (alices_contract\<lparr>rc_name := name\<rparr>))) ?al" for w name
    by (simp_all add: opt_literal_def alices_contract_def used_attachment_def silent_env_def)
  have short: "length (?text ''roof'') < 2000000"
    using length_price_text [of "rc_price alices_contract"] \<open>length (show_nat 1600000000) \<le> 10\<close> length_show_nat [of 1 9]
    by (simp add: contract_text_def quoted_def length_hex_text SQL_insert_prefix_def)
  define n where "n = 2097164 - length (?text ''roof'')"
  define name where "name = ''roof'' @ replicate n (CHR '' '')"
  let ?r = "alices_contract\<lparr>rc_name := name\<rparr>"
  have "length (?text name) = length (?text ''roof'') + n" by (simp add: contract_text_def name_def)
  then have len: "length (?text name) = 2097164" using short by (simp add: n_def)
  define q where "q = SQL_insert_prefix @ sq @ name @ sq @ '', '' @ quoted ''new'' @ '', '' @
    price_text (rc_price alices_contract) @ '', '' @ sq @ hex_text [1, 2, 3] @ sq @ '', '' @ show_nat 1 @ '', '' @
    show_nat 1600000000 @ '')''"
  have q: "?text name = q @ '' RETURNING id''" by (simp add: contract_text_def q_def)
  then have "length q = 2097151" using len by simp
  have ins: "map cr_name (contracts (rf_tables (fst (rf_exec ref_alice (?text name))))) = [''roof'' @ replicate 60 (CHR '' '')]"
    unfolding name_def by (rule padded_contract_inserted) (use short in \<open>simp add: n_def\<close>)
  have found: "e_execParams silent_env ref_alice SQL_user_by_token [rc_token ?r] =
      (ref_alice, rf_result PGRES_TUPLES_OK [name_row alice])"
    by (simp add: silent_env_def rf_params_one rf_select_def rows_user_by_token_def with_token_def name_row_def alices_contract_def)
  have "dispatch silent_env ''weak'' ref_alice (Req_RequestContract ?r) =
      Inr (fst (rf_exec ref_alice (?text name)), Some (error_response (PQresultErrorMessage (rf_result PGRES_COMMAND_OK []))))"
    by (rule long_name_unreported [OF found _ _ _ lits, where q = q])
      (use q \<open>length q = 2097151\<close> t alices_contract_ok(3) in
        \<open>simp_all add: rf_result_def name_row_def alice_def silent_env_def\<close>)
  with ins show ?thesis unfolding name_def
    by (intro exI [of _ n] exI [of _ "fst (rf_exec ref_alice (?text name))"])
      (simp add: rf_result_def name_def del: dispatch.simps)
qed

text \<open>C13: an administrator is listed contracts of all users, anybody else only the own ones; at most 50, the
  newest first, each with its owner, and all of them when there are at most 50.\<close>

theorem listed_contracts:
  assumes "tomtom_server E view bytea_text float_text" "db_ok (view w)"
    and "dispatch E salt w (Req_ListContracts r) = Inr (w', Some (ok_response (Res_ListContracts cs)))"
  shows "view w' = view w \<and>
    (\<exists>u \<in> set (users (view w)). \<exists>qs. ur_token u = lc_token r \<and> cs = map contract_view qs \<and>
      length qs \<le> 50 \<and> newest_first qs \<and> set qs \<subseteq> set (joined (view w)) \<and>
      (\<not> ur_admin u \<longrightarrow> (\<forall>(c, v) \<in> set qs. v = u)) \<and>
      (length (if ur_admin u then joined (view w) else joined_of_user (ur_id u) (view w)) \<le> 50 \<longrightarrow>
        mset qs = mset (if ur_admin u then joined (view w) else joined_of_user (ur_id u) (view w))))"
proof -
  from tomtom_server.dispatch_serves [OF assms(1,2) _ assms(3)] obtain u qs where
    u: "u \<in> set (users (view w))" "ur_token u = lc_token r" "view w' = view w" "cs = map contract_view qs"
    and q: "newest_50 (if ur_admin u then joined (view w) else joined_of_user (ur_id u) (view w)) qs"
    by (auto simp: refused_def)
  define ps where "ps = (if ur_admin u then joined (view w) else joined_of_user (ur_id u) (view w))"
  from q obtain rs where rs: "mset rs = mset ps" "newest_first rs" "qs = take 50 rs"
    by (auto simp: newest_50_def ps_def)
  have sub: "set qs \<subseteq> set ps" using mset_eq_setD [OF rs(1)] set_take_subset [of 50 rs] by (simp add: rs(3))
  have own: "v = u" if "\<not> ur_admin u" "(c, v) \<in> set qs" for c v
  proof -
    have "(c, v) \<in> set (joined (view w))" "cr_user c = ur_id u"
      using that sub by (auto simp: ps_def joined_of_user_def)
    then have "v \<in> set (users (view w))" "ur_id v = ur_id u" by (auto simp: joined_def)
    moreover have "inj_on ur_id (set (users (view w)))" using assms(2) by (simp add: db_ok_def distinct_map)
    ultimately show ?thesis using u(1) by (meson inj_onD)
  qed
  have "newest_first qs" using rs(2) unfolding newest_first_def rs(3) by (rule sorted_wrt_take)
  moreover have "set qs \<subseteq> set (joined (view w))"
    using sub by (auto simp: ps_def joined_of_user_def split: if_splits)
  moreover have "mset qs = mset ps" if "length ps \<le> 50"
    using that mset_eq_length [OF rs(1)] rs(1) by (simp add: rs(3))
  ultimately show ?thesis
    using u own rs(3) unfolding ps_def
    by (intro conjI bexI [of _ u] exI [of _ qs]) (simp_all, blast)
qed

text \<open>The reference server with one contract.\<close>

definition ref_roof :: ref_world where
  "ref_roof = ref_alice\<lparr>rf_tables := \<lparr>users = [alice],
     contracts = [stored_contract (\<lambda>s. s) alices_contract alice 1 1600000000]\<rparr>\<rparr>"

theorem listed_contracts_witness:
  "\<exists>cs. dispatch ref_env ''weak'' ref_roof (Req_ListContracts \<lparr>lc_token = ur_token alice\<rparr>) =
      Inr (ref_roof, Some (ok_response (Res_ListContracts cs))) \<and>
    cs = [contract_view (stored_contract (\<lambda>s. s) alices_contract alice 1 1600000000, alice)]"
proof -
  let ?r = "\<lparr>lc_token = ur_token alice\<rparr>"
  define c where "c = stored_contract (\<lambda>s. s) alices_contract alice 1 1600000000"
  have t: "rf_tables ref_roof = \<lparr>users = [alice], contracts = [c]\<rparr>" by (simp add: ref_roof_def c_def)
  have id: "cr_user c = ur_id alice" "ur_id alice = 1" by (simp_all add: c_def stored_contract_def alice_def)
  have row: "contract_row_ok c" "numeric_literal (cr_price c)"
    using alices_contract_ok(1,2,4)
    by (auto simp: c_def contract_row_ok_def stored_contract_def alices_contract_def used_attachment_def opt_cstr_def cstr_def)
  have "user_row_ok alice" using alice_ok by (simp add: app_inv_def db_ok_def)
  then have ok: "db_ok (rf_tables ref_roof)"
    using row(1) id by (simp add: t db_ok_def)
  have plain: "\<not> ur_admin alice" "first_char (bool_text False) \<noteq> CHR ''t''"
    by (simp_all add: alice_def first_char_def bool_text_def)
  have uid: "c_read (strncpy (calloc 128) (show_nat (ur_id alice)) 128) = Inr (show_nat (ur_id alice))"
    using ref.user_id_text(1) [OF db_ok_users [OF ok], of alice] by (simp add: t)
  have wt: "with_token (rf_tables ref_roof) (ur_token alice) = [alice]" by (simp add: with_token_def t)
  have one: "rf_newest (joined_of_user (ur_id alice) (rf_tables ref_roof)) = [(c, alice)]"
    by (simp add: rf_newest_def joined_of_user_def joined_def t id)
  have "contract_of_row ref_env (rf_result PGRES_TUPLES_OK [row_contract hex_text (c, alice)]) 0 =
      Inr (contract_view (c, alice))"
    using row(1) by (intro contract_of_row_view [where bt = hex_text]) (simp_all add: rf_result_def PQntuples_def)
  then have d: "dispatch ref_env ''weak'' ref_roof (Req_ListContracts ?r) =
      Inr (ref_roof, Some (ok_response (Res_ListContracts [contract_view (c, alice)])))"
    by (simp add: list_contracts_def list_answer_def with_response_def rf_params_one rf_select_def rows_user_admin_def
        wt rf_result_def PQntuples_def PQgetvalue_def plain uid one)
  from listed_contracts [OF ref.tomtom_server_axioms ok d] d show ?thesis unfolding c_def by auto
qed



end
